(* ===== verification/Prelude.thy ===== *)
theory Prelude
  imports Main "HOL-Library.List_Lexorder" "HOL-Library.Char_ord" "HOL-Library.Code_Target_Nat"
begin

text \<open>
  What every component shares: results of fallible Python code, and the operations of
  Python's \<open>str\<close> and \<open>bytes\<close> that the tools call. The sequence operations are
  polymorphic in the element type, because the announce bot works on code points
  (\<open>nat list\<close>) and the byte-level tools on \<open>char list\<close>.

  \<^item> \<open>'e + 'a\<close> is the result of code that may raise: \<open>Inl\<close> carries the exception.
  \<^item> \<open>startswith\<close>, \<open>endswith\<close>, \<open>find_sub\<close>, \<open>split_sub\<close>, \<open>split1\<close>,
    \<open>partition_sub\<close>, \<open>join\<close>, \<open>strip_by\<close>, \<open>split_ws\<close> are the methods of the
    same name; \<open>splitlines_by\<close> is \<open>splitlines\<close> for a given set of line breaks.
  \<^item> \<open>int_of\<close> is \<open>int(text)\<close> in base ten, \<open>show_nat\<close> is \<open>str(n)\<close>.
\<close>

named_theorems py_simps "equations of the Python string and bytes operations"

type_synonym ('e, 'a) result = "'e + 'a"

section \<open>Fallible code\<close>

definition bind_res :: "'e + 'a \<Rightarrow> ('a \<Rightarrow> 'e + 'b) \<Rightarrow> 'e + 'b" where
  "bind_res r f = (case r of Inl e \<Rightarrow> Inl e | Inr x \<Rightarrow> f x)"

definition require_res :: "bool \<Rightarrow> 'e \<Rightarrow> 'e + unit" where
  "require_res ok e = (if ok then Inr () else Inl e)"

fun map_res :: "('a \<Rightarrow> 'e + 'b) \<Rightarrow> 'a list \<Rightarrow> 'e + 'b list" where
  "map_res f [] = Inr []"
| "map_res f (x # xs) =
     (case f x of Inl e \<Rightarrow> Inl e
      | Inr y \<Rightarrow> (case map_res f xs of Inl e \<Rightarrow> Inl e | Inr ys \<Rightarrow> Inr (y # ys)))"

section \<open>Prefixes, suffixes and substrings\<close>

definition startswith :: "'a list \<Rightarrow> 'a list \<Rightarrow> bool" where
  "startswith s p = (take (length p) s = p)"

definition endswith :: "'a list \<Rightarrow> 'a list \<Rightarrow> bool" where
  "endswith s p = (length p \<le> length s \<and> drop (length s - length p) s = p)"

fun find_sub :: "'a list \<Rightarrow> 'a list \<Rightarrow> nat option" where
  "find_sub [] p = (if p = [] then Some 0 else None)"
| "find_sub (c # s) p =
     (if startswith (c # s) p then Some 0 else map_option Suc (find_sub s p))"

definition contains_sub :: "'a list \<Rightarrow> 'a list \<Rightarrow> bool" where
  "contains_sub s p = (find_sub s p \<noteq> None)"

fun rfind_sub :: "'a list \<Rightarrow> 'a list \<Rightarrow> nat option" where
  "rfind_sub [] p = (if p = [] then Some 0 else None)"
| "rfind_sub (c # s) p =
     (case rfind_sub s p of Some i \<Rightarrow> Some (Suc i)
      | None \<Rightarrow> if startswith (c # s) p then Some 0 else None)"

definition partition_sub :: "'a list \<Rightarrow> 'a list \<Rightarrow> 'a list \<times> 'a list \<times> 'a list" where
  "partition_sub s p =
     (case find_sub s p of None \<Rightarrow> (s, [], [])
      | Some i \<Rightarrow> (take i s, p, drop (i + length p) s))"

definition split1 :: "'a list \<Rightarrow> 'a list \<Rightarrow> 'a list list" where
  "split1 p s =
     (case find_sub s p of None \<Rightarrow> [s]
      | Some i \<Rightarrow> [take i s, drop (i + length p) s])"

text \<open>\<open>s.split(p, n)\<close>.\<close>

fun splitn :: "nat \<Rightarrow> 'a list \<Rightarrow> 'a list \<Rightarrow> 'a list list" where
  "splitn n p s =
     (if n = 0 then [s] else
      case find_sub s p of None \<Rightarrow> [s]
      | Some i \<Rightarrow> take i s # splitn (n - 1) p (drop (i + length p) s))"

declare splitn.simps [simp del]

text \<open>\<open>s.split(p, 2)\<close>.\<close>

definition split2 :: "'a list \<Rightarrow> 'a list \<Rightarrow> 'a list list" where
  "split2 p s =
     (case find_sub s p of None \<Rightarrow> [s]
      | Some i \<Rightarrow> take i s # split1 p (drop (i + length p) s))"

lemma startswith_append [simp]: "startswith (p @ s) p"
  by (simp add: startswith_def)

lemma startswith_iff: "startswith s p \<longleftrightarrow> (\<exists>t. s = p @ t)"
  by (metis append_eq_conv_conj append_take_drop_id startswith_def)

lemma startswith_mono: "startswith s p \<Longrightarrow> startswith (s @ t) p"
  by (auto simp: startswith_iff)

lemma startswith_length: "startswith s p \<Longrightarrow> length p \<le> length s"
  by (auto simp: startswith_iff)

lemma startswith_short:
  "startswith (s @ t) p \<Longrightarrow> length p \<le> length s \<Longrightarrow> startswith s p"
  by (simp add: startswith_def)

lemma endswith_iff: "endswith s p \<longleftrightarrow> (\<exists>t. s = t @ p)"
  unfolding endswith_def
  by (metis append_eq_conv_conj append_take_drop_id diff_diff_cancel length_append
      length_drop le_add2 add_diff_cancel_right')

lemma find_sub_bound: "find_sub s p = Some i \<Longrightarrow> i + length p \<le> length s"
proof (induction s arbitrary: i)
  case Nil
  then show ?case by (auto split: if_splits)
next
  case (Cons c s)
  then show ?case
    by (force split: if_splits dest: startswith_length)
qed

lemma find_sub_startswith: "find_sub s p = Some i \<Longrightarrow> startswith (drop i s) p"
proof (induction s arbitrary: i)
  case Nil
  then show ?case by (auto simp: startswith_def split: if_splits)
next
  case (Cons c s)
  then show ?case by (auto split: if_splits)
qed

lemma find_sub_decompose:
  assumes "find_sub s p = Some i"
  shows "s = take i s @ p @ drop (i + length p) s"
proof -
  from find_sub_startswith [OF assms] have "take (length p) (drop i s) = p"
    by (simp add: startswith_def)
  then have "drop i s = p @ drop (i + length p) s"
    by (metis add.commute append_take_drop_id drop_drop)
  then show ?thesis by (metis append_take_drop_id)
qed

lemma find_sub_append: "find_sub x p = Some i \<Longrightarrow> find_sub (x @ y) p = Some i"
proof (induction x arbitrary: i)
  case Nil
  then show ?case
    by (cases y) (auto simp: startswith_def split: if_splits)
next
  case (Cons c x)
  show ?case
  proof (cases "startswith (c # x) p")
    case True
    with Cons.prems show ?thesis using startswith_mono [OF True, of y] by simp
  next
    case False
    with Cons.prems obtain j where j: "find_sub x p = Some j" "i = Suc j" by auto
    have "\<not> startswith ((c # x) @ y) p"
    proof
      assume "startswith ((c # x) @ y) p"
      moreover have "length p \<le> length (c # x)" using find_sub_bound [OF j(1)] by simp
      ultimately show False using startswith_short False by blast
    qed
    with Cons.IH [OF j(1)] j(2) show ?thesis by simp
  qed
qed

lemma find_sub_zero: "startswith s p \<Longrightarrow> find_sub s p = Some 0"
  by (cases s) (auto simp: startswith_def)

lemma find_sub_skip:
  assumes "\<And>i. i < length x \<Longrightarrow> \<not> startswith (drop i x @ p @ y) p"
  shows "find_sub (x @ p @ y) p = Some (length x)"
  using assms
proof (induction x)
  case Nil
  then show ?case by (simp add: find_sub_zero)
next
  case (Cons c x)
  have "\<not> startswith (c # x @ p @ y) p" using Cons.prems [of 0] by simp
  moreover have "find_sub (x @ p @ y) p = Some (length x)"
    by (rule Cons.IH) (use Cons.prems [of "Suc _"] in auto)
  ultimately show ?case by simp
qed

lemma find_sub_None_iff: "find_sub s p = None \<longleftrightarrow> (\<forall>u v. s \<noteq> u @ p @ v)"
proof
  assume n: "find_sub s p = None"
  show "\<forall>u v. s \<noteq> u @ p @ v"
  proof (intro allI notI)
    fix u v assume "s = u @ p @ v"
    with n show False
    proof (induction u arbitrary: s)
      case Nil
      then show ?case using find_sub_zero [of s p] by simp
    next
      case (Cons c u)
      then show ?case by (auto split: if_splits)
    qed
  qed
next
  assume "\<forall>u v. s \<noteq> u @ p @ v"
  then show "find_sub s p = None"
    by (metis find_sub_decompose not_None_eq)
qed

lemma contains_sub_iff: "contains_sub s p \<longleftrightarrow> (\<exists>u v. s = u @ p @ v)"
  by (auto simp: contains_sub_def find_sub_None_iff)

lemma find_sub_minimal:
  "find_sub s p = Some i \<Longrightarrow> j < i \<Longrightarrow> \<not> startswith (drop j s) p"
proof (induction s arbitrary: i j)
  case Nil
  then show ?case by (auto split: if_splits)
next
  case (Cons c s)
  then show ?case by (cases j) (auto split: if_splits)
qed

section \<open>Splitting and joining\<close>

function split_sub :: "'a list \<Rightarrow> 'a list \<Rightarrow> 'a list list" where
  "split_sub p s =
     (if p = [] then [s] else
      (case find_sub s p of None \<Rightarrow> [s]
       | Some i \<Rightarrow> take i s # split_sub p (drop (i + length p) s)))"
  by pat_completeness auto
termination
proof (relation "measure (\<lambda>(p, s). length s)")
  fix p s :: "'a list" and i
  assume "p \<noteq> []" "find_sub s p = Some i"
  then show "((p, drop (i + length p) s), p, s) \<in> measure (\<lambda>(p, s). length s)"
    using find_sub_bound [of s p i] by (cases p) auto
qed simp

declare split_sub.simps [simp del]

fun join :: "'a list \<Rightarrow> 'a list list \<Rightarrow> 'a list" where
  "join sep [] = []"
| "join sep [x] = x"
| "join sep (x # y # xs) = x @ sep @ join sep (y # xs)"

text \<open>\<open>s.count(p)\<close> of a text that is not empty.\<close>

definition count_sub :: "'a list \<Rightarrow> 'a list \<Rightarrow> nat" where
  "count_sub s p = length (split_sub p s) - 1"

lemma split_sub_None:
  "find_sub s p = None \<Longrightarrow> split_sub p s = [s]"
  by (simp add: split_sub.simps [of p s])

lemma split_sub_Some:
  "p \<noteq> [] \<Longrightarrow> find_sub s p = Some i \<Longrightarrow>
   split_sub p s = take i s # split_sub p (drop (i + length p) s)"
  by (simp add: split_sub.simps [of p s])

lemma split_sub_not_Nil [simp]: "split_sub p s \<noteq> []"
  by (subst split_sub.simps) (auto split: option.splits)

lemma join_Cons: "xs \<noteq> [] \<Longrightarrow> join sep (x # xs) = x @ sep @ join sep xs"
  by (cases xs) auto

lemma join_split_sub: "p \<noteq> [] \<Longrightarrow> join p (split_sub p s) = s"
proof (induction p s rule: split_sub.induct)
  case (1 p s)
  show ?case
  proof (cases "find_sub s p")
    case None
    then show ?thesis by (simp add: split_sub_None)
  next
    case (Some i)
    with 1 show ?thesis
      using find_sub_decompose [OF Some] by (simp add: split_sub_Some join_Cons)
  qed
qed

lemma split_sub_no_sep:
  "p \<noteq> [] \<Longrightarrow> x \<in> set (split_sub p s) \<Longrightarrow> \<not> contains_sub x p"
proof (induction p s rule: split_sub.induct)
  case (1 p s)
  show ?case
  proof (cases "find_sub s p")
    case None
    with 1 show ?thesis by (simp add: split_sub_None contains_sub_def)
  next
    case (Some i)
    have "\<not> contains_sub (take i s) p"
    proof
      assume "contains_sub (take i s) p"
      then obtain j where j: "find_sub (take i s) p = Some j" by (auto simp: contains_sub_def)
      have "find_sub (take i s @ drop i s) p = Some j" by (rule find_sub_append [OF j])
      with Some have "j = i" by simp
      with find_sub_bound [OF j] "1.prems" show False by simp
    qed
    with 1 Some show ?thesis by (auto simp: split_sub_Some)
  qed
qed

text \<open>
  The law every line framer rests on: text that arrives in two pieces splits as the
  whole text does, when the unfinished last piece is carried over.
\<close>

lemma split_sub_append:
  "p \<noteq> [] \<Longrightarrow>
   split_sub p (x @ y) = butlast (split_sub p x) @ split_sub p (last (split_sub p x) @ y)"
proof (induction p x rule: split_sub.induct)
  case (1 p x)
  show ?case
  proof (cases "find_sub x p")
    case None
    then show ?thesis by (simp add: split_sub_None)
  next
    case (Some i)
    have b: "i + length p \<le> length x" by (rule find_sub_bound [OF Some])
    have "find_sub (x @ y) p = Some i" by (rule find_sub_append [OF Some])
    then have "split_sub p (x @ y) = take i x # split_sub p (drop (i + length p) x @ y)"
      using b "1.prems" by (simp add: split_sub_Some)
    then show ?thesis using 1 Some by (simp add: split_sub_Some)
  qed
qed

lemma last_split_sub_no_sep: "p \<noteq> [] \<Longrightarrow> \<not> contains_sub (last (split_sub p s)) p"
  by (rule split_sub_no_sep [of p _ s]) auto

lemma find_sub_char_None: "c \<notin> set w \<Longrightarrow> find_sub w [c] = None"
  by (auto simp: find_sub_None_iff)

lemma find_sub_char: "c \<notin> set w \<Longrightarrow> find_sub (w @ c # y) [c] = Some (length w)"
  by (induction w) (auto simp: startswith_def)

lemma rfind_sub_char_None: "c \<notin> set y \<Longrightarrow> rfind_sub y [c] = None"
  by (induction y) (auto simp: startswith_def)

lemma rfind_sub_char: "c \<notin> set y \<Longrightarrow> rfind_sub (x @ c # y) [c] = Some (length x)"
  by (induction x) (auto simp: rfind_sub_char_None startswith_def)

lemma split_sub_join_char:
  "ws \<noteq> [] \<Longrightarrow> \<forall>w \<in> set ws. c \<notin> set w \<Longrightarrow> split_sub [c] (join [c] ws) = ws"
proof (induction ws)
  case (Cons w ws)
  show ?case
  proof (cases ws)
    case Nil
    then show ?thesis using Cons.prems by (simp add: find_sub_char_None split_sub_None)
  next
    case (Cons v vs)
    have "split_sub [c] (w @ c # join [c] ws) = w # split_sub [c] (join [c] ws)"
      using Cons.prems find_sub_char [of c w "join [c] ws"] by (subst split_sub_Some) auto
    then show ?thesis using Cons Cons.IH Cons.prems by simp
  qed
qed simp

lemma split_sub_terminated:
  assumes "p \<noteq> []" and "\<not> contains_sub x p"
    and "\<And>i. find_sub (x @ p @ y) p = Some i \<Longrightarrow> i = length x"
  shows "split_sub p (x @ p @ y) = x # split_sub p y"
proof -
  have "contains_sub (x @ p @ y) p" by (auto simp: contains_sub_iff)
  then obtain i where i: "find_sub (x @ p @ y) p = Some i" by (auto simp: contains_sub_def)
  with assms(3) have "find_sub (x @ p @ y) p = Some (length x)" by blast
  then show ?thesis using assms(1) by (simp add: split_sub_Some)
qed

section \<open>Stripping and whitespace splitting\<close>

definition rstrip_by :: "('a \<Rightarrow> bool) \<Rightarrow> 'a list \<Rightarrow> 'a list" where
  "rstrip_by P s = rev (dropWhile P (rev s))"

definition strip_by :: "('a \<Rightarrow> bool) \<Rightarrow> 'a list \<Rightarrow> 'a list" where
  "strip_by P s = rstrip_by P (dropWhile P s)"

function split_ws :: "('a \<Rightarrow> bool) \<Rightarrow> 'a list \<Rightarrow> 'a list list" where
  "split_ws P s =
     (let t = dropWhile P s in
      if t = [] then []
      else takeWhile (\<lambda>c. \<not> P c) t # split_ws P (dropWhile (\<lambda>c. \<not> P c) t))"
  by pat_completeness auto
termination
proof (relation "measure (\<lambda>(P, s). length s)")
  fix P :: "'a \<Rightarrow> bool" and s t :: "'a list"
  assume t: "t = dropWhile P s" "t \<noteq> []"
  then have "\<not> P (hd t)" by (simp add: hd_dropWhile)
  then have "length (dropWhile (\<lambda>c. \<not> P c) t) < length t"
    using t(2) by (cases t) (auto simp: le_imp_less_Suc length_dropWhile_le)
  moreover have "length t \<le> length s" using t(1) by (simp add: length_dropWhile_le)
  ultimately show "((P, dropWhile (\<lambda>c. \<not> P c) t), P, s) \<in> measure (\<lambda>(P, s). length s)"
    by simp
qed simp

declare split_ws.simps [simp del]

lemma rstrip_by_length: "length (rstrip_by P s) \<le> length s"
  by (metis length_dropWhile_le length_rev rstrip_by_def)

lemma strip_by_length: "length (strip_by P s) \<le> length s"
  by (metis le_trans length_dropWhile_le rstrip_by_length strip_by_def)

lemma rstrip_by_set: "set (rstrip_by P s) \<subseteq> set s"
  by (metis rstrip_by_def set_dropWhileD set_rev subsetI)

lemma strip_by_set: "set (strip_by P s) \<subseteq> set s"
  by (metis rstrip_by_set set_dropWhileD strip_by_def subset_iff)

lemma split_ws_pieces:
  "w \<in> set (split_ws P s) \<Longrightarrow> w \<noteq> [] \<and> (\<forall>c \<in> set w. \<not> P c) \<and> set w \<subseteq> set s"
proof (induction P s rule: split_ws.induct)
  case (1 P s)
  let ?t = "dropWhile P s"
  show ?case
  proof (cases "?t = []")
    case True
    with "1.prems" show ?thesis by (simp add: split_ws.simps [of P s])
  next
    case False
    then have hd: "\<not> P (hd ?t)" by (simp add: hd_dropWhile)
    have sub: "set ?t \<subseteq> set s" by (auto dest: set_dropWhileD)
    from "1.prems" False consider
      "w = takeWhile (\<lambda>c. \<not> P c) ?t" | "w \<in> set (split_ws P (dropWhile (\<lambda>c. \<not> P c) ?t))"
      by (simp only: split_ws.simps [of P s] Let_def if_False) auto
    then show ?thesis
    proof cases
      case 1
      with False hd sub show ?thesis
        by (cases ?t) (auto dest: set_takeWhileD)
    next
      case 2
      with "1.IH" [OF refl False] sub show ?thesis
        by (blast dest: set_dropWhileD)
    qed
  qed
qed

lemma split_ws_Nil [simp]: "split_ws P [] = []"
  by (simp add: split_ws.simps)

lemma split_ws_spaces: "\<forall>c \<in> set s. P c \<Longrightarrow> split_ws P s = []"
  by (subst split_ws.simps) simp

lemma split_ws_dropWhile [simp]: "split_ws P (dropWhile P s) = split_ws P s"
  by (simp add: split_ws.simps [of P "dropWhile P s"] split_ws.simps [of P s])

lemma split_ws_word:
  assumes "a \<noteq> []" "\<forall>c \<in> set a. \<not> P c" "P d"
  shows "split_ws P (a @ d # s) = a # split_ws P s"
proof -
  have d: "dropWhile P (a @ d # s) = a @ d # s"
    using assms by (cases a) auto
  have t: "takeWhile (\<lambda>c. \<not> P c) (a @ d # s) = a"
    and r: "dropWhile (\<lambda>c. \<not> P c) (a @ d # s) = d # s"
    using assms by (simp_all add: takeWhile_append dropWhile_append)
  have "split_ws P (d # s) = split_ws P s"
    using assms(3) split_ws_dropWhile [of P "d # s"] by simp
  then show ?thesis
    using assms(1) by (simp add: split_ws.simps [of P "a @ d # s"] d t r Let_def)
qed

lemma split_ws_join:
  assumes "P d" "list_all (\<lambda>w. w \<noteq> [] \<and> list_all (\<lambda>c. \<not> P c) w) ws"
  shows "split_ws P (join [d] ws) = ws"
  using assms(2)
proof (induction ws)
  case (Cons w ws)
  have w: "w \<noteq> []" "\<forall>c \<in> set w. \<not> P c" using Cons.prems by (simp_all add: list_all_iff)
  show ?case
  proof (cases "ws = []")
    case True
    have "dropWhile P w = w" using w by (cases w) auto
    moreover have "takeWhile (\<lambda>c. \<not> P c) w = w" "dropWhile (\<lambda>c. \<not> P c) w = []"
      using w(2) by (simp_all add: takeWhile_eq_all_conv)
    ultimately show ?thesis
      using w(1) True by (simp add: split_ws.simps [of P w] del: dropWhile_eq_Nil_conv)
  next
    case False
    then have "join [d] (w # ws) = w @ d # join [d] ws" by (simp add: join_Cons)
    with Cons split_ws_word [of w P d, OF w assms(1)] show ?thesis by simp
  qed
qed simp

section \<open>Line splitting\<close>

fun splitlines_by :: "'a \<Rightarrow> 'a \<Rightarrow> ('a \<Rightarrow> bool) \<Rightarrow> 'a list \<Rightarrow> 'a list \<Rightarrow> 'a list list" where
  "splitlines_by cr lf nl acc [] = (if acc = [] then [] else [rev acc])"
| "splitlines_by cr lf nl acc [c] = (if nl c then [rev acc] else [rev (c # acc)])"
| "splitlines_by cr lf nl acc (c # d # s) =
     (if c = cr \<and> d = lf then rev acc # splitlines_by cr lf nl [] s
      else if nl c then rev acc # splitlines_by cr lf nl [] (d # s)
      else splitlines_by cr lf nl (c # acc) (d # s))"

section \<open>Decimal numbers\<close>

fun digits10 :: "nat \<Rightarrow> nat list" where
  "digits10 n = (if n < 10 then [n] else digits10 (n div 10) @ [n mod 10])"

declare digits10.simps [simp del]

fun int_digits :: "('a \<Rightarrow> nat option) \<Rightarrow> 'a \<Rightarrow> nat \<Rightarrow> bool \<Rightarrow> 'a list \<Rightarrow> nat option" where
  "int_digits dv us acc prev [] = (if prev then Some acc else None)"
| "int_digits dv us acc prev (c # s) =
     (case dv c of Some d \<Rightarrow> int_digits dv us (10 * acc + d) True s
      | None \<Rightarrow> if c = us \<and> prev then int_digits dv us acc False s else None)"

text \<open>\<open>int_of\<close>: optional sign, then digits with single underscores between them.\<close>

definition int_of :: "('a \<Rightarrow> nat option) \<Rightarrow> 'a \<Rightarrow> 'a \<Rightarrow> 'a \<Rightarrow> ('a \<Rightarrow> bool) \<Rightarrow> 'a list \<Rightarrow> int option" where
  "int_of dv us pl mi ws s =
     (case strip_by ws s of [] \<Rightarrow> None
      | c # t \<Rightarrow>
          if c = pl then map_option int (int_digits dv us 0 False t)
          else if c = mi then map_option (\<lambda>n. - int n) (int_digits dv us 0 False t)
          else map_option int (int_digits dv us 0 False (c # t)))"

lemma digits10_small: "d \<in> set (digits10 n) \<Longrightarrow> d < 10"
proof (induction n rule: digits10.induct)
  case (1 n)
  then show ?case by (cases "n < 10") (auto simp: digits10.simps [of n])
qed

lemma digits10_not_Nil [simp]: "digits10 n \<noteq> []"
  by (subst digits10.simps) simp

lemma int_digits_append:
  assumes "\<And>d. d \<in> set ds \<Longrightarrow> dv (f d) = Some d"
  shows "int_digits dv us acc prev (map f ds @ s) =
    int_digits dv us (foldl (\<lambda>a d. 10 * a + d) acc ds) (prev \<or> ds \<noteq> []) s"
  using assms by (induction ds arbitrary: acc prev) auto

lemma foldl_digits10: "foldl (\<lambda>a d. 10 * a + d) 0 (digits10 n) = n"
proof (induction n rule: digits10.induct)
  case (1 n)
  then show ?case by (cases "n < 10") (auto simp: digits10.simps [of n])
qed

lemma int_digits_show:
  assumes "\<And>d. d < 10 \<Longrightarrow> dv (f d) = Some d"
  shows "int_digits dv us 0 False (map f (digits10 n)) = Some n"
proof -
  have "int_digits dv us 0 False (map f (digits10 n) @ []) =
      int_digits dv us (foldl (\<lambda>a d. 10 * a + d) 0 (digits10 n)) (False \<or> digits10 n \<noteq> []) []"
    by (rule int_digits_append) (metis assms digits10_small)
  then show ?thesis by (simp add: foldl_digits10)
qed

section \<open>Binary rounding\<close>

text \<open>Division rounding half to even, and the position of the highest bit: what rounding to a
  double needs.\<close>

definition round_div :: "nat \<Rightarrow> nat \<Rightarrow> nat" where
  "round_div a b =
     (let q = a div b; r = a mod b in
      if 2 * r < b \<or> 2 * r = b \<and> even q then q else Suc q)"

fun floor_log2 :: "nat \<Rightarrow> nat" where
  "floor_log2 n = (if n \<le> 1 then 0 else Suc (floor_log2 (n div 2)))"

declare floor_log2.simps [simp del]

section \<open>Characters of \<open>bytes\<close> and ASCII text\<close>

definition show_nat :: "nat \<Rightarrow> string" where
  "show_nat n = map (\<lambda>d. char_of (48 + d)) (digits10 n)"

definition digit_val :: "char \<Rightarrow> nat option" where
  "digit_val c = (if CHR ''0'' \<le> c \<and> c \<le> CHR ''9'' then Some (of_char c - 48) else None)"

definition is_digit :: "char \<Rightarrow> bool" where
  "is_digit c = (digit_val c \<noteq> None)"

definition is_lower :: "char \<Rightarrow> bool" where
  "is_lower c = (CHR ''a'' \<le> c \<and> c \<le> CHR ''z'')"

definition is_upper :: "char \<Rightarrow> bool" where
  "is_upper c = (CHR ''A'' \<le> c \<and> c \<le> CHR ''Z'')"

text \<open>ASCII whitespace, as \<open>bytes.strip\<close> and \<open>bytes.split\<close> use it.\<close>

definition byte_space :: "char \<Rightarrow> bool" where
  "byte_space c = (of_char c \<in> {9, 10, 11, 12, 13, 32 :: nat})"

definition byte_lower :: "char \<Rightarrow> char" where
  "byte_lower c = (if is_upper c then char_of (of_char c + 32 :: nat) else c)"

definition byte_upper :: "char \<Rightarrow> char" where
  "byte_upper c = (if is_lower c then char_of (of_char c - 32 :: nat) else c)"

definition byte_int :: "string \<Rightarrow> int option" where
  "byte_int = int_of digit_val (CHR ''_'') (CHR ''+'') (CHR ''-'') byte_space"

definition byte_splitlines :: "string \<Rightarrow> string list" where
  "byte_splitlines =
     splitlines_by (CHR 0x0D) (CHR 0x0A) (\<lambda>c. c = CHR 0x0A \<or> c = CHR 0x0D) []"

end
