(* ===== verification/Bot_Text.thy ===== *)
theory Bot_Text
  imports Prelude
begin

text \<open>
  Text handling of the announce bot (\<open>src/tools/announce_bot.py\<close>). A Python \<open>str\<close>
  is a list of code points (\<open>pystr\<close>), because the bot budgets UTF-8 bytes and slices by
  code point. \<open>utf8\<close> is \<open>str.encode("utf-8", "replace")\<close>; \<open>byte_len\<close> its length.

  The locale \<open>text_measure\<close> is the interface between the byte budget and the code that
  cuts text: a size that adds up over concatenation and charges at most four bytes for a
  code point. It is interpreted on \<open>byte_len\<close>, and the bounds on \<open>split_text\<close>,
  \<open>compact\<close> and the truncation loop of \<open>channel_say\<close> are its consequences.

  \<open>str_lower\<close> and \<open>str_upper\<close> are exact on every code point whose image contains an
  ASCII character; other non-ASCII code points have non-ASCII images in Python and are kept
  as they are. The bot compares the results with ASCII literals only, so each comparison
  has the source's outcome.
\<close>

type_synonym pystr = "nat list"

definition u :: "string \<Rightarrow> pystr" where
  "u s = map of_char s"

section \<open>UTF-8\<close>

definition utf8_char :: "nat \<Rightarrow> nat list" where
  "utf8_char c =
     (if c < 0x80 then [c]
      else if c < 0x800 then [0xC0 + c div 64, 0x80 + c mod 64]
      else if 0xD800 \<le> c \<and> c \<le> 0xDFFF then [63]
      else if c < 0x10000 then [0xE0 + c div 4096, 0x80 + c div 64 mod 64, 0x80 + c mod 64]
      else [0xF0 + c div 262144, 0x80 + c div 4096 mod 64, 0x80 + c div 64 mod 64,
            0x80 + c mod 64])"

definition utf8 :: "pystr \<Rightarrow> string" where
  "utf8 s = map char_of (concat (map utf8_char s))"

definition byte_len :: "pystr \<Rightarrow> nat" where
  "byte_len s = length (utf8 s)"

section \<open>Whitespace, case and numbers\<close>

text \<open>The code points for which \<open>str.isspace\<close> holds; \<open>\s\<close> of \<open>re\<close> is the same set.\<close>

definition uspace :: "nat \<Rightarrow> bool" where
  "uspace c =
     (9 \<le> c \<and> c \<le> 13 \<or> 28 \<le> c \<and> c \<le> 32 \<or> c = 0x85 \<or> c = 0xA0 \<or> c = 0x1680
      \<or> 0x2000 \<le> c \<and> c \<le> 0x200A \<or> c = 0x2028 \<or> c = 0x2029 \<or> c = 0x202F \<or> c = 0x205F
      \<or> c = 0x3000)"

definition unewline :: "nat \<Rightarrow> bool" where
  "unewline c =
     (10 \<le> c \<and> c \<le> 13 \<or> 28 \<le> c \<and> c \<le> 30 \<or> c = 0x85 \<or> c = 0x2028 \<or> c = 0x2029)"

definition str_strip :: "pystr \<Rightarrow> pystr" where
  "str_strip = strip_by uspace"

definition str_rstrip :: "pystr \<Rightarrow> pystr" where
  "str_rstrip = rstrip_by uspace"

definition str_lstrip :: "pystr \<Rightarrow> pystr" where
  "str_lstrip = dropWhile uspace"

definition str_split :: "pystr \<Rightarrow> pystr list" where
  "str_split = split_ws uspace"

definition str_splitlines :: "pystr \<Rightarrow> pystr list" where
  "str_splitlines = splitlines_by 13 10 unewline []"

definition lower_char :: "nat \<Rightarrow> nat list" where
  "lower_char c =
     (if 65 \<le> c \<and> c \<le> 90 then [c + 32]
      else if c = 0x130 then [105, 0x307]
      else if c = 0x212A then [107]
      else [c])"

definition upper_char :: "nat \<Rightarrow> nat list" where
  "upper_char c =
     (if 97 \<le> c \<and> c \<le> 122 then [c - 32]
      else if c = 0xDF then [83, 83]
      else if c = 0x131 then [73]
      else if c = 0x149 then [0x2BC, 78]
      else if c = 0x17F then [83]
      else if c = 0x1F0 then [74, 0x30C]
      else if c = 0x1E96 then [72, 0x331]
      else if c = 0x1E97 then [84, 0x308]
      else if c = 0x1E98 then [87, 0x30A]
      else if c = 0x1E99 then [89, 0x30A]
      else if c = 0x1E9A then [65, 0x2BE]
      else if c = 0xFB00 then [70, 70]
      else if c = 0xFB01 then [70, 73]
      else if c = 0xFB02 then [70, 76]
      else if c = 0xFB03 then [70, 70, 73]
      else if c = 0xFB04 then [70, 70, 76]
      else if c = 0xFB05 \<or> c = 0xFB06 then [83, 84]
      else [c])"

definition str_lower :: "pystr \<Rightarrow> pystr" where
  "str_lower s = concat (map lower_char s)"

definition str_upper :: "pystr \<Rightarrow> pystr" where
  "str_upper s = concat (map upper_char s)"

text \<open>Case folding of \<open>re.IGNORECASE\<close> towards the ASCII letters.\<close>

definition re_fold :: "nat \<Rightarrow> nat" where
  "re_fold c = (if 65 \<le> c \<and> c \<le> 90 then c + 32 else if c = 0x130 \<or> c = 0x131 then 105
     else if c = 0x17F then 115 else if c = 0x212A then 107 else c)"

definition udigit :: "nat \<Rightarrow> nat option" where
  "udigit c = (if 48 \<le> c \<and> c \<le> 57 then Some (c - 48) else None)"

definition str_int :: "pystr \<Rightarrow> int option" where
  "str_int = int_of udigit 95 43 45 uspace"

definition str_nat :: "nat \<Rightarrow> pystr" where
  "str_nat n = map (\<lambda>d. 48 + d) (digits10 n)"

definition str_of_int :: "int \<Rightarrow> pystr" where
  "str_of_int i = (if i < 0 then 45 # str_nat (nat (- i)) else str_nat (nat i))"

section \<open>Formatting codes of the bot\<close>

abbreviation "mC \<equiv> [3 :: nat]"
abbreviation "mB \<equiv> [2 :: nat]"
abbreviation "mU \<equiv> [31 :: nat]"
abbreviation "RST \<equiv> [15 :: nat]"

definition mcolor :: "nat \<Rightarrow> pystr" where
  "mcolor n = mC @ [48 + n div 10, 48 + n mod 10]"

definition WHITE :: pystr where "WHITE = mcolor 0"
definition BLACK :: pystr where "BLACK = mcolor 1"
definition NAVY :: pystr where "NAVY = mcolor 2"
definition GREEN :: pystr where "GREEN = mcolor 3"
definition RED :: pystr where "RED = mcolor 4"
definition MAROON :: pystr where "MAROON = mcolor 5"
definition PURPLE :: pystr where "PURPLE = mcolor 6"
definition ORANGE :: pystr where "ORANGE = mcolor 7"
definition YEL :: pystr where "YEL = mcolor 8"
definition LGREEN :: pystr where "LGREEN = mcolor 9"
definition TEAL :: pystr where "TEAL = mcolor 10"
definition CYAN :: pystr where "CYAN = mcolor 11"
definition BLUE :: pystr where "BLUE = mcolor 12"
definition PINK :: pystr where "PINK = mcolor 13"
definition GREY :: pystr where "GREY = mcolor 14"
definition SILVER :: pystr where "SILVER = mcolor 15"
definition MAG :: pystr where "MAG = PINK"

lemmas colour_defs = mcolor_def WHITE_def BLACK_def NAVY_def GREEN_def RED_def MAROON_def
  PURPLE_def ORANGE_def YEL_def LGREEN_def TEAL_def CYAN_def BLUE_def PINK_def GREY_def
  SILVER_def MAG_def

definition TYPE_COLOR :: "(pystr \<times> pystr) list" where
  "TYPE_COLOR =
     [(u ''feat'', LGREEN), (u ''fix'', RED), (u ''docs'', CYAN), (u ''refactor'', PINK),
      (u ''test'', GREEN), (u ''chore'', SILVER), (u ''perf'', YEL), (u ''build'', BLUE),
      (u ''ci'', GREY), (u ''style'', PURPLE), (u ''revert'', ORANGE)]"

definition TYPE_GLYPH :: "(pystr \<times> pystr) list" where
  "TYPE_GLYPH =
     [(u ''feat'', [0x2728]), (u ''fix'', [0x1F41B]), (u ''docs'', [0x1F4DD]),
      (u ''refactor'', [0x267B, 0xFE0F]), (u ''test'', [0x2705]), (u ''chore'', [0x1F527]),
      (u ''perf'', [0x26A1]), (u ''build'', [0x1F3D7, 0xFE0F]), (u ''ci'', [0x1F916]),
      (u ''style'', [0x1F3A8]), (u ''revert'', [0x23EA])]"

definition MAX_MESSAGE_TEXT_BYTES :: nat where
  "MAX_MESSAGE_TEXT_BYTES = 360"

section \<open>Splitting a payload (\<open>split_text\<close>, \<open>compact\<close>)\<close>

text \<open>One step of the character loop over an over-long word.\<close>

definition piece_step :: "nat \<Rightarrow> pystr list \<times> pystr \<Rightarrow> nat \<Rightarrow> pystr list \<times> pystr" where
  "piece_step limit st ch =
     (case st of (chunks, piece) \<Rightarrow>
        if byte_len (piece @ [ch]) > limit
        then (if piece \<noteq> [] then chunks @ [piece] else chunks, [ch])
        else (chunks, piece @ [ch]))"

text \<open>One step of the word loop.\<close>

definition word_step :: "nat \<Rightarrow> pystr list \<times> pystr \<Rightarrow> pystr \<Rightarrow> pystr list \<times> pystr" where
  "word_step limit st word =
     (case st of (chunks, cur) \<Rightarrow>
        if word = [] then (chunks, cur)
        else let candidate = (if cur = [] then word else cur @ [32] @ word) in
          if byte_len candidate \<le> limit then (chunks, candidate)
          else let chunks' = (if cur \<noteq> [] then chunks @ [cur] else chunks) in
            if byte_len word \<le> limit then (chunks', word)
            else foldl (piece_step limit) (chunks', []) word)"

definition flush :: "pystr list \<times> pystr \<Rightarrow> pystr list" where
  "flush st = (case st of (chunks, cur) \<Rightarrow> if cur \<noteq> [] then chunks @ [cur] else chunks)"

definition split_text :: "pystr \<Rightarrow> nat \<Rightarrow> pystr list" where
  "split_text text limit =
     (if byte_len text \<le> limit then [text]
      else flush (foldl (word_step limit) ([], []) (split_sub [32] text)))"

text \<open>\<open>re.sub(r"\s+", " ", line)\<close>\<close>

function collapse_ws :: "pystr \<Rightarrow> pystr" where
  "collapse_ws [] = []"
| "collapse_ws (c # s) =
     (if uspace c then 32 # collapse_ws (dropWhile uspace s) else c # collapse_ws s)"
  by pat_completeness auto
termination
  by (relation "measure length") (auto simp: le_imp_less_Suc length_dropWhile_le)

definition clean_lines :: "pystr list \<Rightarrow> pystr list" where
  "clean_lines lines =
     filter (\<lambda>t. t \<noteq> []) (map (\<lambda>line. str_strip (collapse_ws line)) lines)"

definition compact_sep :: pystr where
  "compact_sep = [32] @ GREY @ [124] @ RST @ [32]"

definition pack_step :: "nat \<Rightarrow> pystr list \<times> pystr \<Rightarrow> pystr \<Rightarrow> pystr list \<times> pystr" where
  "pack_step limit st part =
     (case st of (chunks, cur) \<Rightarrow>
        let candidate = (if cur = [] then part else cur @ compact_sep @ part) in
        if byte_len candidate \<le> limit then (chunks, candidate)
        else (if cur \<noteq> [] then chunks @ [cur] else chunks, part))"

definition compact :: "pystr list \<Rightarrow> nat \<Rightarrow> pystr list" where
  "compact lines limit =
     flush (foldl (\<lambda>st line. foldl (pack_step limit) st (split_text line limit))
       ([], []) (clean_lines lines))"

section \<open>Topic protection\<close>

definition PROTECTED_TOPIC_CHANNELS :: "pystr list" where
  "PROTECTED_TOPIC_CHANNELS = [u ''#root'']"

definition topic_protected :: "pystr \<Rightarrow> bool" where
  "topic_protected channel = (str_lower channel \<in> set PROTECTED_TOPIC_CHANNELS)"

definition topic_change_protected :: "pystr \<Rightarrow> bool" where
  "topic_change_protected line =
     (case str_split (str_strip line) of
        a # b # _ \<Rightarrow>
          str_upper a \<in> {u ''TOPIC'', u ''FORCETOPIC''} \<and> topic_protected b
      | _ \<Rightarrow> False)"

section \<open>The hard cap of \<open>channel_say\<close>\<close>

lemma utf8_char_len: "1 \<le> length (utf8_char c) \<and> length (utf8_char c) \<le> 4"
  by (simp add: utf8_char_def)

lemma byte_len_alt: "byte_len s = sum_list (map (\<lambda>c. length (utf8_char c)) s)"
  by (simp add: byte_len_def utf8_def length_concat comp_def)

lemma byte_len_le: "byte_len s \<le> 4 * length s"
proof (induction s)
  case Nil
  then show ?case by (simp add: byte_len_alt)
next
  case (Cons c s)
  then show ?case using utf8_char_len [of c] by (simp add: byte_len_alt)
qed

text \<open>
  \<open>while byte_len(text) > MAX: text = text[:max(1, len(text) - 8)].rstrip() + "..."\<close>
  (the ellipsis is the single code point U+2026).
\<close>

definition truncate_step :: "pystr \<Rightarrow> pystr" where
  "truncate_step s = str_rstrip (take (max 1 (length s - 8)) s) @ [0x2026]"

function truncate_text :: "pystr \<Rightarrow> pystr" where
  "truncate_text s =
     (if byte_len s > MAX_MESSAGE_TEXT_BYTES
      then truncate_text (str_rstrip (take (max 1 (length s - 8)) s) @ [0x2026])
      else s)"
  by pat_completeness auto
termination
proof (relation "measure length")
  fix s :: pystr
  assume "MAX_MESSAGE_TEXT_BYTES < byte_len s"
  with byte_len_le [of s] have l: "90 < length s"
    by (simp add: MAX_MESSAGE_TEXT_BYTES_def)
  have "length (str_rstrip (take (max 1 (length s - 8)) s))
      \<le> length (take (max 1 (length s - 8)) s)"
    unfolding str_rstrip_def by (rule rstrip_by_length)
  also have "\<dots> \<le> length s - 8" using l by simp
  finally show "(str_rstrip (take (max 1 (length s - 8)) s) @ [0x2026], s)
      \<in> measure length"
    using l by simp
qed simp

declare truncate_text.simps [simp del]

section \<open>The byte budget as an interface\<close>

locale text_measure =
  fixes sz :: "pystr \<Rightarrow> nat"
  assumes sz_Nil: "sz [] = 0"
    and sz_append: "sz (x @ y) = sz x + sz y"
    and sz_char: "1 \<le> sz [c] \<and> sz [c] \<le> 4"
begin

lemma sz_Cons: "sz (c # s) = sz [c] + sz s"
  using sz_append [of "[c]" s] by simp

lemma sz_upper: "sz s \<le> 4 * length s"
proof (induction s)
  case Nil
  then show ?case by (simp add: sz_Nil)
next
  case (Cons c s)
  then show ?case using sz_char [of c] sz_Cons [of c s] by simp
qed

lemma sz_lower: "length s \<le> sz s"
proof (induction s)
  case Nil
  then show ?case by simp
next
  case (Cons c s)
  then show ?case using sz_char [of c] sz_Cons [of c s] by simp
qed

lemma sz_take: "sz (take n s) \<le> sz s"
  by (metis append_take_drop_id le_add1 sz_append)

lemma sz_eq_0: "sz s = 0 \<longleftrightarrow> s = []"
  using sz_lower [of s] by (auto simp: sz_Nil)

end

interpretation utf8_size: text_measure byte_len
  by unfold_locales (simp_all add: byte_len_alt utf8_char_len [simplified])

lemmas byte_len_simps = utf8_size.sz_Nil utf8_size.sz_append

section \<open>Bounds of the splitters\<close>

definition chunks_ok :: "nat \<Rightarrow> pystr list \<times> pystr \<Rightarrow> bool" where
  "chunks_ok limit st =
     ((\<forall>c \<in> set (fst st). c \<noteq> [] \<and> byte_len c \<le> limit) \<and> byte_len (snd st) \<le> limit)"

lemma foldl_chunks_ok:
  assumes "\<And>st x. chunks_ok limit st \<Longrightarrow> Q x \<Longrightarrow> chunks_ok limit (f st x)"
    and "\<forall>x \<in> set xs. Q x" and "chunks_ok limit st"
  shows "chunks_ok limit (foldl f st xs)"
  using assms(2,3) by (induction xs arbitrary: st) (simp_all add: assms(1))

lemma piece_step_ok:
  "4 \<le> limit \<Longrightarrow> chunks_ok limit st \<Longrightarrow> chunks_ok limit (piece_step limit st ch)"
  using utf8_size.sz_char [of ch]
  by (auto simp: piece_step_def chunks_ok_def split: prod.splits)

lemma word_step_ok:
  assumes "4 \<le> limit" "chunks_ok limit st"
  shows "chunks_ok limit (word_step limit st word)"
proof -
  obtain chunks cur where st: "st = (chunks, cur)" by (cases st)
  define c' where "c' = (if cur \<noteq> [] then chunks @ [cur] else chunks)"
  define cand where "cand = (if cur = [] then word else cur @ [32] @ word)"
  have c': "chunks_ok limit (c', w)" if "byte_len w \<le> limit" for w
    using assms(2) st that by (simp add: chunks_ok_def c'_def)
  have "chunks_ok limit (c', [])" by (rule c') (simp add: byte_len_simps)
  then have pieces: "chunks_ok limit (foldl (piece_step limit) (c', []) word)"
    using assms(1) by (intro foldl_chunks_ok [where Q = "\<lambda>_. True"]) (auto intro: piece_step_ok)
  have cur: "chunks_ok limit (chunks, w)" if "byte_len w \<le> limit" for w
    using assms(2) st that by (simp add: chunks_ok_def)
  have "word_step limit st word =
      (if word = [] then st else if byte_len cand \<le> limit then (chunks, cand)
       else if byte_len word \<le> limit then (c', word)
       else foldl (piece_step limit) (c', []) word)"
    by (simp only: word_step_def st c'_def cand_def Let_def prod.case)
  then show ?thesis using pieces assms(2) c' cur by (simp split: if_split)
qed

lemma flush_ok: "chunks_ok limit st \<Longrightarrow> c \<in> set (flush st) \<Longrightarrow> c \<noteq> [] \<and> byte_len c \<le> limit"
  by (auto simp: flush_def chunks_ok_def split: prod.splits if_splits)

lemma chunks_ok_init: "chunks_ok limit ([], [])"
  by (simp add: chunks_ok_def byte_len_simps)

lemma split_text_bound:
  assumes "4 \<le> limit" "c \<in> set (split_text text limit)"
  shows "byte_len c \<le> limit"
proof (cases "byte_len text \<le> limit")
  case True
  with assms(2) show ?thesis by (simp add: split_text_def)
next
  case False
  have "chunks_ok limit (foldl (word_step limit) ([], []) (split_sub [32] text))"
    by (rule foldl_chunks_ok [where Q = "\<lambda>_. True"])
      (auto intro: word_step_ok [OF assms(1)] chunks_ok_init)
  with False assms(2) show ?thesis by (auto simp: split_text_def dest: flush_ok)
qed

lemma split_text_nonempty:
  assumes "4 \<le> limit" "text \<noteq> []" "c \<in> set (split_text text limit)"
  shows "c \<noteq> []"
proof (cases "byte_len text \<le> limit")
  case True
  with assms show ?thesis by (simp add: split_text_def)
next
  case False
  have "chunks_ok limit (foldl (word_step limit) ([], []) (split_sub [32] text))"
    by (rule foldl_chunks_ok [where Q = "\<lambda>_. True"])
      (auto intro: word_step_ok [OF assms(1)] chunks_ok_init)
  with False assms(3) show ?thesis by (auto simp: split_text_def dest: flush_ok)
qed

lemma pack_step_ok:
  "byte_len part \<le> limit \<Longrightarrow> chunks_ok limit st \<Longrightarrow> chunks_ok limit (pack_step limit st part)"
  by (auto simp: pack_step_def chunks_ok_def Let_def split: prod.splits)

section \<open>No text is lost\<close>

text \<open>What the splitters keep: the code points other than spaces, in order.\<close>

definition ink :: "pystr \<Rightarrow> pystr" where
  "ink s = filter (\<lambda>c. c \<noteq> 32) s"

definition ink_of :: "pystr list \<times> pystr \<Rightarrow> pystr" where
  "ink_of st = ink (concat (fst st) @ snd st)"

lemma ink_append [simp]: "ink (x @ y) = ink x @ ink y"
  by (simp add: ink_def)

lemma ink_Nil [simp]: "ink [] = []"
  by (simp add: ink_def)

lemma ink_space [simp]: "ink (32 # s) = ink s"
  by (simp add: ink_def)

lemma piece_step_ink: "ink_of (piece_step limit st ch) = ink_of st @ ink [ch]"
  by (auto simp: piece_step_def ink_of_def split: prod.splits)

lemma foldl_piece_ink: "ink_of (foldl (piece_step limit) st w) = ink_of st @ ink w"
proof (induction w arbitrary: st)
  case Nil
  then show ?case by simp
next
  case (Cons c w)
  then show ?case by (simp add: piece_step_ink) (simp add: ink_def)
qed

lemma word_step_ink: "ink_of (word_step limit st word) = ink_of st @ ink word"
proof -
  obtain chunks cur where st: "st = (chunks, cur)" by (cases st)
  show ?thesis
    by (auto simp: st word_step_def Let_def foldl_piece_ink) (auto simp: ink_of_def)
qed

lemma foldl_word_ink:
  "ink_of (foldl (word_step limit) st ws) = ink_of st @ ink (concat ws)"
  by (induction ws arbitrary: st) (simp_all add: word_step_ink)

lemma ink_join: "ink (concat ws) = ink (join [32] ws)"
  by (induction "[32 :: nat]" ws rule: join.induct) simp_all

lemma flush_ink: "ink (concat (flush st)) = ink_of st"
  by (auto simp: flush_def ink_of_def split: prod.splits)

lemma split_text_ink: "ink (concat (split_text text limit)) = ink text"
proof (cases "byte_len text \<le> limit")
  case True
  then show ?thesis by (simp add: split_text_def)
next
  case False
  have "ink (concat (split_text text limit)) = ink (join [32] (split_sub [32] text))"
    using False by (simp add: split_text_def flush_ink foldl_word_ink ink_join [symmetric])
      (simp add: ink_of_def)
  then show ?thesis by (simp add: join_split_sub)
qed

section \<open>Properties of the truncation loop\<close>

lemma truncate_step_shorter:
  assumes "byte_len s > MAX_MESSAGE_TEXT_BYTES"
  shows "length (truncate_step s) + 7 \<le> length s"
proof -
  from assms byte_len_le [of s] have l: "90 < length s"
    by (simp add: MAX_MESSAGE_TEXT_BYTES_def)
  have "length (str_rstrip (take (max 1 (length s - 8)) s)) \<le> length s - 8"
    using rstrip_by_length [of uspace "take (max 1 (length s - 8)) s"] l by (simp add: str_rstrip_def)
  with l show ?thesis by (simp add: truncate_step_def)
qed

lemma truncate_steps:
  "\<exists>n \<le> length s div 7. truncate_text s = (truncate_step ^^ n) s"
proof (induction s rule: truncate_text.induct)
  case (1 s)
  show ?case
  proof (cases "byte_len s > MAX_MESSAGE_TEXT_BYTES")
    case True
    from 1 [OF True] obtain n where n: "n \<le> length (truncate_step s) div 7"
      "truncate_text (truncate_step s) = (truncate_step ^^ n) (truncate_step s)"
      unfolding truncate_step_def [of s] by blast
    have "truncate_text s = truncate_text (truncate_step s)"
      using True by (simp add: truncate_text.simps [of s] truncate_step_def)
    then have "truncate_text s = (truncate_step ^^ Suc n) s"
      using n(2) by (simp add: funpow_swap1)
    moreover have "Suc n \<le> length s div 7"
    proof -
      have "Suc n \<le> Suc (length (truncate_step s) div 7)" using n(1) by simp
      also have "\<dots> = (length (truncate_step s) + 7) div 7" by simp
      also have "\<dots> \<le> length s div 7" by (rule div_le_mono [OF truncate_step_shorter [OF True]])
      finally show ?thesis .
    qed
    ultimately show ?thesis by blast
  next
    case False
    then have "truncate_text s = (truncate_step ^^ 0) s" by (simp add: truncate_text.simps [of s])
    then show ?thesis by blast
  qed
qed

lemma truncate_text_bound: "byte_len (truncate_text s) \<le> MAX_MESSAGE_TEXT_BYTES"
proof (induction s rule: truncate_text.induct)
  case (1 s)
  then show ?case
    by (cases "byte_len s > MAX_MESSAGE_TEXT_BYTES")
      (simp_all add: truncate_text.simps [of s])
qed

lemma truncate_text_short:
  "byte_len s \<le> MAX_MESSAGE_TEXT_BYTES \<Longrightarrow> truncate_text s = s"
  by (simp add: truncate_text.simps [of s])

lemma truncate_text_not_Nil: "s \<noteq> [] \<Longrightarrow> truncate_text s \<noteq> []"
proof (induction s rule: truncate_text.induct)
  case (1 s)
  then show ?case
    by (cases "byte_len s > MAX_MESSAGE_TEXT_BYTES")
      (simp_all add: truncate_text.simps [of s])
qed

end
