(* ===== verification/Bot_Project.thy ===== *)
theory Bot_Project
  imports Bot_Text
begin

text \<open>
  The watched projects of the announce bot and what it reads from their repositories
  (\<open>src/tools/announce_bot.py\<close>, lines 101 to 487). Programs the bot starts (\<open>git\<close>,
  \<open>bash\<close>), the clock and the file system are the record \<open>world\<close>, an argument of every
  operation that consults them: \<open>run_git\<close> and \<open>run_shell\<close> give \<open>None\<close> where
  \<open>subprocess.check_output\<close> raises. Times are integers in milliseconds.

  \<open>format_loc\<close> follows Python through the IEEE double it divides into: \<open>float_tenths\<close>
  rounds the quotient to 53 bits and then to one decimal, both to even.
  Decimal digits in program output are the ASCII ones.
\<close>

record world =
  run_git :: "pystr \<Rightarrow> pystr list \<Rightarrow> pystr option"
  run_shell :: "pystr \<Rightarrow> nat \<Rightarrow> pystr option"
  isdir :: "pystr \<Rightarrow> bool"
  now :: int
  started_at :: int
  strftime_now :: pystr

text \<open>\<open>int(seconds)\<close> of a time difference in milliseconds: truncation towards zero.\<close>

definition int_secs :: "int \<Rightarrow> int" where
  "int_secs ms = (if ms < 0 then - ((- ms) div 1000) else ms div 1000)"

section \<open>Environment\<close>

definition env_get :: "(pystr \<rightharpoonup> pystr) \<Rightarrow> pystr \<Rightarrow> pystr \<Rightarrow> pystr \<Rightarrow> pystr" where
  "env_get environ new old dflt =
     (case environ new of Some v \<Rightarrow> v
      | None \<Rightarrow> (case environ old of Some v \<Rightarrow> v | None \<Rightarrow> dflt))"

section \<open>Shell commands\<close>

definition shell_safe :: "nat \<Rightarrow> bool" where
  "shell_safe c =
     (48 \<le> c \<and> c \<le> 57 \<or> 65 \<le> c \<and> c \<le> 90 \<or> 97 \<le> c \<and> c \<le> 122 \<or> c \<in> set (u ''_@%+=:,./-''))"

definition shlex_quote :: "pystr \<Rightarrow> pystr" where
  "shlex_quote s =
     (if s = [] then [39, 39]
      else if list_all shell_safe s then s
      else [39] @ concat (map (\<lambda>c. if c = 39 then [39, 34, 39, 34, 39] else [c]) s) @ [39])"

definition prune_dirs :: pystr where
  "prune_dirs =
     u '' -type d '' @ [92] @ u ''( -name node_modules -o -name .next -o -name out '' @
     u ''-o -name dist -o -name .git -o -name .wt -o -name .claude -o -name coverage '' @
     [92] @ u '') ''"

definition sq :: "pystr \<Rightarrow> pystr" where
  "sq s = [39] @ s @ [39]"

definition quoted_find_tsx :: "pystr \<Rightarrow> pystr" where
  "quoted_find_tsx repo =
     u ''find '' @ shlex_quote repo @ prune_dirs @
     u ''-prune -o -type f -name '' @ sq (u ''*.tsx'') @ u '' -print | wc -l''"

definition quoted_loc_ts :: "pystr \<Rightarrow> pystr" where
  "quoted_loc_ts repo =
     u ''find '' @ shlex_quote repo @ prune_dirs @
     u ''-prune -o -type f '' @ [92] @ u ''( -name '' @ sq (u ''*.ts'') @ u '' -o -name '' @
     sq (u ''*.tsx'') @ u '' '' @ [92] @ u '') -print0 | '' @
     u ''xargs -0 -r cat 2>/dev/null | wc -l''"

definition quoted_test_files_ts :: "pystr \<Rightarrow> pystr" where
  "quoted_test_files_ts repo =
     u ''find '' @ shlex_quote repo @ prune_dirs @
     u ''-prune -o -type f '' @ [92] @ u ''( -name '' @ sq (u ''*.test.ts'') @ u '' -o -name '' @
     sq (u ''*.test.tsx'') @ u '' '' @ u ''-o -name '' @ sq (u ''*.spec.ts'') @ u '' -o -name '' @
     sq (u ''*.spec.tsx'') @ u '' '' @ [92] @ u '') -print | wc -l''"

definition quoted_test_blocks_zig :: "pystr \<Rightarrow> pystr" where
  "quoted_test_blocks_zig repo =
     u ''find '' @ shlex_quote repo @ u ''/src -type f -name '' @ sq (u ''*.zig'') @ u '' -exec '' @
     u ''grep -hE '' @ sq (u ''^[[:space:]]*test[[:space:]]+'' @ [34]) @
     u '' {} + 2>/dev/null | wc -l''"

definition quoted_find_zig :: "pystr \<Rightarrow> pystr" where
  "quoted_find_zig repo =
     u ''find '' @ shlex_quote repo @ u ''/src -name '' @ sq (u ''*.zig'') @ u '' ! -name '' @
     sq (u ''root.zig'') @ u '' | wc -l''"

definition quoted_loc_zig :: "pystr \<Rightarrow> pystr" where
  "quoted_loc_zig repo =
     u ''find '' @ shlex_quote repo @ u ''/src -name '' @ sq (u ''*.zig'') @ u '' ! -name '' @
     sq (u ''root.zig'') @ u '' -exec cat {} + | wc -l''"

section \<open>Projects\<close>

record project =
  p_key :: pystr
  p_name :: pystr
  p_emoji :: pystr
  p_accent :: pystr
  p_repo :: pystr
  p_module_label :: pystr
  p_module_cmd :: pystr
  p_loc_cmd :: pystr
  p_test_cmd :: pystr
  p_test_label :: pystr
  p_stats_suffix :: pystr
  p_topic_label :: pystr
  p_user_realname :: pystr
  p_project_lines :: "pystr list"
  p_roadmap :: "pystr list"
  p_progress_text :: pystr

definition ONYX_REPO :: pystr where
  "ONYX_REPO = u ''/home/kain/onyx''"

definition ONYX_SERVER_REPO :: pystr where
  "ONYX_SERVER_REPO = u ''/home/kain/onyx-server''"

definition ONYX :: project where
  \<open>ONYX = \<lparr>
   p_key = u ''onyx'',
   p_name = u ''Onyx'',
   p_emoji = [0x1F48E],
   p_accent = BLUE,
   p_repo = ONYX_REPO,
   p_module_label = u ''components'',
   p_module_cmd = quoted_find_tsx ONYX_REPO,
   p_loc_cmd = quoted_loc_ts ONYX_REPO,
   p_test_cmd = quoted_test_files_ts ONYX_REPO,
   p_test_label = u ''test files'',
   p_stats_suffix = u ''Solid+Vite'',
   p_topic_label = u ''Onyx'',
   p_user_realname = u ''Onyx build announcer'',
   p_project_lines = [
     mB @ BLUE @ [0x1F48E] @ u '' Onyx'' @ RST @ u '' '' @ [0x2014] @
       u '' first-party web client for the Onyx network. SolidJS, dark-luxury, '' @
       u ''mesh-native chat + realtime media (Vite + Solid signals).'',
     u ''IRCv3/IRCX over WebSocket, SASL + SESSION-TOKEN resume, local-first '' @
       u ''vault, Home catch-up, E2EE DMs, Cadence voice/video (hop-honest; no '' @
       u ''fake padlock).'',
     u ''Headline: deep theming + '' @ mB @ u ''Theme Studio'' @ RST @
       u '' + animated backgrounds '' @ [0xB7] @ u '' View Transitions '' @ [0xB7] @
       u '' on-device hybrid search '' @ [0xB7] @ u '' time-native jump.'',
     u ''Built max-parallel (Claude + Codex). repo: '' @ ONYX_REPO],
   p_roadmap = [
     u ''Era 0 substrate '' @ [0x2714] @ u '' '' @ [0xB7] @ u '' vault '' @ [0xB7] @
       u '' push '' @ [0xB7] @ u '' E2EE DM '' @ [0xB7] @ u '' Cadence control plane'',
     u ''Era 1 thesis-visible: Home strata '' @ [0xB7] @ u '' jump-to-date '' @
       [0xB7] @ u '' passkey primary '' @ [0xB7] @ u '' ribbon More'',
     u ''Era 2 app-complete: multi-device session '' @ [0xB7] @
       u '' full MEDIA UI '' @ [0xB7] @ u '' channel admin'',
     u ''Era 3 moat: group E2EE '' @ [0xB7] @ u '' files '' @ [0xB7] @
       u '' mention push '' @ [0xB7] @ u '' hierarchy''],
   p_progress_text = mB @ u ''live'' @ RST @ u '': vault + Home '' @ [0xB7] @ u '' passkeys '' @
       [0xB7] @ u '' labeled-response '' @ [0xB7] @ u '' Cadence shield '' @ [0xB7] @
       u '' ribbon More. static test inventory={tests}, components={modules}. '' @
       u ''Next: cold vault paint polish, A10 binary release, Era 2 multi-device.''\<rparr>\<close>

definition ONYX_SERVER :: project where
  \<open>ONYX_SERVER = \<lparr>
   p_key = u ''onyx-server'',
   p_name = u ''Onyx Server'',
   p_emoji = [0x1F409],
   p_accent = MAG,
   p_repo = ONYX_SERVER_REPO,
   p_module_label = u ''modules'',
   p_module_cmd = quoted_find_zig ONYX_SERVER_REPO,
   p_loc_cmd = quoted_loc_zig ONYX_SERVER_REPO,
   p_test_cmd = quoted_test_blocks_zig ONYX_SERVER_REPO,
   p_test_label = u ''test blocks'',
   p_stats_suffix = u ''zig 0.17'',
   p_topic_label = u ''Onyx Server'',
   p_user_realname = u ''Onyx Server build announcer'',
   p_project_lines = [
     mB @ MAG @ [0x1F409] @ u '' Onyx Server'' @ RST @ u '' '' @ [0x2014] @
       u '' pure-Zig IRC/IRCX daemon (AGPL). Formerly codenamed Orochi; same '' @
       u ''engine, honest name.'',
     u ''IRCv3/IRCX + accounts/SASL, multi-session bouncer, Event Spine, and '' @
       u ''Cadence media conferencing (rooms, roster, hop-secured SFU path).'',
     u ''Mesh = Undertow CRDT over Mooring secure S2S, Warden anti-abuse, MEMO '' @
       u ''offline mail / Web Push. One static musl binary, zero external deps.'',
     u ''Built max-parallel (Claude + Codex). repo: '' @ ONYX_SERVER_REPO],
   p_roadmap = [
     u ''core '' @ [0x2714] @ u '' '' @ [0xB7] @ u '' IRCv3/IRCX '' @ [0x2714] @
       u '' '' @ [0xB7] @ u '' accounts/SASL '' @ [0x2714] @ u '' '' @ [0xB7] @
       u '' multi-session bouncer '' @ [0x2714] @ u '' '' @ [0xB7] @
       u '' host-cloak/VHOST/CHGHOST '' @ [0x2714],
     u ''Warden + flood/clone '' @ [0x2714] @ u '' '' @ [0xB7] @ u '' media plane '' @
       [0x2714] @ u '' '' @ [0xB7] @ u '' MEMO/Web Push '' @ [0x2714] @ u '' '' @
       [0xB7] @ u '' Helix USR2 '' @ [0x2714],
     u ''mesh: Undertow CRDT + Mooring S2S + anti-entropy'',
     u ''next: public GitHub Release binary (A10) '' @ [0xB7] @
       u '' operator packaging polish''],
   p_progress_text = mB @ u ''live'' @ RST @ u '': accounts/SASL '' @ [0xB7] @ u '' multi-session '' @
       [0xB7] @ u '' media plane '' @ [0xB7] @
       u '' mesh + Helix. static test inventory={tests}, modules={modules}. '' @
       u ''Next: attested release artifact, deeper services.''\<rparr>\<close>

definition PROJECTS :: "project list" where
  "PROJECTS = [ONYX, ONYX_SERVER]"

definition alias_entries :: "(pystr \<times> project) list" where
  "alias_entries =
     concat (map (\<lambda>p. [(p_key p, p), (str_lower (p_name p), p)]) PROJECTS) @
     [(u ''orochi'', ONYX_SERVER), (u ''server'', ONYX_SERVER), (u ''daemon'', ONYX_SERVER),
      (u ''onyxserver'', ONYX_SERVER)]"

text \<open>The dictionary: later assignments win, so the entries are read from the last one.\<close>

definition PROJECTS_BY_ALIAS :: "pystr \<rightharpoonup> project" where
  "PROJECTS_BY_ALIAS = map_of (rev alias_entries)"

definition select_projects :: "pystr \<Rightarrow> project list option" where
  "select_projects arg =
     (let token = str_lower (str_strip arg) in
      if token = [] then Some PROJECTS
      else (case PROJECTS_BY_ALIAS token of Some p \<Rightarrow> Some [p] | None \<Rightarrow> None))"

section \<open>Repository queries\<close>

definition git :: "world \<Rightarrow> project \<Rightarrow> pystr list \<Rightarrow> pystr" where
  "git w p args =
     (case run_git w (p_repo p) args of Some out \<Rightarrow> str_strip out | None \<Rightarrow> [])"

definition or_else :: "pystr \<Rightarrow> pystr \<Rightarrow> pystr" where
  "or_else s d = (if s = [] then d else s)"

definition shell_count :: "world \<Rightarrow> pystr \<Rightarrow> nat \<Rightarrow> pystr" where
  "shell_count w cmd timeout =
     (case run_shell w cmd timeout of Some out \<Rightarrow> or_else (str_strip out) (u ''?'')
      | None \<Rightarrow> u ''?'')"

text \<open>Division into a double and formatting with one decimal, both rounding half to even.\<close>

definition float_tenths :: "nat \<Rightarrow> nat \<Rightarrow> nat" where
  "float_tenths n d =
     (let l = floor_log2 (n div d) in
      if l \<le> 52
      then round_div (10 * round_div (n * 2 ^ (52 - l)) d) (2 ^ (52 - l))
      else 10 * round_div n (d * 2 ^ (l - 52)) * 2 ^ (l - 52))"

definition format_loc :: "pystr \<Rightarrow> pystr" where
  "format_loc value =
     (case str_int value of
        None \<Rightarrow> value
      | Some n \<Rightarrow>
          if n \<ge> 1000
          then (let t = float_tenths (nat n) 1000
                in str_nat (t div 10) @ [46] @ str_nat (t mod 10) @ [107])
          else str_of_int n)"

record build_inventory =
  i_modules :: pystr
  i_test_blocks :: pystr
  i_loc :: pystr
  i_commits :: pystr
  i_head :: pystr
  i_dirty :: bool
  i_measured_at :: int

definition BuildInventory :: build_inventory where
  "BuildInventory = \<lparr> i_modules = u ''pending'', i_test_blocks = u ''pending'',
     i_loc = u ''pending'', i_commits = u ''?'', i_head = [], i_dirty = False,
     i_measured_at = 0 \<rparr>"

definition collect_inventory :: "world \<Rightarrow> project \<Rightarrow> build_inventory" where
  "collect_inventory w p =
     \<lparr> i_modules = shell_count w (p_module_cmd p) 8000,
       i_test_blocks = shell_count w (p_test_cmd p) 8000,
       i_loc = format_loc (shell_count w (p_loc_cmd p) 8000),
       i_commits = or_else (git w p [u ''rev-list'', u ''--count'', u ''HEAD'']) (u ''?''),
       i_head = git w p [u ''rev-parse'', u ''HEAD''],
       i_dirty = (git w p [u ''status'', u ''--porcelain=v1''] \<noteq> []),
       i_measured_at = now w \<rparr>"

section \<open>Text built from a project and the inventory\<close>

text \<open>The cache read by \<open>INVENTORY.get\<close>, as the items it holds.\<close>

type_synonym items = "pystr \<rightharpoonup> build_inventory"

definition inventory_get :: "items \<Rightarrow> project \<Rightarrow> build_inventory" where
  "inventory_get m p = (case m (p_key p) of Some i \<Rightarrow> i | None \<Rightarrow> BuildInventory)"

definition module_count :: "items \<Rightarrow> project \<Rightarrow> pystr" where
  "module_count m p = i_modules (inventory_get m p)"

definition loc_count :: "items \<Rightarrow> project \<Rightarrow> pystr" where
  "loc_count m p = i_loc (inventory_get m p)"

definition test_count :: "items \<Rightarrow> project \<Rightarrow> pystr" where
  "test_count m p = i_test_blocks (inventory_get m p)"

definition inventory_status :: "world \<Rightarrow> items \<Rightarrow> project \<Rightarrow> pystr" where
  "inventory_status w m p =
     (let item = inventory_get m p in
      if i_measured_at item = 0 then u ''inventory pending''
      else if i_head item \<noteq> git w p [u ''rev-parse'', u ''HEAD''] then u ''inventory refreshing''
      else (let age = max 0 (int_secs (now w - i_measured_at item));
                state = (if i_dirty item then u ''dirty'' else u ''clean'')
            in state @ u '', measured '' @ str_of_int age @ u ''s ago''))"

definition inventory_label :: "world \<Rightarrow> items \<Rightarrow> project \<Rightarrow> pystr" where
  "inventory_label w m p =
     (if inventory_status w m p \<in> {u ''inventory pending'', u ''inventory refreshing''}
      then u ''inventory updating''
      else test_count m p @ [32] @ p_test_label p)"

definition head_line :: "world \<Rightarrow> project \<Rightarrow> pystr" where
  "head_line w p = git w p [u ''log'', u ''-1'', u ''--format=%h %s'']"

definition changed_files :: "world \<Rightarrow> project \<Rightarrow> pystr \<Rightarrow> pystr list" where
  "changed_files w p rv =
     take 8 (filter (\<lambda>l. l \<noteq> [])
       (map str_strip (str_splitlines (git w p [u ''show'', u ''--stat'', u ''--format='', rv]))))"

text \<open>\<open>re.search(r"(\d+)TAIL", out).group(1)\<close> for a tail that starts with a space.\<close>

fun search_count :: "(pystr \<Rightarrow> bool) \<Rightarrow> pystr \<Rightarrow> pystr option" where
  "search_count tail [] = None"
| "search_count tail (c # s) =
     (if udigit c \<noteq> None \<and> tail (dropWhile (\<lambda>d. udigit d \<noteq> None) (c # s))
      then Some (takeWhile (\<lambda>d. udigit d \<noteq> None) (c # s))
      else search_count tail s)"

definition commit_stat :: "world \<Rightarrow> project \<Rightarrow> pystr \<Rightarrow> pystr" where
  "commit_stat w p rv =
     (let out = git w p [u ''show'', u ''--shortstat'', u ''--format='', rv];
          files = search_count (\<lambda>r. startswith r (u '' file changed'')
                                  \<or> startswith r (u '' files changed'')) out;
          ins = search_count (\<lambda>r. startswith r (u '' insertion'')) out;
          dele = search_count (\<lambda>r. startswith r (u '' deletion'')) out;
          parts =
            (case files of None \<Rightarrow> []
             | Some n \<Rightarrow> [SILVER @ n @ RST @ u '' file'' @ (if n = u ''1'' then [] else u ''s'')]) @
            (case ins of None \<Rightarrow> [] | Some n \<Rightarrow> [mB @ GREEN @ u ''+'' @ n @ RST]) @
            (case dele of None \<Rightarrow> [] | Some n \<Rightarrow> [mB @ RED @ u ''-'' @ n @ RST])
      in if parts \<noteq> [] then join [32] parts else u ''no file changes'')"

definition commit_field :: "world \<Rightarrow> project \<Rightarrow> pystr \<Rightarrow> pystr \<Rightarrow> pystr" where
  "commit_field w p fmt rv = git w p [u ''log'', u ''-1'', u ''--format='' @ fmt, rv]"

definition ulower :: "nat \<Rightarrow> bool" where
  "ulower c = (97 \<le> c \<and> c \<le> 122)"

text \<open>\<open>(?:\([^)]*\))?!?:\<close> at the start of the text: the scope if any, and the rest.\<close>

definition conv_bang :: "pystr \<Rightarrow> pystr option" where
  "conv_bang r =
     (let r' = (case r of c # t \<Rightarrow> if c = 33 then t else r | [] \<Rightarrow> []) in
      case r' of c # t \<Rightarrow> if c = 58 then Some t else None | [] \<Rightarrow> None)"

definition conv_tail :: "pystr \<Rightarrow> (pystr option \<times> pystr) option" where
  "conv_tail r =
     (case r of
        c # t \<Rightarrow>
          if c = 40 \<and> 41 \<in> set t
          then map_option (Pair (Some (takeWhile (\<lambda>d. d \<noteq> 41) t)))
                 (conv_bang (tl (dropWhile (\<lambda>d. d \<noteq> 41) t)))
          else map_option (Pair None) (conv_bang r)
      | [] \<Rightarrow> None)"

definition commit_type :: "pystr \<Rightarrow> pystr" where
  "commit_type subject =
     (let t = takeWhile ulower subject in
      if t \<noteq> [] \<and> conv_tail (dropWhile ulower subject) \<noteq> None then t else [])"

text \<open>\<open>re.sub(r"^[a-z]+(?:\([^)]*\))?!?:\s*", "", subj) if typ else subj\<close>\<close>

definition commit_clean :: "pystr \<Rightarrow> pystr" where
  "commit_clean subject =
     (if commit_type subject = [] then subject
      else case conv_tail (dropWhile ulower subject) of
             Some (_, rest) \<Rightarrow> dropWhile uspace rest | None \<Rightarrow> subject)"

text \<open>\<open>re.match(r"^[a-z]+\(([^)]+)\)!?:", subj)\<close>\<close>

definition commit_scope :: "pystr \<Rightarrow> pystr" where
  "commit_scope subject =
     (if takeWhile ulower subject = [] then []
      else case conv_tail (dropWhile ulower subject) of
             Some (Some sc, _) \<Rightarrow> sc | _ \<Rightarrow> [])"

definition uptime :: "world \<Rightarrow> pystr" where
  "uptime w =
     (let s0 = int_secs (now w - started_at w);
          d = s0 div 86400; s1 = s0 mod 86400;
          h = s1 div 3600; s2 = s1 mod 3600;
          m = s2 div 60; s = s2 mod 60
      in (if d \<noteq> 0 then str_of_int d @ u ''d '' else []) @
         str_of_int h @ u ''h '' @ str_of_int m @ u ''m '' @ str_of_int s @ u ''s'')"

definition dash_spaces :: "pystr \<Rightarrow> pystr" where
  "dash_spaces s = map (\<lambda>c. if c = 32 then 45 else c) s"

definition stats_lines :: "world \<Rightarrow> items \<Rightarrow> project \<Rightarrow> pystr list" where
  "stats_lines w m p =
     (let item = inventory_get m p in
      [mB @ CYAN @ u ''['' @ p_key p @ u '']'' @ RST @ u '' build :: '' @ p_module_label p @ u ''='' @
       GREEN @ i_modules item @ RST @ u '' '' @ dash_spaces (p_test_label p) @ u ''='' @ GREEN @
       i_test_blocks item @ RST @ u '' '' @
       u ''loc='' @ GREEN @ i_loc item @ RST @ u '' commits='' @ GREEN @ i_commits item @ RST @
       u '' '' @ p_stats_suffix p,
       GREY @ u ''['' @ p_key p @ u ''] HEAD'' @ RST @ u '' '' @ head_line w p @ u '' '' @ GREY @
       u ''('' @ commit_stat w p (u ''HEAD'') @ u ''; '' @ inventory_status w m p @ u '')'' @ RST])"

definition project_lines :: "project \<Rightarrow> pystr list" where
  "project_lines p = p_project_lines p"

definition HELP :: "pystr \<Rightarrow> pystr" where
  "HELP admin =
     u ''commands: !project !stats !tests !modules/!components !commit !changelog !diff '' @
     u ''!progress !plan !uptime !version !ping !help  (each accepts an optional '' @
     u ''onyx/onyx-server project name, e.g. !stats onyx-server; omit for both)'' @
     (if admin \<noteq> [] then u ''  | admin: !say !announce !topic !raw'' else [])"

text \<open>\<open>progress_text.format(tests=..., modules=...)\<close>: one pass over the two fields.\<close>

fun fill_fields :: "pystr \<Rightarrow> pystr \<Rightarrow> pystr \<Rightarrow> pystr" where
  "fill_fields tests modules [] = []"
| "fill_fields tests modules (c # s) =
     (if startswith (c # s) (u ''{tests}'') then tests @ fill_fields tests modules (drop 6 s)
      else if startswith (c # s) (u ''{modules}'') then modules @ fill_fields tests modules (drop 8 s)
      else c # fill_fields tests modules s)"

end
