(* ===== verification/Machines.thy ===== *)
theory Machines
  imports Prelude
begin

text \<open>
  Interfaces that several components implement.

  \<^item> \<open>invariant_machine\<close>: a step relation with an invariant its steps keep; the invariant
    then holds along every run. The inventory cache and the announce bot provide it.
  \<^item> \<open>event_machine\<close>: the deterministic case, a partial step function driven by events
    (\<open>None\<close> where the code raises), run over a list of events.
  \<^item> \<open>stream_framer\<close>: a receiver that is fed chunks of a byte stream and hands out complete
    units; its laws make the units independent of how the stream is cut into chunks.
    The read loop of the announce bot, which the chat client of the mesh smoke test shares,
    and the line framer of the benchmark provide it.
\<close>

locale invariant_machine =
  fixes step :: "'s \<Rightarrow> 's \<Rightarrow> bool"
    and inv :: "'s \<Rightarrow> bool"
  assumes step_inv: "inv s \<Longrightarrow> step s t \<Longrightarrow> inv t"
begin

lemma run_inv: "step\<^sup>*\<^sup>* s t \<Longrightarrow> inv s \<Longrightarrow> inv t"
  by (induction rule: rtranclp_induct) (auto intro: step_inv)

end

fun run_events :: "('s \<Rightarrow> 'e \<Rightarrow> 's option) \<Rightarrow> 's \<Rightarrow> 'e list \<Rightarrow> 's option" where
  "run_events f s [] = Some s"
| "run_events f s (e # es) = (case f s e of None \<Rightarrow> None | Some t \<Rightarrow> run_events f t es)"

locale event_machine =
  fixes ev :: "'s \<Rightarrow> 'e \<Rightarrow> 's option"
    and good :: "'s \<Rightarrow> bool"
  assumes ev_good: "good s \<Longrightarrow> ev s e = Some t \<Longrightarrow> good t"
begin

lemma run_good: "good s \<Longrightarrow> run_events ev s es = Some t \<Longrightarrow> good t"
  by (induction es arbitrary: s) (auto split: option.splits intro: ev_good)

lemma run_append:
  "run_events ev s (xs @ ys) =
     (case run_events ev s xs of None \<Rightarrow> None | Some t \<Rightarrow> run_events ev t ys)"
  by (induction xs arbitrary: s) (auto split: option.splits)

end

fun feed_all :: "('b \<Rightarrow> 'c list \<Rightarrow> 'b \<times> 'l list) \<Rightarrow> 'b \<Rightarrow> 'c list list \<Rightarrow> 'b \<times> 'l list" where
  "feed_all feed b [] = (b, [])"
| "feed_all feed b (x # xs) =
     (let (b', ls) = feed b x; (b'', ls') = feed_all feed b' xs in (b'', ls @ ls'))"

locale stream_framer =
  fixes feed :: "'b \<Rightarrow> 'c list \<Rightarrow> 'b \<times> 'l list"
    and rest :: "'b \<Rightarrow> bool"
  assumes feed_empty: "rest b \<Longrightarrow> feed b [] = (b, [])"
    and feed_append: "rest b \<Longrightarrow>
      feed b (x @ y) = (let (b', ls) = feed b x; (b'', ls') = feed b' y in (b'', ls @ ls'))"
    and feed_rest: "rest b \<Longrightarrow> rest (fst (feed b x))"
begin

lemma feed_all_concat: "rest b \<Longrightarrow> feed_all feed b xs = feed b (concat xs)"
proof (induction xs arbitrary: b)
  case Nil
  then show ?case by (simp add: feed_empty)
next
  case (Cons x xs)
  then show ?case
    using feed_rest [of b x] by (auto simp: feed_append Let_def split: prod.splits)
qed

lemma chunking_irrelevant:
  "rest b \<Longrightarrow> concat xs = concat ys \<Longrightarrow> feed_all feed b xs = feed_all feed b ys"
  by (simp add: feed_all_concat)

end

text \<open>The framing loop itself: carry over what follows the last separator.\<close>

definition frame :: "'c list \<Rightarrow> 'c list \<Rightarrow> 'c list \<Rightarrow> 'c list \<times> 'c list list" where
  "frame sep b x = (let ps = split_sub sep (b @ x) in (last ps, butlast ps))"

lemma frame_laws:
  assumes "sep \<noteq> []"
  shows "\<not> contains_sub b sep \<Longrightarrow> frame sep b [] = (b, [])"
    and "frame sep b (x @ y) =
      (let (b', ls) = frame sep b x; (b'', ls') = frame sep b' y in (b'', ls @ ls'))"
    and "\<not> contains_sub (fst (frame sep b x)) sep"
proof -
  show "\<not> contains_sub b sep \<Longrightarrow> frame sep b [] = (b, [])"
    by (simp add: frame_def contains_sub_def split_sub_None)
  have s: "split_sub sep ((b @ x) @ y) =
      butlast (split_sub sep (b @ x)) @ split_sub sep (last (split_sub sep (b @ x)) @ y)"
    by (rule split_sub_append [OF assms])
  then show "frame sep b (x @ y) =
      (let (b', ls) = frame sep b x; (b'', ls') = frame sep b' y in (b'', ls @ ls'))"
    by (simp add: frame_def Let_def butlast_append)
  show "\<not> contains_sub (fst (frame sep b x)) sep"
    by (simp add: frame_def Let_def last_split_sub_no_sep [OF assms])
qed

end
