(* ===== verification/Bot_Inventory.thy ===== *)
theory Bot_Inventory
  imports Bot_Project Machines "HOL-Library.Multiset"
begin

text \<open>
  \<open>InventoryCache\<close> of \<open>src/tools/announce_bot.py\<close>: the cache the IRC loop reads and one
  worker thread refreshes. The record holds the dictionary \<open>_items\<close>, the set \<open>_queued\<close>, the
  queue \<open>_requests\<close> and the flag \<open>_started\<close>, and, for the interleavings, the keys that
  callers have marked under the lock and not yet put (\<open>c_putting\<close>) and the key the worker
  is measuring (\<open>c_worker\<close>).

  \<open>cache_step\<close> is one atomic action of one thread: a caller's locked section, its
  \<open>Queue.put\<close>, the worker's \<open>Queue.get\<close>, and the worker's locked publication. Its
  invariant says that every marked key is in exactly one of the three places.
\<close>

record cache =
  c_projects :: "project list"
  c_items :: items
  c_queued :: "pystr set"
  c_requests :: "pystr list"
  c_started :: bool
  c_putting :: "pystr list"
  c_worker :: "pystr option"

definition cache_init :: "project list \<Rightarrow> cache" where
  "cache_init ps = \<lparr> c_projects = ps, c_items = Map.empty, c_queued = {}, c_requests = [],
     c_started = False, c_putting = [], c_worker = None \<rparr>"

definition project_keys :: "cache \<Rightarrow> pystr set" where
  "project_keys c = p_key ` set (c_projects c)"

section \<open>Operations\<close>

text \<open>\<open>request\<close>: the locked section, then the put.\<close>

definition request_lock :: "cache \<Rightarrow> pystr \<Rightarrow> cache" where
  "request_lock c k =
     (if k \<in> c_queued c then c
      else c\<lparr>c_queued := insert k (c_queued c), c_putting := c_putting c @ [k]\<rparr>)"

definition request_put :: "cache \<Rightarrow> pystr \<Rightarrow> cache" where
  "request_put c k =
     c\<lparr>c_putting := remove1 k (c_putting c), c_requests := c_requests c @ [k]\<rparr>"

definition request :: "cache \<Rightarrow> project \<Rightarrow> cache" where
  "request c p =
     (if p_key p \<in> c_queued c then c else request_put (request_lock c (p_key p)) (p_key p))"

definition request_all :: "cache \<Rightarrow> cache" where
  "request_all c = foldl request c (c_projects c)"

definition start :: "cache \<Rightarrow> cache" where
  "start c = (if c_started c then c else request_all (c\<lparr>c_started := True\<rparr>))"

definition cache_get :: "cache \<Rightarrow> project \<Rightarrow> build_inventory" where
  "cache_get c p = inventory_get (c_items c) p"

text \<open>
  \<open>_worker\<close>: one turn of the loop. An empty queue for 60 seconds refreshes every project;
  otherwise the key is looked up (a missing key ends the thread: \<open>None\<close>), measured and
  published. \<open>collect\<close> gives \<open>None\<close> where \<open>collect_inventory\<close> raises.
\<close>

definition worker_take :: "cache \<Rightarrow> cache" where
  "worker_take c =
     (case c_requests c of [] \<Rightarrow> c
      | k # ks \<Rightarrow> c\<lparr>c_requests := ks, c_worker := Some k\<rparr>)"

definition worker_publish :: "(project \<Rightarrow> build_inventory option) \<Rightarrow> cache \<Rightarrow> pystr \<Rightarrow> cache option" where
  "worker_publish collect c k =
     (case find (\<lambda>p. p_key p = k) (c_projects c) of
        None \<Rightarrow> None
      | Some p \<Rightarrow>
          let item = (case collect p of Some i \<Rightarrow> i | None \<Rightarrow> BuildInventory) in
          Some (c\<lparr>c_items := (c_items c)(k \<mapsto> item), c_queued := c_queued c - {k},
                  c_worker := None\<rparr>))"

definition worker_turn :: "(project \<Rightarrow> build_inventory option) \<Rightarrow> cache \<Rightarrow> cache option" where
  "worker_turn collect c =
     (case c_requests c of
        [] \<Rightarrow> Some (request_all c)
      | k # ks \<Rightarrow> worker_publish collect (worker_take c) k)"

section \<open>Interleaved threads\<close>

inductive cache_step :: "(project \<Rightarrow> build_inventory option) \<Rightarrow> cache \<Rightarrow> cache \<Rightarrow> bool"
  for collect where
  lock: "p \<in> set (c_projects c) \<Longrightarrow> cache_step collect c (request_lock c (p_key p))"
| put: "k \<in> set (c_putting c) \<Longrightarrow> cache_step collect c (request_put c k)"
| take: "c_worker c = None \<Longrightarrow> c_requests c \<noteq> [] \<Longrightarrow> cache_step collect c (worker_take c)"
| publish: "c_worker c = Some k \<Longrightarrow> worker_publish collect c k = Some c' \<Longrightarrow>
    cache_step collect c c'"

inductive_cases cache_stepE: "cache_step collect c c'"

text \<open>Where a marked key is: waiting to be put, in the queue, or being measured.\<close>

definition in_flight :: "cache \<Rightarrow> pystr multiset" where
  "in_flight c = mset (c_putting c) + mset (c_requests c) +
     (case c_worker c of None \<Rightarrow> {#} | Some k \<Rightarrow> {#k#})"

definition cache_inv :: "cache \<Rightarrow> bool" where
  "cache_inv c =
     (finite (c_queued c) \<and> in_flight c = mset_set (c_queued c) \<and>
      c_queued c \<subseteq> project_keys c)"

lemma cache_init_inv: "cache_inv (cache_init ps)"
  by (simp add: cache_inv_def cache_init_def in_flight_def)

lemma request_lock_inv:
  "cache_inv c \<Longrightarrow> p \<in> set (c_projects c) \<Longrightarrow> cache_inv (request_lock c (p_key p))"
  by (auto simp: cache_inv_def request_lock_def in_flight_def project_keys_def)

lemma request_put_inv:
  assumes "cache_inv c" "k \<in> set (c_putting c)"
  shows "cache_inv (request_put c k)"
proof -
  have "add_mset k (mset (c_putting c) - {#k#}) + mset (c_requests c) =
      mset (c_putting c) + mset (c_requests c)"
    using assms(2) by (simp only: insert_DiffM set_mset_mset)
  then have "in_flight (request_put c k) = in_flight c"
    by (simp add: in_flight_def request_put_def split: option.split)
  then show ?thesis
    using assms(1) by (simp add: cache_inv_def request_put_def project_keys_def)
qed

lemma worker_take_inv:
  "cache_inv c \<Longrightarrow> c_worker c = None \<Longrightarrow> c_requests c \<noteq> [] \<Longrightarrow> cache_inv (worker_take c)"
  by (cases "c_requests c")
    (auto simp: cache_inv_def worker_take_def in_flight_def project_keys_def)

lemma worker_publish_inv:
  assumes "cache_inv c" "c_worker c = Some k" "worker_publish collect c k = Some c'"
  shows "cache_inv c'"
proof -
  from assms(3) obtain item where c': "c' = c\<lparr>c_items := (c_items c)(k \<mapsto> item),
      c_queued := c_queued c - {k}, c_worker := None\<rparr>"
    by (auto simp: worker_publish_def Let_def split: option.splits)
  have fin: "finite (c_queued c)"
    and eq: "mset (c_putting c) + mset (c_requests c) + {#k#} = mset_set (c_queued c)"
    using assms(1,2) by (auto simp: cache_inv_def in_flight_def)
  have "k \<in># mset_set (c_queued c)" by (simp flip: eq)
  then have "k \<in> c_queued c" using fin by simp
  then have "mset (c_putting c) + mset (c_requests c) = mset_set (c_queued c - {k})"
    using fin eq by (simp add: mset_set.remove)
  then show ?thesis
    using assms(1) c' by (auto simp: cache_inv_def in_flight_def project_keys_def)
qed

interpretation inventory_cache: invariant_machine "cache_step collect" cache_inv
proof
  fix c c'
  assume "cache_inv c" "cache_step collect c c'"
  then show "cache_inv c'"
    by (auto elim!: cache_stepE intro: request_lock_inv request_put_inv worker_take_inv
        worker_publish_inv)
qed

lemma cache_inv_distinct: "cache_inv c \<Longrightarrow> count (in_flight c) k \<le> 1"
  by (simp add: cache_inv_def count_mset_set')

lemma cache_inv_queued: "cache_inv c \<Longrightarrow> k \<in> c_queued c \<longleftrightarrow> k \<in># in_flight c"
  by (simp add: cache_inv_def)

lemma worker_publish_total:
  "k \<in> project_keys c \<Longrightarrow> \<exists>c'. worker_publish collect c k = Some c'"
  by (auto simp: worker_publish_def project_keys_def find_None_iff image_iff Let_def
      split: option.splits)

section \<open>The sequential operations keep the invariant\<close>

definition quiet :: "cache \<Rightarrow> bool" where
  "quiet c = (cache_inv c \<and> c_putting c = [] \<and> c_worker c = None)"

lemma request_quiet:
  assumes "quiet c" "p \<in> set (c_projects c)"
  shows "quiet (request c p)" "c_projects (request c p) = c_projects c"
    "p_key p \<in> set (c_requests (request c p))"
proof -
  show "quiet (request c p)"
    using assms
    by (auto simp: quiet_def request_def request_lock_def request_put_def cache_inv_def
        in_flight_def project_keys_def)
  show "c_projects (request c p) = c_projects c"
    by (simp add: request_def request_lock_def request_put_def)
  show "p_key p \<in> set (c_requests (request c p))"
  proof (cases "p_key p \<in> c_queued c")
    case True
    with assms(1) have "p_key p \<in># in_flight c" by (simp add: quiet_def cache_inv_queued)
    with True assms(1) show ?thesis by (auto simp: request_def quiet_def in_flight_def)
  qed (simp add: request_def request_put_def request_lock_def)
qed

lemma foldl_request_quiet:
  "quiet c \<Longrightarrow> set ps \<subseteq> set (c_projects c) \<Longrightarrow>
   quiet (foldl request c ps) \<and> c_projects (foldl request c ps) = c_projects c"
  by (induction ps arbitrary: c) (auto simp: request_quiet)

lemma worker_turn_quiet:
  assumes "quiet c"
  shows "\<exists>c'. worker_turn collect c = Some c' \<and> quiet c' \<and> c_projects c' = c_projects c"
proof (cases "c_requests c")
  case Nil
  then show ?thesis
    using foldl_request_quiet [of c "c_projects c"] assms
    by (simp add: worker_turn_def request_all_def)
next
  case (Cons k ks)
  have t: "cache_inv (worker_take c)" "c_worker (worker_take c) = Some k"
    "c_putting (worker_take c) = []" "c_projects (worker_take c) = c_projects c"
    using assms Cons worker_take_inv [of c] by (auto simp: quiet_def worker_take_def)
  have "k \<in> c_queued (worker_take c)"
    using cache_inv_queued [OF t(1)] t(2) by (simp add: in_flight_def)
  with t(1) have "k \<in> project_keys (worker_take c)" by (auto simp: cache_inv_def)
  then obtain c' where c': "worker_publish collect (worker_take c) k = Some c'"
    using worker_publish_total by blast
  with t have "quiet c'" "c_projects c' = c_projects c"
    using worker_publish_inv [OF t(1,2) c']
    by (auto simp: quiet_def worker_publish_def Let_def split: option.splits)
  then show ?thesis using Cons c' by (simp add: worker_turn_def)
qed

end
