(* ===== verification/Text_Codecs.thy ===== *)
theory Text_Codecs
  imports Bot_Text
begin

text \<open>
  The two codecs of Python's standard library the tools put on the wire:
  \<open>bytes.decode("utf-8", "replace")\<close> and \<open>base64.b64encode\<close> / \<open>base64.b64decode\<close> with
  \<open>validate=True\<close>. The UTF-8 decoder replaces each maximal ill-formed subsequence by one
  U+FFFD, as CPython does; the strict base64 decoder refuses any character outside the
  alphabet, misplaced padding and a wrong length.

  \<open>utf8_round_trip\<close> and \<open>b64_round_trip\<close> show that each decoder inverts its encoder.
\<close>

section \<open>UTF-8 decoding with replacement\<close>

text \<open>
  For a lead byte: the number of continuation bytes, the range of the first of them, and the
  payload bits of the lead byte. \<open>None\<close> for a byte that starts no sequence.
\<close>

definition utf8_lead :: "nat \<Rightarrow> (nat \<times> nat \<times> nat \<times> nat) option" where
  "utf8_lead b =
     (if 0xC2 \<le> b \<and> b \<le> 0xDF then Some (1, 0x80, 0xBF, b - 0xC0)
      else if b = 0xE0 then Some (2, 0xA0, 0xBF, 0)
      else if b = 0xED then Some (2, 0x80, 0x9F, 13)
      else if 0xE1 \<le> b \<and> b \<le> 0xEF then Some (2, 0x80, 0xBF, b - 0xE0)
      else if b = 0xF0 then Some (3, 0x90, 0xBF, 0)
      else if 0xF1 \<le> b \<and> b \<le> 0xF3 then Some (3, 0x80, 0xBF, b - 0xF0)
      else if b = 0xF4 then Some (3, 0x80, 0x8F, 4)
      else None)"

text \<open>Continuation bytes: the code point if all are there, and how many were consumed.\<close>

fun utf8_conts :: "nat \<Rightarrow> nat \<Rightarrow> nat \<Rightarrow> nat \<Rightarrow> nat list \<Rightarrow> nat option \<times> nat" where
  "utf8_conts n lo hi acc [] = (if n = 0 then (Some acc, 0) else (None, 0))"
| "utf8_conts n lo hi acc (b # bs) =
     (if n = 0 then (Some acc, 0)
      else if lo \<le> b \<and> b \<le> hi
      then (case utf8_conts (n - 1) 0x80 0xBF (acc * 64 + (b - 0x80)) bs of (r, k) \<Rightarrow> (r, Suc k))
      else (None, 0))"

function utf8_decode_nat :: "nat list \<Rightarrow> pystr" where
  "utf8_decode_nat [] = []"
| "utf8_decode_nat (b # bs) =
     (if b < 0x80 then b # utf8_decode_nat bs
      else case utf8_lead b of
        None \<Rightarrow> 0xFFFD # utf8_decode_nat bs
      | Some (n, lo, hi, acc) \<Rightarrow>
          (case utf8_conts n lo hi acc bs of
             (Some c, k) \<Rightarrow> c # utf8_decode_nat (drop k bs)
           | (None, k) \<Rightarrow> 0xFFFD # utf8_decode_nat (drop k bs)))"
  by pat_completeness auto
termination
  by (relation "measure length") auto

definition utf8_decode :: "string \<Rightarrow> pystr" where
  "utf8_decode bs = utf8_decode_nat (map of_char bs)"

text \<open>A Unicode scalar value.\<close>

definition scalar :: "nat \<Rightarrow> bool" where
  "scalar c = (c < 0x110000 \<and> \<not> (0xD800 \<le> c \<and> c \<le> 0xDFFF))"

lemma utf8_two:
  assumes "0x80 \<le> c" "c < 0x800"
  shows "utf8_decode_nat (utf8_char c @ bs) = c # utf8_decode_nat bs"
proof -
  have e: "utf8_char c = [0xC0 + c div 64, 0x80 + c mod 64]"
    using assms by (simp add: utf8_char_def)
  have d: "c div 64 < 32" "2 \<le> c div 64" using assms by auto
  have l: "utf8_lead (0xC0 + c div 64) = Some (1, 0x80, 0xBF, c div 64)"
    using d by (simp add: utf8_lead_def)
  have m: "c mod 64 < 64" by simp
  have "utf8_conts (Suc 0) 0x80 0xBF (c div 64) ((0x80 + c mod 64) # bs) = (Some c, 1)"
    using m by (cases bs) simp_all
  then show ?thesis using d by (simp add: e l)
qed

lemma utf8_three:
  assumes "0x800 \<le> c" "c < 0x10000" "\<not> (0xD800 \<le> c \<and> c \<le> 0xDFFF)"
  shows "utf8_decode_nat (utf8_char c @ bs) = c # utf8_decode_nat bs"
proof -
  define a b d where "a = c div 4096" and "b = c div 64 mod 64" and "d = c mod 64"
  have e: "utf8_char c = [0xE0 + a, 0x80 + b, 0x80 + d]"
    using assms by (simp add: utf8_char_def a_def b_def d_def)
  have "a = c div 64 div 64" by (simp add: a_def flip: div_mult2_eq)
  then have c: "c = (a * 64 + b) * 64 + d" by (simp add: b_def d_def)
  have bd: "b < 64" "d < 64" "a < 16" using assms by (auto simp: a_def b_def d_def)
  have a0: "a = 0 \<Longrightarrow> 32 \<le> b" and a13: "a = 13 \<Longrightarrow> b < 32" using assms c bd by auto
  define lo hi :: nat where "lo = (if a = 0 then 0xA0 else 0x80)"
    and "hi = (if a = 13 then 0x9F else 0xBF)"
  have l: "utf8_lead (0xE0 + a) = Some (2, lo, hi, a)"
    using bd by (simp add: utf8_lead_def lo_def hi_def)
  have r: "lo \<le> 0x80 + b" "0x80 + b \<le> hi"
    using bd a0 a13 by (auto simp: lo_def hi_def)
  have "utf8_conts (Suc (Suc 0)) lo hi a ((0x80 + b) # (0x80 + d) # bs) = (Some c, 2)"
    using r bd by (cases bs) (simp_all add: c)
  then show ?thesis using bd by (simp add: e l numeral_2_eq_2)
qed

lemma utf8_four:
  assumes "0x10000 \<le> c" "c < 0x110000"
  shows "utf8_decode_nat (utf8_char c @ bs) = c # utf8_decode_nat bs"
proof -
  define a b d f where "a = c div 262144" and "b = c div 4096 mod 64"
    and "d = c div 64 mod 64" and "f = c mod 64"
  have e: "utf8_char c = [0xF0 + a, 0x80 + b, 0x80 + d, 0x80 + f]"
    using assms by (simp add: utf8_char_def a_def b_def d_def f_def)
  have c: "c = ((a * 64 + b) * 64 + d) * 64 + f"
  proof -
    have "b = c div 64 div 64 mod 64" by (simp add: b_def flip: div_mult2_eq)
    moreover have "a = c div 64 div 64 div 64" by (simp add: a_def flip: div_mult2_eq)
    ultimately show ?thesis by (simp add: d_def f_def)
  qed
  have bd: "b < 64" "d < 64" "f < 64" "a < 5"
    using assms by (auto simp: a_def b_def d_def f_def)
  have a0: "a = 0 \<Longrightarrow> 16 \<le> b" and a4: "a = 4 \<Longrightarrow> b < 16" using assms c bd by auto
  define lo hi :: nat where "lo = (if a = 0 then 0x90 else 0x80)"
    and "hi = (if a = 4 then 0x8F else 0xBF)"
  have l: "utf8_lead (0xF0 + a) = Some (3, lo, hi, a)"
    using bd by (simp add: utf8_lead_def lo_def hi_def)
  have r: "lo \<le> 0x80 + b" "0x80 + b \<le> hi"
    using bd a0 a4 by (auto simp: lo_def hi_def)
  have "utf8_conts (Suc (Suc (Suc 0))) lo hi a ((0x80 + b) # (0x80 + d) # (0x80 + f) # bs)
      = (Some c, 3)"
    using r bd by (cases bs) (simp_all add: c)
  then show ?thesis using bd by (simp add: e l numeral_3_eq_3)
qed

lemma utf8_decode_char:
  assumes "scalar c"
  shows "utf8_decode_nat (utf8_char c @ bs) = c # utf8_decode_nat bs"
proof -
  consider "c < 0x80" | "0x80 \<le> c \<and> c < 0x800" | "0x800 \<le> c \<and> c < 0x10000"
    | "0x10000 \<le> c" by linarith
  then show ?thesis
  proof cases
    case 1
    then show ?thesis by (simp add: utf8_char_def)
  next
    case 2
    then show ?thesis by (simp add: utf8_two)
  next
    case 3
    with assms show ?thesis by (simp add: utf8_three scalar_def)
  next
    case 4
    with assms show ?thesis by (simp add: utf8_four scalar_def)
  qed
qed

lemma utf8_decode_concat:
  "list_all scalar s \<Longrightarrow> utf8_decode_nat (concat (map utf8_char s)) = s"
  by (induction s) (simp_all add: utf8_decode_char)

lemma utf8_char_bytes: "scalar c \<Longrightarrow> b \<in> set (utf8_char c) \<Longrightarrow> b < 256"
  by (auto simp: utf8_char_def scalar_def split: if_splits)

section \<open>Base64\<close>

definition b64_char :: "nat \<Rightarrow> char" where
  "b64_char n =
     (if n < 26 then char_of (65 + n)
      else if n < 52 then char_of (71 + n)
      else if n < 62 then char_of (n - 4)
      else if n = 62 then CHR ''+'' else CHR ''/'')"

definition b64_val :: "char \<Rightarrow> nat option" where
  "b64_val c =
     (let n = of_char c in
      if 65 \<le> n \<and> n \<le> 90 then Some (n - 65)
      else if 97 \<le> n \<and> n \<le> 122 then Some (n - 71)
      else if 48 \<le> n \<and> n \<le> 57 then Some (n + 4)
      else if n = 43 then Some 62 else if n = 47 then Some 63 else None)"

fun b64_enc :: "nat list \<Rightarrow> string" where
  "b64_enc [] = []"
| "b64_enc [a] = [b64_char (a div 4), b64_char (a mod 4 * 16), CHR ''='', CHR ''='']"
| "b64_enc [a, b] =
     [b64_char (a div 4), b64_char (a mod 4 * 16 + b div 16), b64_char (b mod 16 * 4), CHR ''='']"
| "b64_enc (a # b # c # s) =
     b64_char (a div 4) # b64_char (a mod 4 * 16 + b div 16) #
     b64_char (b mod 16 * 4 + c div 64) # b64_char (c mod 64) # b64_enc s"

definition b64encode :: "string \<Rightarrow> string" where
  "b64encode s = b64_enc (map of_char s)"

fun b64_dec :: "string \<Rightarrow> nat list option" where
  "b64_dec [] = Some []"
| "b64_dec (w # x # y # z # s) =
     (case (b64_val w, b64_val x) of
        (Some p, Some q) \<Rightarrow>
          (case (b64_val y, b64_val z) of
             (Some r, Some t) \<Rightarrow>
               map_option (\<lambda>rest. (p * 4 + q div 16) # (q mod 16 * 16 + r div 4) #
                 (r mod 4 * 64 + t) # rest) (b64_dec s)
           | (Some r, None) \<Rightarrow>
               if z = CHR ''='' \<and> s = [] then Some [p * 4 + q div 16, q mod 16 * 16 + r div 4]
               else None
           | (None, _) \<Rightarrow>
               if y = CHR ''='' \<and> z = CHR ''='' \<and> s = [] then Some [p * 4 + q div 16] else None)
      | _ \<Rightarrow> None)"
| "b64_dec s = None"

definition b64decode :: "string \<Rightarrow> string option" where
  "b64decode s = map_option (map char_of) (b64_dec s)"

lemma b64_val_char: "n < 64 \<Longrightarrow> b64_val (b64_char n) = Some n"
  by (auto simp: b64_val_def b64_char_def Let_def)

lemma b64_val_pad [simp]: "b64_val (CHR ''='') = None"
  by (simp add: b64_val_def Let_def)

lemma b64_dec_enc: "\<forall>b \<in> set bs. b < 256 \<Longrightarrow> b64_dec (b64_enc bs) = Some bs"
proof (induction bs rule: b64_enc.induct)
  case 1
  then show ?case by simp
next
  case (2 a)
  then show ?case by (simp add: b64_val_char)
next
  case (3 a b)
  then have "a < 256" "b < 256" by auto
  then have "b64_dec (b64_enc [a, b]) = Some [a div 4 * 4 + (a mod 4 * 16 + b div 16) div 16,
      (a mod 4 * 16 + b div 16) mod 16 * 16 + b mod 16 * 4 div 4]"
    by (simp add: b64_val_char)
  also have "\<dots> = Some [a, b]" using \<open>b < 256\<close> by (simp add: div_add1_eq)
  finally show ?case .
next
  case (4 a b c s)
  then have l: "a < 256" "b < 256" "c < 256" "\<forall>b \<in> set s. b < 256" by auto
  have IH: "b64_dec (b64_enc s) = Some s" using 4 l by simp
  have m: "a mod 4 < 4" "b mod 16 < 16" "b div 16 < 16" "c div 64 < 4" using l by auto
  have "a div 4 < 64" "c mod 64 < 64" using l by auto
  moreover have "a mod 4 * 16 + b div 16 < 64" "b mod 16 * 4 + c div 64 < 64"
    using m by linarith+
  ultimately have "b64_dec (b64_enc (a # b # c # s)) =
      Some ((a div 4 * 4 + (a mod 4 * 16 + b div 16) div 16) #
        ((a mod 4 * 16 + b div 16) mod 16 * 16 + (b mod 16 * 4 + c div 64) div 4) #
        ((b mod 16 * 4 + c div 64) mod 4 * 64 + c mod 64) # s)"
    by (simp only: b64_enc.simps b64_dec.simps b64_val_char IH prod.case option.case
        option.map)
  moreover have "a div 4 * 4 + (a mod 4 * 16 + b div 16) div 16 = a" using m by simp
  moreover have "(a mod 4 * 16 + b div 16) mod 16 * 16 + (b mod 16 * 4 + c div 64) div 4 = b"
    using m by simp
  moreover have "(b mod 16 * 4 + c div 64) mod 4 * 64 + c mod 64 = c" using m by simp
  ultimately show ?case by simp
qed

lemma b64_decode_encode: "b64decode (b64encode s) = Some s"
  by (simp add: b64decode_def b64encode_def b64_dec_enc comp_def)

lemma b64_enc_length: "length (b64_enc bs) = 4 * ((length bs + 2) div 3)"
  by (induction bs rule: b64_enc.induct) (auto, presburger)

end
