(* ===== verification/Bot_Core.thy ===== *)
theory Bot_Core
  imports Bot_Inventory Text_Codecs
begin

text \<open>
  The class \<open>Bot\<close> of \<open>src/tools/announce_bot.py\<close>: the record \<open>bot\<close> has one field per
  attribute, \<open>b_wire\<close> collects the lines given to \<open>sock.sendall\<close> (each is sent as
  \<open>utf8 (line @ [13, 10])\<close>), \<open>b_cache\<close> is the module's \<open>INVENTORY\<close>. The module's
  configuration constants are the record \<open>config\<close>. Every method is a function from the
  configuration, the world (clock, programs, socket) and the bot to the bot; logging has no
  effect on the state and is left out. One handler runs at one reading of the clock.
  The dictionaries \<open>last_commit\<close> and \<open>last_tests\<close> have an entry for each project from the
  constructor on, so they are total functions of the key.
\<close>

record config =
  SERVER :: pystr
  PORT :: int
  NICK :: pystr
  CHANNEL :: pystr
  ADMIN :: pystr
  PASSWORD :: pystr
  SASL_USER :: pystr
  SASL_PASS :: pystr

definition load_config :: "(pystr \<rightharpoonup> pystr) \<Rightarrow> config option" where
  "load_config environ =
     (let password = env_get environ (u ''ANNOUNCE_PASS'') (u ''ORO_PASS'') [] in
      map_option (\<lambda>port. \<lparr>
        SERVER = env_get environ (u ''ANNOUNCE_SERVER'') (u ''ORO_SERVER'') (u ''127.0.0.1''),
        PORT = port,
        NICK = env_get environ (u ''ANNOUNCE_NICK'') (u ''ORO_NICK'') (u ''Announce''),
        CHANNEL = env_get environ (u ''ANNOUNCE_CHANNEL'') (u ''ORO_CHANNEL'') (u ''#root''),
        ADMIN = env_get environ (u ''ANNOUNCE_ADMIN'') (u ''ORO_ADMIN'') [],
        PASSWORD = password,
        SASL_USER = env_get environ (u ''ANNOUNCE_SASL_USER'') (u ''ORO_SASL_USER'') [],
        SASL_PASS = env_get environ (u ''ANNOUNCE_SASL_PASS'') (u ''ORO_SASL_PASS'') password \<rparr>)
      (str_int (env_get environ (u ''ANNOUNCE_PORT'') (u ''ORO_PORT'') (u ''6667''))))"

definition POLL_SECS :: int where "POLL_SECS = 15000"
definition HEARTBEAT_SECS :: int where "HEARTBEAT_SECS = 6 * 3600 * 1000"
definition SEND_INTERVAL :: int where "SEND_INTERVAL = 400"
definition RECONNECT_MIN :: nat where "RECONNECT_MIN = 6"
definition RECONNECT_MAX :: nat where "RECONNECT_MAX = 300"

definition WANT_CAPS :: "pystr list" where
  "WANT_CAPS = [u ''server-time'', u ''message-tags'', u ''account-tag'', u ''echo-message'']"

definition VERSION :: pystr where
  "VERSION = u ''Announce-bot 3.2 (async build inventory '' @ [0xB7] @ u '' Onyx SolidJS '' @
     [0xB7] @ u '' Onyx Server Zig)''"

record bot =
  b_sock :: bool
  b_wire :: "pystr list"
  b_nick :: pystr
  b_last_commit :: "pystr \<Rightarrow> pystr"
  b_last_tests :: "pystr \<Rightarrow> int"
  b_last_beat :: int
  b_last_poll :: int
  b_last_topic :: pystr
  b_outq :: "pystr list"
  b_last_send :: int
  b_caps :: "pystr set"
  b_cap_ls :: "pystr set"
  b_cap_ended :: bool
  b_connect_ts :: int
  b_sasl_active :: bool
  b_registered :: bool
  b_last_rx :: int
  b_last_keepalive :: int
  b_intro_done :: bool
  b_cache :: cache

definition bot_init :: "config \<Rightarrow> world \<Rightarrow> cache \<Rightarrow> bot" where
  "bot_init cfg w ca = \<lparr>
     b_sock = False, b_wire = [], b_nick = NICK cfg,
     b_last_commit = (\<lambda>k. case find (\<lambda>p. p_key p = k) PROJECTS of
        Some p \<Rightarrow> git w p [u ''rev-parse'', u ''HEAD''] | None \<Rightarrow> []),
     b_last_tests = (\<lambda>_. -1), b_last_beat = now w, b_last_poll = 0, b_last_topic = [],
     b_outq = [], b_last_send = 0, b_caps = {}, b_cap_ls = {}, b_cap_ended = False,
     b_connect_ts = 0, b_sasl_active = False, b_registered = False, b_last_rx = 0,
     b_last_keepalive = 0, b_intro_done = False, b_cache = start ca \<rparr>"

section \<open>Output\<close>

text \<open>The socket accepts a line or \<open>sendall\<close> raises, which \<open>send_raw\<close> logs and swallows.\<close>

record link = world +
  sendall_ok :: "pystr \<Rightarrow> bool"

definition send_raw :: "link \<Rightarrow> bot \<Rightarrow> pystr \<Rightarrow> bool \<Rightarrow> bot" where
  "send_raw w b line trusted =
     (if \<not> b_sock b then b
      else if \<not> trusted \<and> topic_change_protected line then b
      else if sendall_ok w line then b\<lparr>b_wire := b_wire b @ [line]\<rparr> else b)"

definition enqueue :: "bot \<Rightarrow> pystr \<Rightarrow> bot" where
  "enqueue b line = b\<lparr>b_outq := b_outq b @ [line]\<rparr>"

definition msg :: "bot \<Rightarrow> pystr \<Rightarrow> pystr \<Rightarrow> bot" where
  "msg b target txt =
     (if txt = [] \<or> str_strip txt = [] then b
      else enqueue b (u ''PRIVMSG '' @ target @ u '' :'' @ txt))"

definition notice :: "bot \<Rightarrow> pystr \<Rightarrow> pystr \<Rightarrow> bot" where
  "notice b target txt =
     (if txt = [] \<or> str_strip txt = [] then b
      else enqueue b (u ''NOTICE '' @ target @ u '' :'' @ txt))"

definition channel_say :: "config \<Rightarrow> link \<Rightarrow> bot \<Rightarrow> pystr \<Rightarrow> bool \<Rightarrow> bot" where
  "channel_say cfg w b txt immediate =
     (if str_strip txt = [] then b
      else let line = u ''PRIVMSG '' @ CHANNEL cfg @ u '' :'' @ truncate_text (str_strip txt) in
        if immediate then (send_raw w b line False)\<lparr>b_last_send := now w\<rparr>
        else enqueue b line)"

definition channel_notice :: "config \<Rightarrow> bot \<Rightarrow> pystr \<Rightarrow> bot" where
  "channel_notice cfg b txt =
     (if str_strip txt = [] then b
      else enqueue b (u ''NOTICE '' @ CHANNEL cfg @ u '' :'' @ str_strip txt))"

definition announce :: "config \<Rightarrow> link \<Rightarrow> bot \<Rightarrow> pystr list \<Rightarrow> pystr option \<Rightarrow> bot" where
  "announce cfg w b lines target =
     (let dest = (case target of Some t \<Rightarrow> or_else t (CHANNEL cfg) | None \<Rightarrow> CHANNEL cfg) in
      case clean_lines lines of
        [] \<Rightarrow> b
      | l # ls \<Rightarrow>
          if dest = CHANNEL cfg
          then foldl (\<lambda>b txt. channel_say cfg w b txt False) (channel_say cfg w b l True) ls
          else foldl (\<lambda>b txt. msg b dest txt) b (l # ls))"

definition pump_out :: "link \<Rightarrow> bot \<Rightarrow> bot" where
  "pump_out w b =
     (case b_outq b of
        [] \<Rightarrow> b
      | l # ls \<Rightarrow>
          if now w - b_last_send b \<ge> SEND_INTERVAL
          then (send_raw w (b\<lparr>b_outq := ls\<rparr>) l False)\<lparr>b_last_send := now w\<rparr>
          else b)"

section \<open>Topic and commit cards\<close>

definition set_topic :: "config \<Rightarrow> link \<Rightarrow> bot \<Rightarrow> bot" where
  "set_topic cfg w b =
     (let wd = world.truncate w;
          segments = map (\<lambda>p. p_topic_label p @ [32, 0xB7, 32] @
              git wd p [u ''rev-parse'', u ''--short'', u ''HEAD''] @ [32, 0xB7, 32] @
              inventory_label wd (c_items (b_cache b)) p) PROJECTS;
          bar = [32, 32, 0x2758, 32, 32];
          topic = join bar segments @ bar @ u ''!help''
      in if topic = b_last_topic b then b
         else (send_raw w b (u ''TOPIC '' @ CHANNEL cfg @ u '' :'' @ topic) True)
                \<lparr>b_last_topic := topic\<rparr>)"

definition tests_delta :: "bot \<Rightarrow> project \<Rightarrow> pystr \<Rightarrow> bot \<times> pystr" where
  "tests_delta b p tc =
     (case str_int tc of
        None \<Rightarrow> (b, [])
      | Some n \<Rightarrow>
          let last_n = b_last_tests b (p_key p);
              diff = n - last_n;
              out = (if last_n \<ge> 0 \<and> n \<noteq> last_n
                     then (if diff > 0 then [32] @ GREEN @ u ''(+'' @ str_of_int diff @ u '')'' @ RST
                           else [32] @ RED @ u ''('' @ str_of_int diff @ u '')'' @ RST)
                     else [])
          in (b\<lparr>b_last_tests := (b_last_tests b)(p_key p := n)\<rparr>, out))"

text \<open>
  Case folding of \<open>re.I\<close> on the letters of the trailer names: \<open>i\<close> also matches U+0130 and
  U+0131, \<open>s\<close> also U+017F, \<open>k\<close> also U+212A.
\<close>

definition boilerplate :: "pystr \<Rightarrow> bool" where
  "boilerplate txt =
     list_ex (\<lambda>h. startswith (map re_fold txt) h)
       [u ''co-authored-by:'', u ''signed-off-by:'', u ''reviewed-by:'', u ''made-with:'',
        u ''change-id:'']"

text \<open>
  The soft-wrap loop: \<open>Inl\<close> is the \<open>return\<close> inside the loop, \<open>Inr\<close> the lines so far and
  the rest of the text.
\<close>

function wrap_body :: "nat \<Rightarrow> pystr list \<Rightarrow> pystr \<Rightarrow> pystr list + (pystr list \<times> pystr)" where
  "wrap_body max_lines out txt =
     (if byte_len txt > MAX_MESSAGE_TEXT_BYTES - 24
      then let cut0 = take 220 txt;
               (cut, txt') =
                 (case rfind_sub cut0 [32] of
                    Some sp \<Rightarrow> if sp > 80 then (take sp cut0, str_lstrip (drop sp txt))
                               else (cut0, drop 220 txt)
                  | None \<Rightarrow> (cut0, drop 220 txt))
           in if length (out @ [cut]) \<ge> max_lines then Inl (out @ [cut])
              else wrap_body max_lines (out @ [cut]) txt'
      else Inr (out, txt))"
  by pat_completeness auto
termination
proof (relation "measure (\<lambda>(m, out, t). length t)")
  fix max_lines :: nat and out :: "pystr list" and t cut0 :: pystr and x cut t'
  assume big: "MAX_MESSAGE_TEXT_BYTES - 24 < byte_len t"
    and x: "x = (case rfind_sub cut0 [32] of
        Some sp \<Rightarrow> if sp > 80 then (take sp cut0, str_lstrip (drop sp t))
                   else (cut0, drop 220 t)
      | None \<Rightarrow> (cut0, drop 220 t))"
    and cut: "(cut, t') = x"
  have "t \<noteq> []" using big by (auto simp: byte_len_simps)
  moreover have "length (str_lstrip (drop sp t)) < length t" if "sp > 80" for sp
  proof -
    have "length (str_lstrip (drop sp t)) \<le> length (drop sp t)"
      unfolding str_lstrip_def by (rule length_dropWhile_le)
    also have "\<dots> < length t" using that \<open>t \<noteq> []\<close> by simp
    finally show ?thesis .
  qed
  ultimately show "((max_lines, out @ [cut], t'), max_lines, out, t)
      \<in> measure (\<lambda>(m, out, t). length t)"
    using x cut by (auto split: option.splits if_splits)
qed simp

declare wrap_body.simps [simp del]

fun body_lines :: "nat \<Rightarrow> pystr list \<Rightarrow> pystr list \<Rightarrow> pystr list" where
  "body_lines max_lines out [] = out"
| "body_lines max_lines out (line # ls) =
     (let txt = str_strip line in
      if txt = [] \<or> boilerplate txt then body_lines max_lines out ls
      else case wrap_body max_lines out txt of
             Inl r \<Rightarrow> r
           | Inr (out', txt') \<Rightarrow>
               if length (out' @ [txt']) \<ge> max_lines then out' @ [txt']
               else body_lines max_lines (out' @ [txt']) ls)"

definition commit_body_explain :: "world \<Rightarrow> project \<Rightarrow> pystr \<Rightarrow> nat \<Rightarrow> pystr list" where
  "commit_body_explain w p rv max_lines =
     (let raw = git w p [u ''log'', u ''-1'', u ''--format=%b'', rv] in
      if raw = [] then [] else body_lines max_lines [] (str_splitlines raw))"

definition commit_hint :: "pystr \<Rightarrow> pystr" where
  "commit_hint typ =
     (case map_of
        [(u ''feat'', u ''New capability''), (u ''fix'', u ''Bug fix''),
         (u ''docs'', u ''Documentation''),
         (u ''refactor'', u ''Internal restructure (no intended behavior change)''),
         (u ''test'', u ''Tests''), (u ''chore'', u ''Housekeeping''),
         (u ''perf'', u ''Performance''), (u ''build'', u ''Build / packaging''),
         (u ''ci'', u ''CI''), (u ''style'', u ''Style / formatting''),
         (u ''revert'', u ''Revert'')] typ of
        Some h \<Rightarrow> h | None \<Rightarrow> u ''Update'')"

definition commit_files :: "world \<Rightarrow> project \<Rightarrow> pystr \<Rightarrow> pystr list" where
  "commit_files w p rv =
     map (\<lambda>l. str_strip (hd (split_sub [124] l)))
       (filter (\<lambda>l. contains_sub l [124]) (changed_files w p rv))"

definition commit_lines :: "link \<Rightarrow> bot \<Rightarrow> project \<Rightarrow> pystr \<Rightarrow> pystr \<Rightarrow> bool \<Rightarrow> bot \<times> pystr list" where
  "commit_lines lk b p rv tc with_delta =
     (let w = world.truncate lk;
          subj = or_else (commit_field w p (u ''%s'') rv) (u ''(no subject)'');
          typ = commit_type subj;
          accent = (case map_of TYPE_COLOR typ of Some c \<Rightarrow> c | None \<Rightarrow> CYAN);
          glyph = (case map_of TYPE_GLYPH typ of Some g \<Rightarrow> g | None \<Rightarrow> [0x25B6]);
          clean = commit_clean subj;
          scope = commit_scope subj;
          type_chip = (if typ \<noteq> [] then mB @ accent @ typ @ RST
                       else SILVER @ u ''commit'' @ RST) @
            (if scope \<noteq> [] then GREY @ u ''('' @ scope @ u '')'' @ RST else []);
          short = or_else (commit_field w p (u ''%h'') rv) (take 7 rv);
          author = or_else (commit_field w p (u ''%an'') rv) (u ''?'');
          when = commit_field w p (u ''%cr'') rv;
          (b', delta) = (if with_delta then tests_delta b p tc else (b, []));
          total = git w p [u ''rev-list'', u ''--count'', u ''HEAD''];
          stat = commit_stat w p rv;
          proj = p_accent p @ mB @ u ''['' @ p_key p @ u '']'' @ RST;
          dot = GREY @ [0xB7] @ RST;
          headline = proj @ [32] @ accent @ mB @ [0x258C] @ RST @ glyph @ [32] @ mB @ accent @ short @
            RST @ [32] @ type_chip @ [32] @ WHITE @ mB @ clean @ RST;
          meta = proj @ [32] @ GREY @ u ''by'' @ RST @ [32] @ TEAL @ author @ RST @ [32] @ dot @ [32] @
            SILVER @ when @ RST @ [32] @ dot @ [32] @ stat @ [32] @ GREY @ [0xB7] @
            u '' test blocks'' @ RST @ [32] @ mB @ GREEN @ tc @ RST @ delta @ [32] @
            GREY @ [0xB7] @ u '' #'' @ total @ RST;
          body = commit_body_explain w p rv 3;
          why = (case body of
              [] \<Rightarrow> [proj @ [32] @ CYAN @ u ''about'' @ RST @ [32] @ dot @ [32] @ WHITE @
                      commit_hint typ @ u '': '' @ clean @ RST]
            | bl # bls \<Rightarrow>
                (proj @ [32] @ CYAN @ u ''why'' @ RST @ [32] @ dot @ [32] @ WHITE @ bl @ RST) #
                map (\<lambda>l. proj @ [32] @ GREY @ [0xB7, 0xB7, 0xB7] @ RST @ [32] @ WHITE @ l @ RST) bls);
          repo = proj @ [32] @ GREY @ u ''repo'' @ RST @ [32] @ dot @ [32] @ SILVER @ p_repo p @ RST;
          files = commit_files w p rv;
          files_line =
            (if files \<noteq> [] \<and> length files \<le> 8
             then [proj @ [32] @ GREY @ u ''files'' @ RST @ [32] @ dot @ [32] @ SILVER @
                   join [32, 0xB7, 32] files @ RST]
             else if files \<noteq> []
             then [proj @ [32] @ GREY @ u ''files'' @ RST @ [32] @ dot @ [32] @ SILVER @
                   str_nat (length files) @ u '' paths ('' @ join (u '', '') (take 4 files) @
                   [0x2026] @ u '')'' @ RST]
             else [])
      in (b', [headline, meta] @ why @ [repo] @ files_line))"

section \<open>Polling the repositories\<close>

text \<open>The new commits of one poll, oldest first; the tip alone when history diverged.\<close>

definition new_revs :: "world \<Rightarrow> project \<Rightarrow> pystr \<Rightarrow> pystr \<Rightarrow> pystr list" where
  "new_revs w p prev cur =
     (let revs = str_split (git w p [u ''rev-list'', u ''--reverse'', prev @ u ''..'' @ cur])
      in if revs = [] then [cur] else revs)"

fun announce_revs :: "config \<Rightarrow> link \<Rightarrow> bot \<Rightarrow> project \<Rightarrow> pystr \<Rightarrow> pystr list \<Rightarrow> bot" where
  "announce_revs cfg w b p tc [] = b"
| "announce_revs cfg w b p tc (rv # rvs) =
     (case commit_lines w b p rv tc (rvs = []) of
        (b', lines) \<Rightarrow> announce_revs cfg w (announce cfg w b' lines None) p tc rvs)"

definition poll_project :: "config \<Rightarrow> link \<Rightarrow> bot \<Rightarrow> project \<Rightarrow> bot" where
  "poll_project cfg lk b p =
     (let w = world.truncate lk; cur = git w p [u ''rev-parse'', u ''HEAD''] in
      if \<not> isdir lk (p_repo p) \<or> cur = [] \<or> cur = b_last_commit b (p_key p) then b
      else
        let prev = b_last_commit b (p_key p);
            revs = new_revs w p prev cur;
            b1 = b\<lparr>b_last_commit := (b_last_commit b)(p_key p := cur),
                   b_cache := request (b_cache b) p\<rparr>;
            m = c_items (b_cache b1);
            tc = (if inventory_status w m p \<in> {u ''inventory pending'', u ''inventory refreshing''}
                  then u ''updating'' else test_count m p);
            shown = drop (length revs - 5) revs;
            b2 = (if length revs > length shown
                  then channel_notice cfg b1 (u ''['' @ p_key p @ u ''] '' @ [0x2026] @ u '' +'' @
                         str_nat (length revs - length shown) @ u '' earlier commit(s) in '' @
                         p_repo p)
                  else b1)
        in set_topic cfg lk (announce_revs cfg lk b2 p tc shown))"

section \<open>Capability negotiation\<close>

definition cap_end :: "link \<Rightarrow> bot \<Rightarrow> bot" where
  "cap_end w b =
     (if b_cap_ended b then b else send_raw w (b\<lparr>b_cap_ended := True\<rparr>) (u ''CAP END'') False)"

definition cap_offered :: "pystr \<Rightarrow> pystr list" where
  "cap_offered line =
     (case split1 (u '' :'') line of [_, r] \<Rightarrow> str_split r | _ \<Rightarrow> [])"

definition want_caps :: "config \<Rightarrow> pystr set \<Rightarrow> pystr list" where
  "want_caps cfg ls =
     sort (filter (\<lambda>c. c \<in> ls) WANT_CAPS @
       (if SASL_USER cfg \<noteq> [] \<and> u ''sasl'' \<in> ls then [u ''sasl''] else []))"

definition handle_cap :: "config \<Rightarrow> link \<Rightarrow> bot \<Rightarrow> pystr \<Rightarrow> pystr list \<Rightarrow> bot" where
  "handle_cap cfg w b line parts =
     (let sub = (if length parts > 3 then parts ! 3 else []);
          offered = cap_offered line
      in
      if sub = u ''LS'' then
        let more = (length parts > 4 \<and> parts ! 4 = u ''*'');
            b1 = b\<lparr>b_cap_ls := b_cap_ls b \<union> set (map (\<lambda>c. hd (split_sub (u ''='') c)) offered)\<rparr>
        in if more then b1
           else let want = want_caps cfg (b_cap_ls b1) in
             if want \<noteq> [] then send_raw w b1 (u ''CAP REQ :'' @ join [32] want) False
             else cap_end w b1
      else if sub = u ''ACK'' then
        let b1 = b\<lparr>b_caps := b_caps b \<union> set offered\<rparr> in
        if u ''sasl'' \<in> set offered \<and> SASL_USER cfg \<noteq> []
        then send_raw w (b1\<lparr>b_sasl_active := True\<rparr>) (u ''AUTHENTICATE PLAIN'') False
        else cap_end w b1
      else if sub = u ''NAK'' then cap_end w b
      else b)"

section \<open>CTCP and commands\<close>

definition ctcp :: "link \<Rightarrow> bot \<Rightarrow> pystr \<Rightarrow> pystr \<Rightarrow> bot" where
  "ctcp w b nick body =
     (let cmd = str_upper (hd (split1 [32] body));
          arg = str_strip (drop (length cmd) body)
      in
      if cmd = u ''VERSION'' then notice b nick ([1] @ u ''VERSION '' @ VERSION @ [1])
      else if cmd = u ''PING'' then notice b nick ([1] @ u ''PING '' @ arg @ [1])
      else if cmd = u ''TIME'' then notice b nick ([1] @ u ''TIME '' @ strftime_now w @ [1])
      else if cmd = u ''SOURCE''
      then notice b nick ([1] @ u ''SOURCE '' @
             join (u '' | '') (map (\<lambda>p. p_key p @ u '': '' @ p_repo p) PROJECTS) @ [1])
      else if cmd = u ''CLIENTINFO''
      then notice b nick ([1] @ u ''CLIENTINFO VERSION PING TIME SOURCE CLIENTINFO'' @ [1])
      else b)"

definition per_project_cmds :: "pystr list" where
  "per_project_cmds = map u [''project'', ''about'', ''stats'', ''build'', ''tests'', ''modules'',
     ''components'', ''commit'', ''head'', ''changelog'', ''diff'', ''files'', ''progress'',
     ''status'', ''plan'', ''roadmap'']"

definition tagged :: "project \<Rightarrow> pystr \<Rightarrow> pystr" where
  "tagged p s = u ''['' @ p_key p @ u ''] '' @ s"

text \<open>The per-project commands, for one project.\<close>

definition project_command :: "config \<Rightarrow> link \<Rightarrow> pystr \<Rightarrow> pystr \<Rightarrow> bot \<Rightarrow> project \<Rightarrow> bot" where
  "project_command cfg lk cmd reply b p =
     (let w = world.truncate lk; m = c_items (b_cache b) in
      if cmd \<in> {u ''project'', u ''about''} then announce cfg lk b (project_lines p) (Some reply)
      else if cmd \<in> {u ''stats'', u ''build''} then announce cfg lk b (stats_lines w m p) (Some reply)
      else if cmd = u ''tests''
      then msg b reply (tagged p (u ''static test inventory: '' @ GREEN @ test_count m p @ RST @ [32] @
             p_test_label p @ u '' ('' @ inventory_status w m p @ u ''; not a test run)''))
      else if cmd \<in> {u ''modules'', u ''components''}
      then msg b reply (tagged p (p_module_label p @ u '': '' @ GREEN @ module_count m p @ RST @
             u '' source files''))
      else if cmd \<in> {u ''commit'', u ''head''}
      then msg b reply (tagged p (u ''HEAD '' @ head_line w p))
      else if cmd = u ''changelog''
      then (case map (\<lambda>l. GREY @ tagged p l @ RST)
              (str_splitlines (git w p [u ''log'', u ''-5'', u ''--format=%h %s''])) of
              [] \<Rightarrow> announce cfg lk b [tagged p (u ''(none)'')] (Some reply)
            | ls \<Rightarrow> announce cfg lk b ls (Some reply))
      else if cmd \<in> {u ''diff'', u ''files''}
      then (case map (\<lambda>l. GREY @ tagged p l @ RST) (changed_files w p (u ''HEAD'')) of
              [] \<Rightarrow> announce cfg lk b [tagged p (u ''(no changes)'')] (Some reply)
            | ls \<Rightarrow> announce cfg lk b ls (Some reply))
      else if cmd \<in> {u ''progress'', u ''status''}
      then msg b reply (tagged p (fill_fields (test_count m p) (module_count m p)
             (p_progress_text p)))
      else if cmd \<in> {u ''plan'', u ''roadmap''}
      then announce cfg lk b (map (\<lambda>l. YEL @ tagged p l @ RST) (p_roadmap p)) (Some reply)
      else b)"

text \<open>The commands only the configured administrator may run.\<close>

definition admin_command :: "config \<Rightarrow> link \<Rightarrow> bot \<Rightarrow> pystr \<Rightarrow> pystr \<Rightarrow> pystr \<Rightarrow> bot" where
  "admin_command cfg w b nick cmd arg =
     (if cmd = u ''say''
      then (case partition_sub arg [32] of (tgt, _, body) \<Rightarrow>
              if tgt \<noteq> [] \<and> body \<noteq> [] then msg b tgt body else b)
      else if cmd \<in> {u ''announce'', u ''broadcast''}
      then (if arg \<noteq> [] then msg b (CHANNEL cfg) (mB @ MAG @ u ''announce'' @ RST @ [32] @ arg) else b)
      else if cmd = u ''topic''
      then (if arg = [] then b
            else if topic_protected (CHANNEL cfg)
            then notice b nick (u ''topic changes are disabled for '' @ CHANNEL cfg)
            else send_raw w b (u ''TOPIC '' @ CHANNEL cfg @ u '' :'' @ arg) False)
      else if cmd = u ''raw'' then (if arg \<noteq> [] then send_raw w b arg False else b)
      else b)"

definition command :: "config \<Rightarrow> link \<Rightarrow> bot \<Rightarrow> pystr \<Rightarrow> pystr \<Rightarrow> pystr \<Rightarrow> bot" where
  "command cfg w b nick reply txt =
     (if \<not> startswith txt (u ''!'') then b
      else
        let (cmd0, _, arg0) = partition_sub (tl txt) [32];
            cmd = str_lower cmd0;
            arg = str_strip arg0;
            is_admin = (ADMIN cfg \<noteq> [] \<and> nick = ADMIN cfg)
        in
        if cmd \<in> set per_project_cmds
        then (case select_projects arg of
                None \<Rightarrow> notice b reply (u ''unknown project '' @ sq arg @
                          u '' (try: onyx, onyx-server)'')
              | Some ps \<Rightarrow> foldl (project_command cfg w cmd reply) b ps)
        else if cmd = u ''help'' then msg b reply (HELP (ADMIN cfg))
        else if cmd = u ''uptime'' then msg b reply (u ''uptime: '' @ uptime (world.truncate w))
        else if cmd = u ''version'' then msg b reply VERSION
        else if cmd = u ''ping'' then msg b reply (u ''pong'')
        else if cmd = u ''source''
        then msg b reply (join (u '' | '') (map (\<lambda>p. p_key p @ u '': '' @ p_repo p) PROJECTS))
        else if is_admin then admin_command cfg w b nick cmd arg
        else b)"

section \<open>The line handler\<close>

definition strip_tags :: "pystr \<Rightarrow> pystr" where
  "strip_tags line =
     (if startswith line (u ''@'')
      then (case find_sub line [32] of Some sp \<Rightarrow> drop (sp + 1) line | None \<Rightarrow> [])
      else line)"

definition nonspace_run :: "pystr \<Rightarrow> pystr" where
  "nonspace_run s = takeWhile (\<lambda>c. \<not> uspace c) s"

text \<open>\<open>re.match(r":\S+ KICK (\S+) " + re.escape(nick), work)\<close>: the channel.\<close>

definition match_kick :: "pystr \<Rightarrow> pystr \<Rightarrow> pystr option" where
  "match_kick nick work =
     (case work of
        c # t \<Rightarrow>
          let who = nonspace_run t; r = drop (length who) t in
          if c = 58 \<and> who \<noteq> [] \<and> startswith r (u '' KICK '')
          then (let r1 = drop 6 r; chan = nonspace_run r1; r2 = drop (length chan) r1 in
                if chan \<noteq> [] \<and> startswith r2 (32 # nick) then Some chan else None)
          else None
      | [] \<Rightarrow> None)"

text \<open>\<open>(\S+?)!(\S+)\<close> on a run without spaces: split at the first \<open>!\<close> after the first character.\<close>

definition split_prefix :: "pystr \<Rightarrow> (pystr \<times> pystr) option" where
  "split_prefix run =
     (case run of
        [] \<Rightarrow> None
      | c # t \<Rightarrow>
          let n = takeWhile (\<lambda>d. d \<noteq> 33) t; r = dropWhile (\<lambda>d. d \<noteq> 33) t in
          (case r of _ # h # hs \<Rightarrow> Some (c # n, h # hs) | _ \<Rightarrow> None))"

text \<open>\<open>re.match(r":(\S+?)!(\S+) PRIVMSG (\S+) :(.*)", work)\<close>: nick, target and text.\<close>

definition match_privmsg :: "pystr \<Rightarrow> (pystr \<times> pystr \<times> pystr) option" where
  "match_privmsg work =
     (case work of
        c # t \<Rightarrow>
          let who = nonspace_run t; r = drop (length who) t in
          (case split_prefix who of
             Some (nick, _) \<Rightarrow>
               if c = 58 \<and> startswith r (u '' PRIVMSG '')
               then (let r1 = drop 9 r; target = nonspace_run r1; r2 = drop (length target) r1 in
                     if target \<noteq> [] \<and> startswith r2 (u '' :'')
                     then Some (nick, target, takeWhile (\<lambda>d. d \<noteq> 10) (drop 2 r2))
                     else None)
               else None
           | None \<Rightarrow> None)
      | [] \<Rightarrow> None)"

definition intro_line :: "link \<Rightarrow> project \<Rightarrow> pystr" where
  "intro_line w p =
     (let head = or_else (git (world.truncate w) p [u ''rev-parse'', u ''--short'', u ''HEAD''])
                   (u ''?'')
      in p_accent p @ mB @ u ''['' @ p_key p @ u '']'' @ RST @ [32] @ p_emoji p @ [32] @ mB @ p_name p @
         RST @ [32] @ GREY @ u ''watching'' @ RST @ [32] @ SILVER @ p_repo p @ RST @ [32] @
         GREY @ u ''HEAD'' @ RST @ [32] @ p_accent p @ head @ RST @ [32] @ GREY @ [0xB7] @
         u '' !help'' @ RST)"

definition on_welcome :: "config \<Rightarrow> link \<Rightarrow> bot \<Rightarrow> bot" where
  "on_welcome cfg w b =
     (let b1 = send_raw w (b\<lparr>b_registered := True\<rparr>) (u ''JOIN '' @ CHANNEL cfg) False;
          b2 = (if b_intro_done b1 then b1
                else foldl (\<lambda>b p. channel_say cfg w b (intro_line w p) False)
                       (b1\<lparr>b_intro_done := True\<rparr>) PROJECTS)
      in set_topic cfg w b2)"

definition ping_token :: "pystr \<Rightarrow> pystr" where
  "ping_token work =
     (case split1 (u ''PING'') work of
        [_, r] \<Rightarrow> (let t = str_strip r in if startswith t [58] then tl t else t)
      | _ \<Rightarrow> [])"

definition sasl_plain :: "config \<Rightarrow> pystr" where
  "sasl_plain cfg =
     u (b64encode (utf8 (SASL_USER cfg @ [0] @ SASL_USER cfg @ [0] @ SASL_PASS cfg)))"

definition handle_message :: "config \<Rightarrow> link \<Rightarrow> bot \<Rightarrow> pystr \<Rightarrow> bot" where
  "handle_message cfg w b work =
     (case match_kick (b_nick b) work of
        Some chan \<Rightarrow> enqueue b (u ''JOIN '' @ chan)
      | None \<Rightarrow>
          (case match_privmsg work of
             None \<Rightarrow> b
           | Some (nick, target, txt) \<Rightarrow>
               let reply = (if target = CHANNEL cfg then CHANNEL cfg else nick) in
               if startswith txt [1] \<and> endswith txt [1]
               then ctcp w b nick (strip_by (\<lambda>c. c = 1) txt)
               else command cfg w b nick reply (str_strip txt)))"

definition handle :: "config \<Rightarrow> link \<Rightarrow> bot \<Rightarrow> pystr \<Rightarrow> bool \<Rightarrow> bot \<times> bool" where
  "handle cfg w b line joined =
     (let work = strip_tags line; parts = str_split work;
          p0 = (if length parts > 0 then parts ! 0 else []);
          p1 = (if length parts > 1 then parts ! 1 else [])
      in
      if p0 = u ''PING'' \<or> p1 = u ''PING''
      then (send_raw w b (u ''PONG :'' @ ping_token work) False, joined)
      else if length parts \<ge> 3 \<and> p1 = u ''CAP'' then (handle_cap cfg w b work parts, joined)
      else if p0 = u ''AUTHENTICATE'' \<and> length parts \<ge> 2
      then (if p1 = u ''+'' then send_raw w b (u ''AUTHENTICATE '' @ sasl_plain cfg) False else b, joined)
      else if p1 = u ''903'' then (cap_end w b, joined)
      else if p1 \<in> {u ''902'', u ''904'', u ''905'', u ''906'', u ''907''} then (cap_end w b, joined)
      else if p1 \<in> {u ''433'', u ''436''}
      then (send_raw w (b\<lparr>b_nick := b_nick b @ u ''_''\<rparr>) (u ''NICK '' @ b_nick b @ u ''_'') False, joined)
      else if p1 \<in> {u ''001'', u ''376'', u ''422''} \<and> \<not> joined then (on_welcome cfg w b, True)
      else (handle_message cfg w b work, joined))"

section \<open>Life cycle\<close>

text \<open>\<open>connect\<close>: the reset, then (when the connection succeeds) the registration burst.\<close>

definition connect_reset :: "config \<Rightarrow> link \<Rightarrow> bot \<Rightarrow> bot" where
  "connect_reset cfg w b =
     b\<lparr>b_nick := NICK cfg, b_caps := {}, b_cap_ls := {}, b_cap_ended := False,
       b_connect_ts := now w, b_sasl_active := False, b_registered := False, b_outq := [],
       b_last_topic := []\<rparr>"

definition connect :: "config \<Rightarrow> link \<Rightarrow> bot \<Rightarrow> bool \<Rightarrow> bot + bot" where
  "connect cfg w b connected =
     (let b0 = connect_reset cfg w b in
      if \<not> connected then Inl b0
      else
        let b1 = send_raw w (b0\<lparr>b_sock := True\<rparr>) (u ''CAP LS 302'') False;
            b2 = (if PASSWORD cfg \<noteq> [] then send_raw w b1 (u ''PASS '' @ PASSWORD cfg) False else b1);
            b3 = send_raw w b2 (u ''NICK '' @ b_nick b2) False
        in Inr (send_raw w b3 (u ''USER '' @ NICK cfg @
             u '' 0 * :Onyx+Onyx Server build announcer'') False))"

text \<open>\<open>while b"\r\n" in buf: raw, buf = buf.split(b"\r\n", 1)\<close>, the lines and the rest.\<close>

definition crlf :: string where
  "crlf = [CHR 0x0D, CHR 0x0A]"

function drain_buf :: "string \<Rightarrow> string \<times> string list" where
  "drain_buf buf =
     (case find_sub buf crlf of
        None \<Rightarrow> (buf, [])
      | Some i \<Rightarrow>
          (case drain_buf (drop (i + length crlf) buf) of (r, ls) \<Rightarrow> (r, take i buf # ls)))"
  by pat_completeness auto
termination
  by (relation "measure length") (auto simp: crlf_def dest: find_sub_bound)

declare drain_buf.simps [simp del]

definition recv_chunk :: "string \<Rightarrow> string \<Rightarrow> string \<times> string list" where
  "recv_chunk buf data = drain_buf (buf @ data)"

definition handle_lines :: "config \<Rightarrow> link \<Rightarrow> bot \<times> bool \<Rightarrow> string list \<Rightarrow> bot \<times> bool" where
  "handle_lines cfg w st lines =
     foldl (\<lambda>(b, joined) raw.
        case handle cfg w b (utf8_decode raw) joined of (b', j) \<Rightarrow> (b', joined \<or> j)) st lines"

text \<open>What \<open>select\<close> and \<open>recv\<close> report in one turn of \<open>loop\<close>.\<close>

datatype socket_event = Quiet | Data string

datatype loop_exit = Eof | ReadTimeout

definition keepalive :: "link \<Rightarrow> bot \<Rightarrow> bot" where
  "keepalive w b =
     (if now w - b_last_rx b > 90000 \<and> now w - b_last_keepalive b > 60000
      then send_raw w (b\<lparr>b_last_keepalive := now w\<rparr>)
             (u ''PING :ka'' @ str_of_int (int_secs (now w))) False
      else b)"

definition cap_safety_net :: "link \<Rightarrow> bot \<Rightarrow> bot" where
  "cap_safety_net w b =
     (if \<not> b_registered b \<and> \<not> b_cap_ended b \<and> now w - b_connect_ts b > 5000 then cap_end w b
      else b)"

definition heartbeat :: "config \<Rightarrow> link \<Rightarrow> bot \<Rightarrow> bool \<Rightarrow> bot" where
  "heartbeat cfg w b joined =
     (if joined \<and> now w - b_last_beat b > HEARTBEAT_SECS
      then set_topic cfg w
             (foldl (\<lambda>b p. announce cfg w b
                (stats_lines (world.truncate w) (c_items (b_cache b)) p) None)
              (b\<lparr>b_last_beat := now w\<rparr>) PROJECTS)
      else b)"

definition poll_all :: "config \<Rightarrow> link \<Rightarrow> bot \<Rightarrow> bool \<Rightarrow> bot" where
  "poll_all cfg w b joined =
     (if joined \<and> now w - b_last_poll b \<ge> POLL_SECS
      then set_topic cfg w (foldl (poll_project cfg w) (b\<lparr>b_last_poll := now w\<rparr>) PROJECTS)
      else b)"

record session =
  s_bot :: bot
  s_buf :: string
  s_joined :: bool

definition loop_start :: "link \<Rightarrow> bot \<Rightarrow> session" where
  "loop_start w b = \<lparr> s_bot = b\<lparr>b_last_rx := now w, b_last_keepalive := now w\<rparr>, s_buf = [],
     s_joined = False \<rparr>"

definition loop_turn :: "config \<Rightarrow> link \<Rightarrow> session \<Rightarrow> socket_event \<Rightarrow> loop_exit + session" where
  "loop_turn cfg w s e =
     (case (case e of
              Quiet \<Rightarrow> Inr s
            | Data d \<Rightarrow>
                if d = [] then Inl Eof
                else (let (buf, lines) = recv_chunk (s_buf s) d;
                          (b, j) = handle_lines cfg w ((s_bot s)\<lparr>b_last_rx := now w\<rparr>, s_joined s) lines
                      in Inr \<lparr> s_bot = b, s_buf = buf, s_joined = j \<rparr>)) of
        Inl x \<Rightarrow> Inl x
      | Inr s1 \<Rightarrow>
          let b1 = pump_out w (s_bot s1); j = s_joined s1 in
          if now w - b_last_rx b1 > 240000 then Inl ReadTimeout
          else Inr (s1\<lparr>s_bot := poll_all cfg w (heartbeat cfg w
                 (cap_safety_net w (keepalive w b1)) j) j\<rparr>))"

text \<open>\<open>run\<close>: the pause after one connection attempt, and the next value of \<open>backoff\<close>.\<close>

definition backoff_step :: "nat \<Rightarrow> bool \<Rightarrow> nat \<times> nat" where
  "backoff_step backoff connected =
     (let cur = (if connected then RECONNECT_MIN else backoff)
      in (cur, min (cur * 2) RECONNECT_MAX))"

fun backoff_run :: "nat \<Rightarrow> bool list \<Rightarrow> nat list" where
  "backoff_run backoff [] = []"
| "backoff_run backoff (c # cs) =
     (case backoff_step backoff c of (pause, next_b) \<Rightarrow> pause # backoff_run next_b cs)"

end
