(* ===== verification/Bot_Safety.thy ===== *)
theory Bot_Safety
  imports Bot_Core
begin

text \<open>
  What the announce bot guarantees. The first part collects facts on the guard of
  \<open>send_raw\<close>; the second proves the invariant \<open>bot_inv\<close> for every method, bottom up, and
  interprets the interface \<open>event_machine\<close> on the turns of \<open>loop\<close>; the rest are the
  behaviours of single operations.
\<close>

section \<open>Framing\<close>

lemma drain_buf_frame: "drain_buf buf = (last (split_sub crlf buf), butlast (split_sub crlf buf))"
proof (induction buf rule: drain_buf.induct)
  case (1 buf)
  show ?case
  proof (cases "find_sub buf crlf")
    case None
    then show ?thesis by (simp add: drain_buf.simps [of buf] split_sub_None)
  next
    case (Some i)
    then show ?thesis
      using "1.IH" [OF Some]
      by (simp add: drain_buf.simps [of buf] split_sub_Some crlf_def)
  qed
qed

lemma recv_chunk_frame: "recv_chunk = frame crlf"
  by (intro ext) (simp add: recv_chunk_def frame_def drain_buf_frame Let_def)

interpretation bot_recv: stream_framer recv_chunk "\<lambda>buf. \<not> contains_sub buf crlf"
  unfolding recv_chunk_frame by unfold_locales (auto simp: frame_laws crlf_def)

section \<open>Words of a line\<close>

lemma split_ws_append_spaces:
  "\<forall>c \<in> set t. P c \<Longrightarrow> split_ws P (s @ t) = split_ws P s"
proof (induction P s rule: split_ws.induct)
  case (1 P s)
  define r where "r = dropWhile P s"
  let ?Q = "\<lambda>c. \<not> P c"
  have tq: "takeWhile ?Q t = []" and dq: "dropWhile ?Q t = t"
    using "1.prems" by (cases t; simp)+
  show ?case
  proof (cases "r = []")
    case True
    then have "\<forall>c \<in> set s. P c" by (simp add: r_def)
    then show ?thesis using "1.prems" by (simp add: split_ws_spaces ball_Un)
  next
    case ne: False
    then obtain x where "x \<in> set s" "\<not> P x" by (auto simp: r_def)
    then have rt: "dropWhile P (s @ t) = r @ t" by (simp add: r_def dropWhile_append1)
    have tk: "takeWhile ?Q (r @ t) = takeWhile ?Q r"
      by (metis append_Nil2 takeWhile_append1 takeWhile_append2 takeWhile_eq_all_conv tq)
    have "split_ws P (dropWhile ?Q (r @ t)) = split_ws P (dropWhile ?Q r)"
    proof (cases "\<exists>c \<in> set r. P c")
      case True
      then obtain c where "c \<in> set r" "\<not> ?Q c" by auto
      then have "dropWhile ?Q (r @ t) = dropWhile ?Q r @ t" by (rule dropWhile_append1)
      then show ?thesis using "1.IH" [OF r_def ne "1.prems"] by simp
    next
      case False
      then have "dropWhile ?Q (r @ t) = t" "dropWhile ?Q r = []"
        using dq by (simp_all add: dropWhile_append2)
      then show ?thesis
        using "1.prems" split_ws_spaces [of t P] by (simp only: split_ws_Nil)
    qed
    then show ?thesis
      using ne tk
      by (simp add: split_ws.simps [of P "s @ t"] split_ws.simps [of P s] rt Let_def flip: r_def)
  qed
qed

lemma rstrip_by_decompose: "\<exists>t. s = rstrip_by P s @ t \<and> (\<forall>c \<in> set t. P c)"
proof -
  have "s = rev (dropWhile P (rev s)) @ rev (takeWhile P (rev s))"
    by (metis rev_append rev_rev_ident takeWhile_dropWhile_id)
  then show ?thesis unfolding rstrip_by_def by (metis set_rev set_takeWhileD)
qed

lemma split_ws_strip [simp]: "split_ws P (strip_by P s) = split_ws P s"
proof -
  obtain t where t: "dropWhile P s = rstrip_by P (dropWhile P s) @ t" "\<forall>c \<in> set t. P c"
    using rstrip_by_decompose [of "dropWhile P s" P] by blast
  have "split_ws P (rstrip_by P (dropWhile P s) @ t) = split_ws P (rstrip_by P (dropWhile P s))"
    by (rule split_ws_append_spaces [OF t(2)])
  then have "split_ws P (dropWhile P s) = split_ws P (rstrip_by P (dropWhile P s))"
    using t(1) by simp
  then show ?thesis by (simp add: strip_by_def)
qed

section \<open>The topic guard\<close>

definition plain_word :: "pystr \<Rightarrow> bool" where
  "plain_word a = (a \<noteq> [] \<and> list_all (\<lambda>c. \<not> uspace c) a \<and>
     str_upper a \<notin> {u ''TOPIC'', u ''FORCETOPIC''})"

lemma not_topic_change:
  assumes "plain_word a"
  shows "\<not> topic_change_protected (a @ 32 # s)"
proof -
  have "str_split (str_strip (a @ 32 # s)) = a # str_split s"
    using assms
    by (simp add: str_split_def str_strip_def plain_word_def list_all_iff split_ws_word
        uspace_def)
  then show ?thesis
    using assms by (auto simp: topic_change_protected_def plain_word_def split: list.splits)
qed

lemmas word_eval = plain_word_def str_upper_def upper_char_def u_def uspace_def

lemma plain_words [simp]:
  "plain_word (u ''PRIVMSG'')" "plain_word (u ''NOTICE'')" "plain_word (u ''JOIN'')"
  "plain_word (u ''PONG'')" "plain_word (u ''PING'')" "plain_word (u ''NICK'')"
  "plain_word (u ''USER'')" "plain_word (u ''PASS'')" "plain_word (u ''CAP'')"
  "plain_word (u ''AUTHENTICATE'')"
  by (simp_all add: word_eval)

lemma u_append: "u (x @ y) = u x @ u y"
  by (simp add: u_def)

lemma lead_words:
  "u ''PRIVMSG '' @ s = u ''PRIVMSG'' @ 32 # s" "u ''NOTICE '' @ s = u ''NOTICE'' @ 32 # s"
  "u ''JOIN '' @ s = u ''JOIN'' @ 32 # s" "u ''PONG :'' @ s = u ''PONG'' @ 32 # 58 # s"
  "u ''PING :ka'' @ s = u ''PING'' @ 32 # 58 # 107 # 97 # s"
  "u ''NICK '' @ s = u ''NICK'' @ 32 # s" "u ''USER '' @ s = u ''USER'' @ 32 # s"
  "u ''PASS '' @ s = u ''PASS'' @ 32 # s"
  "u ''CAP REQ :'' @ s = u ''CAP'' @ 32 # u ''REQ :'' @ s"
  "u ''CAP END'' = u ''CAP'' @ 32 # u ''END''" "u ''CAP LS 302'' = u ''CAP'' @ 32 # u ''LS 302''"
  "u ''AUTHENTICATE '' @ s = u ''AUTHENTICATE'' @ 32 # s"
  "u ''AUTHENTICATE PLAIN'' = u ''AUTHENTICATE'' @ 32 # u ''PLAIN''"
  by (simp_all add: u_def)

section \<open>The invariant\<close>

definition own_topic :: "config \<Rightarrow> pystr \<Rightarrow> bool" where
  "own_topic cfg l = (\<exists>t. l = u ''TOPIC '' @ CHANNEL cfg @ u '' :'' @ t @ u ''!help'')"

definition topic_ok :: "config \<Rightarrow> pystr list \<Rightarrow> bool" where
  "topic_ok cfg ls = (\<forall>l \<in> set ls. topic_change_protected l \<longrightarrow> own_topic cfg l)"

definition queued_form :: "pystr \<Rightarrow> bool" where
  "queued_form l = (\<exists>s. l = u ''PRIVMSG '' @ s \<or> l = u ''NOTICE '' @ s \<or> l = u ''JOIN '' @ s)"

definition cap_ends :: "pystr list \<Rightarrow> nat" where
  "cap_ends ls = length (filter (\<lambda>l. l = u ''CAP END'') ls)"

text \<open>\<open>base\<close> counts the \<open>CAP END\<close> lines already sent when the connection started.\<close>

definition bot_inv :: "config \<Rightarrow> nat \<Rightarrow> bot \<Rightarrow> bool" where
  "bot_inv cfg base b =
     (topic_ok cfg (b_wire b) \<and> list_all queued_form (b_outq b) \<and>
      (ADMIN cfg = [] \<longrightarrow> cap_ends (b_wire b) \<le> base + (if b_cap_ended b then 1 else 0)))"

lemma bot_inv_fields [simp]:
  "bot_inv cfg n (b\<lparr>b_nick := nk\<rparr>) = bot_inv cfg n b"
  "bot_inv cfg n (b\<lparr>b_last_commit := lc\<rparr>) = bot_inv cfg n b"
  "bot_inv cfg n (b\<lparr>b_last_tests := lt\<rparr>) = bot_inv cfg n b"
  "bot_inv cfg n (b\<lparr>b_last_beat := i\<rparr>) = bot_inv cfg n b"
  "bot_inv cfg n (b\<lparr>b_last_poll := i\<rparr>) = bot_inv cfg n b"
  "bot_inv cfg n (b\<lparr>b_last_topic := tp\<rparr>) = bot_inv cfg n b"
  "bot_inv cfg n (b\<lparr>b_last_send := i\<rparr>) = bot_inv cfg n b"
  "bot_inv cfg n (b\<lparr>b_caps := cs\<rparr>) = bot_inv cfg n b"
  "bot_inv cfg n (b\<lparr>b_cap_ls := cs\<rparr>) = bot_inv cfg n b"
  "bot_inv cfg n (b\<lparr>b_sasl_active := x\<rparr>) = bot_inv cfg n b"
  "bot_inv cfg n (b\<lparr>b_registered := x\<rparr>) = bot_inv cfg n b"
  "bot_inv cfg n (b\<lparr>b_last_rx := i\<rparr>) = bot_inv cfg n b"
  "bot_inv cfg n (b\<lparr>b_last_keepalive := i\<rparr>) = bot_inv cfg n b"
  "bot_inv cfg n (b\<lparr>b_intro_done := x\<rparr>) = bot_inv cfg n b"
  "bot_inv cfg n (b\<lparr>b_cache := c\<rparr>) = bot_inv cfg n b"
  by (simp_all add: bot_inv_def)

lemma if_inv:
  "(c \<Longrightarrow> bot_inv cfg n x) \<Longrightarrow> (\<not> c \<Longrightarrow> bot_inv cfg n y) \<Longrightarrow>
   bot_inv cfg n (if c then x else y)"
  by simp

lemma case_list_inv:
  "bot_inv cfg n x \<Longrightarrow> (\<And>a l. bot_inv cfg n (f a l)) \<Longrightarrow>
   bot_inv cfg n (case xs of [] \<Rightarrow> x | a # l \<Rightarrow> f a l)"
  by (cases xs) auto

lemma send_raw_inv:
  "bot_inv cfg n b \<Longrightarrow> ADMIN cfg \<noteq> [] \<or> line \<noteq> u ''CAP END'' \<Longrightarrow>
   bot_inv cfg n (send_raw w b line False)"
  by (auto simp: send_raw_def bot_inv_def topic_ok_def cap_ends_def)

lemma u_not_CAP_END:
  "u ''PRIVMSG '' @ s \<noteq> u ''CAP END''" "u ''NOTICE '' @ s \<noteq> u ''CAP END''"
  "u ''JOIN '' @ s \<noteq> u ''CAP END''" "u ''PONG :'' @ s \<noteq> u ''CAP END''"
  "u ''PING :ka'' @ s \<noteq> u ''CAP END''" "u ''NICK '' @ s \<noteq> u ''CAP END''"
  "u ''USER '' @ s \<noteq> u ''CAP END''" "u ''PASS '' @ s \<noteq> u ''CAP END''"
  "u ''CAP REQ :'' @ s \<noteq> u ''CAP END''" "u ''CAP LS 302'' \<noteq> u ''CAP END''"
  "u ''AUTHENTICATE '' @ s \<noteq> u ''CAP END''" "u ''AUTHENTICATE PLAIN'' \<noteq> u ''CAP END''"
  "u ''TOPIC '' @ s \<noteq> u ''CAP END''"
  by (simp_all add: u_def)

lemma queued_form_not_CAP_END: "queued_form l \<Longrightarrow> l \<noteq> u ''CAP END''"
  by (auto simp: queued_form_def u_not_CAP_END [symmetric])

lemma enqueue_inv: "bot_inv cfg n b \<Longrightarrow> queued_form line \<Longrightarrow> bot_inv cfg n (enqueue b line)"
  by (simp add: enqueue_def bot_inv_def)

lemma msg_inv: "bot_inv cfg n b \<Longrightarrow> bot_inv cfg n (msg b t s)"
  unfolding msg_def by (auto intro!: enqueue_inv simp: queued_form_def)

lemma notice_inv: "bot_inv cfg n b \<Longrightarrow> bot_inv cfg n (notice b t s)"
  unfolding notice_def by (auto intro!: enqueue_inv simp: queued_form_def)

lemma channel_say_inv: "bot_inv cfg n b \<Longrightarrow> bot_inv cfg n (channel_say cfg w b t i)"
  unfolding channel_say_def Let_def
  by (auto intro!: enqueue_inv send_raw_inv simp: queued_form_def u_not_CAP_END)

lemma channel_notice_inv: "bot_inv cfg n b \<Longrightarrow> bot_inv cfg n (channel_notice cfg b t)"
  unfolding channel_notice_def by (auto intro!: enqueue_inv simp: queued_form_def)

lemma foldl_inv:
  "(\<And>b x. I b \<Longrightarrow> I (f b x)) \<Longrightarrow> I b \<Longrightarrow> I (foldl f b xs)"
  by (induction xs arbitrary: b) auto

lemma announce_inv: "bot_inv cfg n b \<Longrightarrow> bot_inv cfg n (announce cfg w b ls t)"
  unfolding announce_def Let_def
  by (auto split: list.split option.split intro!: foldl_inv [where I = "bot_inv cfg n"]
      channel_say_inv msg_inv)

lemma pump_out_inv: "bot_inv cfg n b \<Longrightarrow> bot_inv cfg n (pump_out w b)"
proof (cases "b_outq b")
  case (Cons l ls)
  assume inv: "bot_inv cfg n b"
  with Cons have "bot_inv cfg n (b\<lparr>b_outq := ls\<rparr>)" "queued_form l"
    by (auto simp: bot_inv_def)
  then have "bot_inv cfg n (send_raw w (b\<lparr>b_outq := ls\<rparr>) l False)"
    by (intro send_raw_inv) (auto dest: queued_form_not_CAP_END)
  with inv Cons show ?thesis by (simp add: pump_out_def)
qed (simp add: pump_out_def)

lemma set_topic_inv: "bot_inv cfg n b \<Longrightarrow> bot_inv cfg n (set_topic cfg w b)"
  unfolding set_topic_def Let_def send_raw_def
  by (auto simp: bot_inv_def topic_ok_def cap_ends_def own_topic_def u_not_CAP_END)

lemma tests_delta_inv: "bot_inv cfg n b \<Longrightarrow> bot_inv cfg n (fst (tests_delta b p tc))"
  by (auto simp: tests_delta_def Let_def split: option.split)

lemma commit_lines_inv:
  "bot_inv cfg n b \<Longrightarrow> bot_inv cfg n (fst (commit_lines w b p rv tc d))"
  using tests_delta_inv [of cfg n b p tc]
  by (simp add: commit_lines_def Let_def case_prod_unfold)

lemma announce_revs_inv:
  "bot_inv cfg n b \<Longrightarrow> bot_inv cfg n (announce_revs cfg w b p tc rvs)"
proof (induction rvs arbitrary: b)
  case (Cons rv rvs)
  obtain b' lines where c: "commit_lines w b p rv tc (rvs = []) = (b', lines)" by fastforce
  with commit_lines_inv [OF Cons.prems, of w p rv tc "rvs = []"] have "bot_inv cfg n b'" by simp
  then show ?case using c by (simp add: Cons.IH announce_inv)
qed simp

lemma poll_project_inv: "bot_inv cfg n b \<Longrightarrow> bot_inv cfg n (poll_project cfg w b p)"
  unfolding poll_project_def Let_def
  by (auto intro!: set_topic_inv announce_revs_inv channel_notice_inv)

lemma cap_end_inv: "bot_inv cfg n b \<Longrightarrow> bot_inv cfg n (cap_end w b)"
proof -
  have "\<not> topic_change_protected (u ''CAP END'')"
    unfolding lead_words by (rule not_topic_change) simp
  then show "bot_inv cfg n b \<Longrightarrow> bot_inv cfg n (cap_end w b)"
    by (cases "b_cap_ended b")
      (auto simp: cap_end_def send_raw_def bot_inv_def topic_ok_def cap_ends_def)
qed

lemma handle_cap_inv: "bot_inv cfg n b \<Longrightarrow> bot_inv cfg n (handle_cap cfg w b line parts)"
  unfolding handle_cap_def Let_def
  by (auto intro!: cap_end_inv send_raw_inv simp: u_not_CAP_END)

lemma ctcp_inv: "bot_inv cfg n b \<Longrightarrow> bot_inv cfg n (ctcp w b nick body)"
  unfolding ctcp_def Let_def by (auto intro!: notice_inv)

lemma project_command_inv:
  "bot_inv cfg n b \<Longrightarrow> bot_inv cfg n (project_command cfg w cmd reply b p)"
  unfolding project_command_def Let_def
  by (intro if_inv case_list_inv announce_inv msg_inv)

lemma admin_command_inv:
  "ADMIN cfg \<noteq> [] \<Longrightarrow> bot_inv cfg n b \<Longrightarrow> bot_inv cfg n (admin_command cfg w b nick cmd arg)"
  unfolding admin_command_def
  by (auto intro!: msg_inv notice_inv send_raw_inv split: prod.split)

lemma command_inv: "bot_inv cfg n b \<Longrightarrow> bot_inv cfg n (command cfg w b nick reply t)"
  unfolding command_def Let_def
  by (auto intro!: msg_inv notice_inv admin_command_inv project_command_inv
      foldl_inv [where I = "bot_inv cfg n"] split: prod.split option.split)

lemma handle_message_inv: "bot_inv cfg n b \<Longrightarrow> bot_inv cfg n (handle_message cfg w b work)"
  unfolding handle_message_def Let_def
  by (auto intro!: enqueue_inv ctcp_inv command_inv simp: queued_form_def
      split: option.split prod.split)

lemma on_welcome_inv: "bot_inv cfg n b \<Longrightarrow> bot_inv cfg n (on_welcome cfg w b)"
  unfolding on_welcome_def Let_def
  by (auto intro!: set_topic_inv channel_say_inv send_raw_inv
      foldl_inv [where I = "bot_inv cfg n"] simp: u_not_CAP_END)

lemma handle_inv: "bot_inv cfg n b \<Longrightarrow> bot_inv cfg n (fst (handle cfg w b line joined))"
  unfolding handle_def Let_def if_distrib [of fst] fst_conv
  by (intro if_inv handle_cap_inv cap_end_inv on_welcome_inv handle_message_inv send_raw_inv)
    (simp_all add: u_not_CAP_END)

lemma handle_lines_inv:
  "bot_inv cfg n (fst st) \<Longrightarrow> bot_inv cfg n (fst (handle_lines cfg w st lines))"
proof (induction lines arbitrary: st)
  case (Cons raw lines)
  then show ?case
    using handle_inv [of cfg n "fst st" w "utf8_decode raw" "snd st"]
    by (cases st) (auto simp: handle_lines_def split: prod.split)
qed (simp add: handle_lines_def)

lemma keepalive_inv: "bot_inv cfg n b \<Longrightarrow> bot_inv cfg n (keepalive w b)"
  unfolding keepalive_def by (auto intro!: send_raw_inv simp: u_not_CAP_END)

lemma cap_safety_net_inv: "bot_inv cfg n b \<Longrightarrow> bot_inv cfg n (cap_safety_net w b)"
  unfolding cap_safety_net_def by (auto intro!: cap_end_inv)

lemma heartbeat_inv: "bot_inv cfg n b \<Longrightarrow> bot_inv cfg n (heartbeat cfg w b j)"
  unfolding heartbeat_def
  by (auto intro!: set_topic_inv foldl_inv [where I = "bot_inv cfg n"] announce_inv)

lemma poll_all_inv: "bot_inv cfg n b \<Longrightarrow> bot_inv cfg n (poll_all cfg w b j)"
  unfolding poll_all_def
  by (auto intro!: set_topic_inv foldl_inv [where I = "bot_inv cfg n"] poll_project_inv)

lemma connect_reset_inv:
  "topic_ok cfg (b_wire b) \<Longrightarrow> bot_inv cfg (cap_ends (b_wire b)) (connect_reset cfg w b)"
  by (simp add: bot_inv_def connect_reset_def)

lemma connect_inv:
  assumes "topic_ok cfg (b_wire b0)" "connect cfg w b0 True = Inr b"
  shows "bot_inv cfg (cap_ends (b_wire b0)) b"
proof -
  have "bot_inv cfg (cap_ends (b_wire b0)) ((connect_reset cfg w b0)\<lparr>b_sock := True\<rparr>)"
    using connect_reset_inv [OF assms(1), of w] by (simp add: bot_inv_def)
  then show ?thesis
    using assms(2) by (auto simp: connect_def Let_def u_not_CAP_END intro!: send_raw_inv)
qed

definition turn :: "config \<Rightarrow> session \<Rightarrow> link \<times> socket_event \<Rightarrow> session option" where
  "turn cfg s e = (case loop_turn cfg (fst e) s (snd e) of Inl _ \<Rightarrow> None | Inr t \<Rightarrow> Some t)"

lemma recv_inv:
  assumes "bot_inv cfg n (s_bot s)"
    "handle_lines cfg w ((s_bot s)\<lparr>b_last_rx := now w\<rparr>, s_joined s) lines = (b, j)"
  shows "bot_inv cfg n b"
  using handle_lines_inv [of cfg n "((s_bot s)\<lparr>b_last_rx := now w\<rparr>, s_joined s)" w lines] assms
  by simp

lemma loop_turn_inv:
  assumes "bot_inv cfg n (s_bot s)" "loop_turn cfg w s e = Inr t"
  shows "bot_inv cfg n (s_bot t)"
proof -
  have tail: "bot_inv cfg n (poll_all cfg w (heartbeat cfg w
      (cap_safety_net w (keepalive w (pump_out w b))) j) j)" if "bot_inv cfg n b" for b j
    by (intro poll_all_inv heartbeat_inv cap_safety_net_inv keepalive_inv pump_out_inv that)
  show ?thesis
  proof (cases e)
    case Quiet
    then show ?thesis
      using assms tail by (auto simp: loop_turn_def Let_def split: if_splits)
  next
    case (Data d)
    then show ?thesis
      using assms tail recv_inv [OF assms(1)]
      by (auto simp: loop_turn_def Let_def split: if_splits prod.splits)
  qed
qed

interpretation bot_loop: event_machine "turn cfg" "\<lambda>s. bot_inv cfg n (s_bot s)"
  by unfold_locales (auto simp: turn_def split: sum.splits intro: loop_turn_inv)

end
