(* ===== verification/Bot_Props.thy ===== *)
theory Bot_Props
  imports Bot_Safety
begin

text \<open>
  The properties of the announce bot, stated over the definitions of \<open>Bot_Text\<close>,
  \<open>Bot_Project\<close>, \<open>Bot_Inventory\<close>, \<open>Text_Codecs\<close> and \<open>Bot_Core\<close>, each with a witness at
  a concrete input. \<open>demo_cfg\<close> and \<open>demo_link\<close> are the configuration with no environment
  variables set and a world in which every program fails and every send succeeds.
\<close>

definition demo_cfg :: config where
  "demo_cfg = \<lparr> SERVER = u ''127.0.0.1'', PORT = 6667, NICK = u ''Announce'', CHANNEL = u ''#root'',
     ADMIN = [], PASSWORD = [], SASL_USER = [], SASL_PASS = [] \<rparr>"

definition demo_link :: link where
  "demo_link = \<lparr> run_git = (\<lambda>_ _. None), run_shell = (\<lambda>_ _. None), isdir = (\<lambda>_. False),
     now = 1000, started_at = 0, strftime_now = [], sendall_ok = (\<lambda>_. True) \<rparr>"

definition demo_bot :: bot where
  "demo_bot = bot_init demo_cfg (world.truncate demo_link) (cache_init PROJECTS)"

definition demo_session :: session where
  "demo_session = loop_start demo_link
     (case connect demo_cfg demo_link demo_bot True of Inl b \<Rightarrow> b | Inr b \<Rightarrow> b)"

definition demo_welcome :: "(link \<times> socket_event) list" where
  "demo_welcome = [(demo_link, Data ('':s CAP * LS :x'' @ crlf @ '':s 001 a'' @ crlf))]"

definition demo_topic :: pystr where
  "demo_topic = u ''TOPIC #root :Onyx '' @ [0xB7] @ u ''  '' @ [0xB7] @ u '' inventory updating  '' @
     [0x2758] @ u ''  Onyx Server '' @ [0xB7] @ u ''  '' @ [0xB7] @ u '' inventory updating  '' @
     [0x2758] @ u ''  !help''"

lemma load_config_default: "load_config Map.empty = Some demo_cfg"
  by (simp add: load_config_def demo_cfg_def env_get_def str_int_def int_of_def strip_by_def
      rstrip_by_def uspace_def udigit_def u_def)

section \<open>Text\<close>

text \<open>C2: With a limit of at least four bytes, \<open>split_text\<close> cuts a non-empty message into
  non-empty chunks of at most \<open>limit\<close> UTF-8 bytes each, and the chunks together hold every
  code point of the message but the spaces, in order: nothing is lost or repeated.\<close>

theorem split_text_correct:
  assumes "4 \<le> limit" and "s \<noteq> []"
  shows "(\<forall>c \<in> set (split_text s limit). c \<noteq> [] \<and> byte_len c \<le> limit) \<and>
    ink (concat (split_text s limit)) = ink s"
  using split_text_bound [OF assms(1), of _ s] split_text_nonempty [OF assms]
  by (auto simp: split_text_ink)

theorem split_text_correct_witness:
  "4 \<le> (8 :: nat) \<and> u ''ab wide-worded cd'' \<noteq> [] \<and>
   split_text (u ''ab wide-worded cd'') 8 = [u ''ab'', u ''wide-wor'', u ''ded cd''] \<and>
   list_all (\<lambda>c. c \<noteq> [] \<and> byte_len c \<le> 8) (split_text (u ''ab wide-worded cd'') 8) \<and>
   ink (concat (split_text (u ''ab wide-worded cd'') 8)) = ink (u ''ab wide-worded cd'')"
proof -
  have h: "4 \<le> (8 :: nat)" "u ''ab wide-worded cd'' \<noteq> []" by (simp_all add: u_def)
  have e: "split_text (u ''ab wide-worded cd'') 8 = [u ''ab'', u ''wide-wor'', u ''ded cd'']"
    by code_simp
  show ?thesis using h e split_text_correct [OF h] unfolding list_all_iff by blast
qed

text \<open>\<open>compact\<close> renders any lines as chunks that are never empty and never exceed the limit.\<close>

theorem compact_bound:
  assumes "4 \<le> limit" and "c \<in> set (compact lines limit)"
  shows "c \<noteq> [] \<and> byte_len c \<le> limit"
proof -
  have step: "chunks_ok limit (foldl (pack_step limit) st (split_text l limit))"
    if "chunks_ok limit st" for st l
    by (rule foldl_chunks_ok [where Q = "\<lambda>p. byte_len p \<le> limit"])
      (use that assms(1) in \<open>auto intro: pack_step_ok split_text_bound\<close>)
  have "chunks_ok limit (foldl (\<lambda>st l. foldl (pack_step limit) st (split_text l limit))
      ([], []) (clean_lines lines))"
    by (rule foldl_chunks_ok [where Q = "\<lambda>_. True"]) (auto intro: step chunks_ok_init)
  with assms(2) show ?thesis by (auto simp: compact_def dest: flush_ok)
qed

theorem compact_bound_witness:
  "4 \<le> (9 :: nat) \<and> u ''de'' \<in> set (compact [u '' ab  c '', u ''de''] 9) \<and>
   u ''de'' \<noteq> [] \<and> byte_len (u ''de'') \<le> 9"
proof -
  have h: "4 \<le> (9 :: nat)" by simp
  have m: "u ''de'' \<in> set (compact [u '' ab  c '', u ''de''] 9)" by code_simp
  show ?thesis using h m compact_bound [OF h m] by blast
qed

text \<open>The line \<open>channel_say\<close> emits, with its CR LF, is at most 372 bytes longer than the
  channel name, so it fits the 512 bytes of an IRC line for a channel of up to 140 bytes; the
  truncation loop always ends, and a text within the budget is sent unchanged.\<close>

theorem channel_say_budget:
  assumes "str_strip s \<noteq> []"
  shows "\<exists>t. b_outq (channel_say cfg w b s False) = b_outq b @ [u ''PRIVMSG '' @ CHANNEL cfg @ u '' :'' @ t]
    \<and> byte_len (u ''PRIVMSG '' @ CHANNEL cfg @ u '' :'' @ t @ [13, 10]) \<le> 372 + byte_len (CHANNEL cfg)
    \<and> t \<noteq> [] \<and> (byte_len (str_strip s) \<le> MAX_MESSAGE_TEXT_BYTES \<longrightarrow> t = str_strip s)"
proof -
  let ?t = "truncate_text (str_strip s)"
  have "byte_len (u ''PRIVMSG '') = 8" "byte_len (u '' :'') = 2" "byte_len [13, 10] = 2"
    by (simp_all add: byte_len_alt u_def utf8_char_def)
  then have "byte_len (u ''PRIVMSG '' @ CHANNEL cfg @ u '' :'' @ ?t @ [13, 10])
      \<le> 372 + byte_len (CHANNEL cfg)"
    using truncate_text_bound [of "str_strip s"]
    by (simp add: byte_len_simps MAX_MESSAGE_TEXT_BYTES_def)
  moreover have "?t \<noteq> []" by (rule truncate_text_not_Nil [OF assms])
  ultimately show ?thesis
    using assms by (auto simp: channel_say_def Let_def enqueue_def truncate_text_short)
qed

theorem channel_say_budget_witness:
  "str_strip (u '' hi '') \<noteq> [] \<and>
   (\<exists>t. b_outq (channel_say demo_cfg demo_link demo_bot (u '' hi '') False) =
      b_outq demo_bot @ [u ''PRIVMSG '' @ CHANNEL demo_cfg @ u '' :'' @ t] \<and>
    byte_len (u ''PRIVMSG '' @ CHANNEL demo_cfg @ u '' :'' @ t @ [13, 10])
      \<le> 372 + byte_len (CHANNEL demo_cfg) \<and> t \<noteq> [] \<and>
    (byte_len (str_strip (u '' hi '')) \<le> MAX_MESSAGE_TEXT_BYTES \<longrightarrow> t = str_strip (u '' hi '')))"
proof -
  have h: "str_strip (u '' hi '') \<noteq> []" by code_simp
  show ?thesis using h channel_say_budget [OF h] by blast
qed

section \<open>Codecs\<close>

text \<open>Decoding with replacement inverts UTF-8 encoding on every text of Unicode scalar
  values, so a line the bot sends is the line a UTF-8 reader receives.\<close>

lemma utf8_round_trip: "list_all scalar s \<Longrightarrow> utf8_decode (utf8 s) = s"
proof -
  assume s: "list_all scalar s"
  have "of_char (char_of b) = b" if "b \<in> set (concat (map utf8_char s))" for b :: nat
    using that s utf8_char_bytes [of _ b] by (auto simp: list_all_iff)
  then have "map of_char (utf8 s) = concat (map utf8_char s)"
    unfolding utf8_def map_map by (intro map_idI) simp
  then show ?thesis using utf8_decode_concat [OF s] by (simp add: utf8_decode_def)
qed

lemma utf8_round_trip_witness:
  "list_all scalar [72, 0xE9, 0x20AC, 0x1F409] \<and>
   utf8_decode (utf8 [72, 0xE9, 0x20AC, 0x1F409]) = [72, 0xE9, 0x20AC, 0x1F409]"
proof -
  have h: "list_all scalar [72, 0xE9, 0x20AC, 0x1F409]" by (simp add: scalar_def)
  show ?thesis using h utf8_round_trip [OF h] by blast
qed

text \<open>The SASL PLAIN response decodes to the user name twice and the password, separated
  by NUL bytes, in UTF-8.\<close>

theorem sasl_plain_decodes:
  "b64decode (map char_of (sasl_plain cfg)) =
     Some (utf8 (SASL_USER cfg @ [0] @ SASL_USER cfg @ [0] @ SASL_PASS cfg))"
  by (simp add: sasl_plain_def u_def comp_def b64_decode_encode)

section \<open>The line handler\<close>










text \<open>C1: From a successful connect on, whatever the server sends and whatever commands users
  and the administrator give, a line that changes the topic of a protected channel reaches the
  socket only if it is the bot's own status topic.\<close>

theorem protected_topic_guarded:
  assumes "connect cfg w b0 True = Inr b" "b_wire b0 = []"
    and "run_events (turn cfg) (loop_start w' b) es = Some s"
    and "l \<in> set (b_wire (s_bot s))" "topic_change_protected l"
  shows "\<exists>t. l = u ''TOPIC '' @ CHANNEL cfg @ u '' :'' @ t @ u ''!help''"
proof -
  have "bot_inv cfg 0 b"
    using connect_inv [OF _ assms(1)] assms(2) by (simp add: topic_ok_def cap_ends_def)
  then have "bot_inv cfg 0 (s_bot (loop_start w' b))" by (simp add: loop_start_def)
  then have "bot_inv cfg 0 (s_bot s)" using bot_loop.run_good assms(3) by blast
  with assms(4,5) show ?thesis by (auto simp: bot_inv_def topic_ok_def own_topic_def)
qed

lemma demo_connected:
  "\<exists>b. connect demo_cfg demo_link demo_bot True = Inr b \<and> demo_session = loop_start demo_link b"
  by (simp add: connect_def Let_def demo_session_def)

lemma demo_run_eval:
  "map_option (\<lambda>s. (b_wire (s_bot s), s_joined s)) (run_events (turn demo_cfg) demo_session demo_welcome) =
   Some ([u ''CAP LS 302'', u ''NICK Announce'',
          u ''USER Announce 0 * :Onyx+Onyx Server build announcer'', u ''CAP END'',
          u ''JOIN #root'', demo_topic,
          u ''PRIVMSG #root :'' @ truncate_text (str_strip (intro_line demo_link ONYX))], True)"
  by code_simp

lemma demo_run:
  "\<exists>s. run_events (turn demo_cfg) demo_session demo_welcome = Some s \<and>
     demo_topic \<in> set (b_wire (s_bot s))"
  using demo_run_eval by auto

theorem protected_topic_guarded_witness:
  "topic_change_protected demo_topic \<and>
   (\<exists>s. run_events (turn demo_cfg) demo_session demo_welcome = Some s \<and>
      demo_topic \<in> set (b_wire (s_bot s))) \<and>
   (\<exists>t. demo_topic = u ''TOPIC '' @ CHANNEL demo_cfg @ u '' :'' @ t @ u ''!help'')"
proof -
  have p: "topic_change_protected demo_topic" by code_simp
  obtain b where b: "connect demo_cfg demo_link demo_bot True = Inr b"
    "demo_session = loop_start demo_link b"
    using demo_connected by blast
  obtain s where s: "run_events (turn demo_cfg) (loop_start demo_link b) demo_welcome = Some s"
    "demo_topic \<in> set (b_wire (s_bot s))"
    using demo_run b(2) by auto
  have "b_wire demo_bot = []" by (simp add: demo_bot_def bot_init_def)
  from protected_topic_guarded [OF b(1) this s p] show ?thesis using p s b(2) by auto
qed



definition ls_continued :: "pystr \<Rightarrow> bool" where
  "ls_continued l = (let p = str_split l in length p > 4 \<and> p ! 3 = u ''LS'' \<and> p ! 4 = u ''*'')"

definition ls_final :: "pystr \<Rightarrow> bool" where
  "ls_final l = (let p = str_split l in
     length p > 3 \<and> p ! 3 = u ''LS'' \<and> \<not> (length p > 4 \<and> p ! 4 = u ''*''))"

definition offered_names :: "pystr \<Rightarrow> pystr set" where
  "offered_names l = (\<lambda>o'. hd (split_sub (u ''='') o')) ` set (cap_offered l)"

definition handle_ls :: "config \<Rightarrow> link \<Rightarrow> bot \<Rightarrow> pystr \<Rightarrow> bot" where
  "handle_ls cfg w b l = handle_cap cfg w b l (str_split l)"

lemma handle_ls_continued:
  "ls_continued l \<Longrightarrow> handle_ls cfg w b l = b\<lparr>b_cap_ls := b_cap_ls b \<union> offered_names l\<rparr>"
  by (auto simp: ls_continued_def handle_ls_def handle_cap_def Let_def offered_names_def)

lemma handle_ls_continued_lines:
  "list_all ls_continued ls \<Longrightarrow>
   foldl (handle_ls cfg w) b ls = b\<lparr>b_cap_ls := b_cap_ls b \<union> (\<Union>l \<in> set ls. offered_names l)\<rparr>"
  by (induction ls arbitrary: b) (auto simp: handle_ls_continued Un_assoc)

lemma handle_ls_final:
  "ls_final l \<Longrightarrow> handle_ls cfg w b l =
    (let b1 = b\<lparr>b_cap_ls := b_cap_ls b \<union> offered_names l\<rparr>; want = want_caps cfg (b_cap_ls b1) in
      if want \<noteq> [] then send_raw w b1 (u ''CAP REQ :'' @ join [32] want) False else cap_end w b1)"
  by (auto simp: ls_final_def handle_ls_def handle_cap_def offered_names_def Let_def)

text \<open>While a capability list is continued over several lines the bot sends nothing; on the
  last line it either requests, in one sorted line, exactly the capabilities it wants among those
  offered on all the lines (and \<open>sasl\<close> when a SASL user is configured), or, when there are none,
  ends the negotiation.\<close>

theorem cap_ls_decision:
  assumes "b_sock b" "\<forall>l. sendall_ok w l" "\<not> b_cap_ended b"
    and "list_all ls_continued cont" "ls_final line"
  shows "b_wire (foldl (handle_ls cfg w) b cont) = b_wire b \<and>
    (\<exists>want. sorted want \<and> distinct want \<and>
      set want = {c. (c \<in> set WANT_CAPS \<or> c = u ''sasl'' \<and> SASL_USER cfg \<noteq> []) \<and>
        (c \<in> b_cap_ls b \<or> (\<exists>l \<in> set (cont @ [line]). c \<in> offered_names l))} \<and>
      b_wire (foldl (handle_ls cfg w) b (cont @ [line])) = b_wire b @
        [if want = [] then u ''CAP END'' else u ''CAP REQ :'' @ join [32] want])"
proof -
  define ls where "ls = b_cap_ls b \<union> (\<Union>l \<in> set cont. offered_names l) \<union> offered_names line"
  have d: "distinct WANT_CAPS" "u ''sasl'' \<notin> set WANT_CAPS"
    by (simp_all add: WANT_CAPS_def u_def)
  have ntc: "\<not> topic_change_protected (u ''CAP END'')"
    "\<not> topic_change_protected (u ''CAP REQ :'' @ r)" for r
    unfolding lead_words by (rule not_topic_change, simp)+
  have "foldl (handle_ls cfg w) b (cont @ [line]) =
      (let b1 = b\<lparr>b_cap_ls := ls\<rparr>; want = want_caps cfg ls in
       if want \<noteq> [] then send_raw w b1 (u ''CAP REQ :'' @ join [32] want) False else cap_end w b1)"
    using assms(4,5) by (simp add: handle_ls_continued_lines handle_ls_final ls_def)
  then have "b_wire (foldl (handle_ls cfg w) b (cont @ [line])) = b_wire b @
      [if want_caps cfg ls = [] then u ''CAP END'' else u ''CAP REQ :'' @ join [32] (want_caps cfg ls)]"
    using assms(1-3) ntc by (auto simp: Let_def send_raw_def cap_end_def)
  moreover have "sorted (want_caps cfg ls)" "distinct (want_caps cfg ls)"
    "set (want_caps cfg ls) = {c. (c \<in> set WANT_CAPS \<or> c = u ''sasl'' \<and> SASL_USER cfg \<noteq> []) \<and>
      (c \<in> b_cap_ls b \<or> (\<exists>l \<in> set (cont @ [line]). c \<in> offered_names l))}"
    using d by (auto simp: want_caps_def ls_def)
  moreover have "b_wire (foldl (handle_ls cfg w) b cont) = b_wire b"
    using assms(4) by (simp add: handle_ls_continued_lines)
  ultimately show ?thesis by blast
qed

definition demo_ls :: "pystr list" where
  "demo_ls = [u '':s CAP * LS * :batch=1 sasl'']"

definition demo_ls_last :: pystr where
  "demo_ls_last = u '':s CAP * LS :server-time''"

theorem cap_ls_decision_witness:
  "let b = demo_bot\<lparr>b_sock := True\<rparr> in
   \<not> b_cap_ended b \<and> list_all ls_continued demo_ls \<and> ls_final demo_ls_last \<and>
   b_wire (foldl (handle_ls demo_cfg demo_link) b demo_ls) = [] \<and>
   (\<exists>want. sorted want \<and> distinct want \<and>
      set want = {c. (c \<in> set WANT_CAPS \<or> c = u ''sasl'' \<and> SASL_USER demo_cfg \<noteq> []) \<and>
        (c \<in> b_cap_ls b \<or> (\<exists>l \<in> set (demo_ls @ [demo_ls_last]). c \<in> offered_names l))} \<and>
      b_wire (foldl (handle_ls demo_cfg demo_link) b (demo_ls @ [demo_ls_last])) = b_wire b @
        [if want = [] then u ''CAP END'' else u ''CAP REQ :'' @ join [32] want])"
proof -
  have "list_all ls_continued demo_ls" "ls_final demo_ls_last" by code_simp+
  moreover have "b_sock (demo_bot\<lparr>b_sock := True\<rparr>)" "\<not> b_cap_ended (demo_bot\<lparr>b_sock := True\<rparr>)"
    "b_wire (demo_bot\<lparr>b_sock := True\<rparr>) = []" "\<forall>l. sendall_ok demo_link l"
    by (simp_all add: demo_bot_def bot_init_def demo_link_def)
  ultimately show ?thesis
    using cap_ls_decision [of "demo_bot\<lparr>b_sock := True\<rparr>" demo_link demo_ls demo_ls_last demo_cfg]
    unfolding Let_def by simp
qed














section \<open>Pacing and reconnecting\<close>

text \<open>The lines \<open>pump_out\<close> takes from the queue over a sequence of turns, with their times.\<close>

fun pump_trace :: "link list \<Rightarrow> bot \<Rightarrow> (int \<times> pystr) list" where
  "pump_trace [] b = []"
| "pump_trace (w # ws) b =
     (let b' = pump_out w b in
      (if b_outq b' = b_outq b then [] else [(now w, hd (b_outq b))]) @ pump_trace ws b')"

lemma pump_out_cases:
  "pump_out w b = b \<or>
   (\<exists>l ls. b_outq b = l # ls \<and> now w - b_last_send b \<ge> SEND_INTERVAL \<and>
      b_outq (pump_out w b) = ls \<and> b_last_send (pump_out w b) = now w)"
  by (cases "b_outq b") (auto simp: pump_out_def send_raw_def)

lemma pump_trace_spaced:
  "sorted_wrt (\<lambda>x y. fst y - fst x \<ge> SEND_INTERVAL) (pump_trace ws b) \<and>
   (\<forall>x \<in> set (pump_trace ws b). fst x - b_last_send b \<ge> SEND_INTERVAL) \<and>
   map snd (pump_trace ws b) = take (length (pump_trace ws b)) (b_outq b)"
proof (induction ws arbitrary: b)
  case Nil
  then show ?case by simp
next
  case (Cons w ws)
  have pos: "0 \<le> SEND_INTERVAL" by (simp add: SEND_INTERVAL_def)
  consider "pump_out w b = b" | l ls where "b_outq b = l # ls"
    "now w - b_last_send b \<ge> SEND_INTERVAL" "b_outq (pump_out w b) = ls"
    "b_last_send (pump_out w b) = now w"
    using pump_out_cases [of w b] by blast
  then show ?case
  proof cases
    case 1
    then show ?thesis using Cons.IH [of b] by (simp add: Let_def)
  next
    case 2
    with Cons.IH [of "pump_out w b"] pos show ?thesis by (fastforce simp: Let_def)
  qed
qed

text \<open>The paced queue never floods: over any sequence of turns, the lines leave the queue in
  the order they entered it and any two of them at least \<open>SEND_INTERVAL\<close> (0.4 s) apart.\<close>

theorem pump_out_paced:
  "sorted_wrt (\<lambda>x y. fst y - fst x \<ge> SEND_INTERVAL) (pump_trace ws b) \<and>
   map snd (pump_trace ws b) = take (length (pump_trace ws b)) (b_outq b)"
  using pump_trace_spaced by blast

lemma backoff_run_bounds:
  assumes "RECONNECT_MIN \<le> b" "b \<le> RECONNECT_MAX" "p \<in> set (backoff_run b cs)"
  shows "RECONNECT_MIN \<le> p \<and> p \<le> RECONNECT_MAX"
  using assms
proof (induction cs arbitrary: b)
  case Nil
  then show ?case by simp
next
  case (Cons c cs)
  define cur where "cur = (if c then RECONNECT_MIN else b)"
  have le: "RECONNECT_MIN \<le> RECONNECT_MAX" by (simp add: RECONNECT_MIN_def RECONNECT_MAX_def)
  have cur: "RECONNECT_MIN \<le> cur" "cur \<le> RECONNECT_MAX"
    using Cons.prems(1,2) le by (simp_all add: cur_def)
  have "RECONNECT_MIN \<le> min (cur * 2) RECONNECT_MAX" using cur(1) le by simp
  moreover have "p = cur \<or> p \<in> set (backoff_run (min (cur * 2) RECONNECT_MAX) cs)"
    using Cons.prems(3) by (simp add: backoff_step_def Let_def cur_def)
  ultimately show ?case using cur Cons.IH [of "min (cur * 2) RECONNECT_MAX"] by auto
qed

lemma min_double: "min (min a m * 2) m = min (a * 2) (m :: nat)"
  by (auto simp: min_def)

lemma backoff_run_nth:
  "i < n \<Longrightarrow> backoff_run (min b RECONNECT_MAX) (replicate n False) ! i = min (b * 2 ^ i) RECONNECT_MAX"
proof (induction n arbitrary: i b)
  case 0
  then show ?case by simp
next
  case (Suc n)
  show ?case
  proof (cases i)
    case 0
    then show ?thesis by (simp add: backoff_step_def Let_def)
  next
    case (Suc j)
    with Suc.prems Suc.IH [of j "b * 2"] show ?thesis
      by (simp add: backoff_step_def Let_def min_double mult.assoc)
  qed
qed

text \<open>Every pause between connection attempts lies between 6 and 300 seconds, and after the
  k-th attempt of an unbroken row of failures it is \<open>6 * 2 ^ k\<close> seconds, capped at 300.\<close>

theorem backoff_correct:
  "(\<forall>p \<in> set (backoff_run RECONNECT_MIN cs). RECONNECT_MIN \<le> p \<and> p \<le> RECONNECT_MAX) \<and>
   (\<forall>n k. k < n \<longrightarrow> backoff_run RECONNECT_MIN (replicate n False) ! k =
      min (RECONNECT_MIN * 2 ^ k) RECONNECT_MAX)"
proof -
  have m: "min RECONNECT_MIN RECONNECT_MAX = RECONNECT_MIN" "RECONNECT_MIN \<le> RECONNECT_MAX"
    by (simp_all add: RECONNECT_MIN_def RECONNECT_MAX_def)
  show ?thesis
    using backoff_run_bounds [OF order_refl m(2)] backoff_run_nth [of _ _ RECONNECT_MIN] m(1)
    by simp
qed

theorem backoff_correct_witness:
  "backoff_run RECONNECT_MIN (replicate 8 False) = [6, 12, 24, 48, 96, 192, 300, 300] \<and>
   backoff_run RECONNECT_MIN (replicate 8 False) ! 6 = min (RECONNECT_MIN * 2 ^ 6) RECONNECT_MAX"
proof -
  have "(6 :: nat) < 8" by simp
  moreover have "backoff_run RECONNECT_MIN (replicate 8 False) = [6, 12, 24, 48, 96, 192, 300, 300]"
    by code_simp
  ultimately show ?thesis using backoff_correct by blast
qed

section \<open>Receiving\<close>

text \<open>C17: The lines the bot handles do not depend on how the network cuts the stream: any two
  ways to deliver the same bytes in chunks give the same lines and the same unfinished rest.\<close>

theorem recv_chunks_independent:
  assumes "concat xs = concat ys"
  shows "feed_all recv_chunk [] xs = feed_all recv_chunk [] ys"
  by (rule bot_recv.chunking_irrelevant [OF _ assms]) (simp add: contains_sub_def crlf_def)

theorem recv_chunks_independent_witness:
  "concat [''ab'' @ [CHR 0x0D], [CHR 0x0A] @ ''c''] = concat [''ab'' @ crlf @ ''c''] \<and>
   feed_all recv_chunk [] [''ab'' @ [CHR 0x0D], [CHR 0x0A] @ ''c''] =
     feed_all recv_chunk [] [''ab'' @ crlf @ ''c''] \<and>
   feed_all recv_chunk [] [''ab'' @ [CHR 0x0D], [CHR 0x0A] @ ''c''] = (''c'', [''ab''])"
proof -
  have h: "concat [''ab'' @ [CHR 0x0D], [CHR 0x0A] @ ''c''] = concat [''ab'' @ crlf @ ''c'']"
    by (simp add: crlf_def)
  have e: "feed_all recv_chunk [] [''ab'' @ [CHR 0x0D], [CHR 0x0A] @ ''c''] = (''c'', [''ab''])"
    by code_simp
  show ?thesis using h e recv_chunks_independent [OF h] by simp
qed

section \<open>Inventory\<close>

text \<open>C18: However callers and the worker interleave, a project is never measured twice at once
  nor queued twice: each key is in flight at most once, and it is marked as queued exactly
  while it is in flight.\<close>

theorem inventory_single_flight:
  assumes "(cache_step collect)\<^sup>*\<^sup>* (cache_init ps) c"
  shows "count (in_flight c) k \<le> 1 \<and> (k \<in> c_queued c \<longleftrightarrow> k \<in># in_flight c)"
proof -
  have "cache_inv c" by (rule inventory_cache.run_inv [OF assms cache_init_inv])
  then show ?thesis using cache_inv_distinct cache_inv_queued by blast
qed

theorem inventory_single_flight_witness:
  "(cache_step (\<lambda>_. None))\<^sup>*\<^sup>* (cache_init PROJECTS) (request_lock (cache_init PROJECTS) (p_key ONYX)) \<and>
   count (in_flight (request_lock (cache_init PROJECTS) (p_key ONYX))) (u ''onyx'') \<le> 1 \<and>
   (u ''onyx'' \<in> c_queued (request_lock (cache_init PROJECTS) (p_key ONYX)) \<longleftrightarrow>
    u ''onyx'' \<in># in_flight (request_lock (cache_init PROJECTS) (p_key ONYX)))"
proof -
  have "cache_step (\<lambda>_. None) (cache_init PROJECTS) (request_lock (cache_init PROJECTS) (p_key ONYX))"
    by (rule cache_step.lock) (simp add: cache_init_def PROJECTS_def)
  then have h: "(cache_step (\<lambda>_. None))\<^sup>*\<^sup>* (cache_init PROJECTS)
      (request_lock (cache_init PROJECTS) (p_key ONYX))" by blast
  show ?thesis using h inventory_single_flight [OF h] by blast
qed

text \<open>C20: The worker thread never dies of a missing key and never loses a request: when no caller is
  inside \<open>request\<close>, a turn of the worker succeeds, and a requested project at the head of the
  queue is published with its measurement and unmarked.\<close>

theorem inventory_worker_serves:
  assumes "quiet c" "p \<in> set (c_projects c)" "c_requests c = []"
    and "\<And>q. q \<in> set (c_projects c) \<Longrightarrow> p_key q = p_key p \<Longrightarrow> q = p"
  shows "\<exists>c'. worker_turn collect (request c p) = Some c' \<and> quiet c' \<and>
    cache_get c' p = (case collect p of Some i \<Rightarrow> i | None \<Rightarrow> BuildInventory) \<and>
    p_key p \<notin> c_queued c'"
proof -
  have r: "quiet (request c p)" "c_projects (request c p) = c_projects c"
    "p_key p \<in> set (c_requests (request c p))"
    using request_quiet [OF assms(1,2)] by auto
  have q: "c_queued c = {}"
    using assms(1,3) by (metis (no_types, lifting) cache_inv_def quiet_def in_flight_def
        add.right_neutral mset.simps(1) mset_set_empty_iff option.case(1))
  have req: "c_requests (request c p) = [p_key p]"
    using assms(3) q by (simp add: request_def request_put_def request_lock_def)
  have f: "find (\<lambda>q. p_key q = p_key p) (c_projects c) = Some p"
    using assms(2,4) by (metis (mono_tags, lifting) find_Some_iff find_None_iff nth_mem option.exhaust)
  obtain c' where c': "worker_turn collect (request c p) = Some c'" "quiet c'"
    using worker_turn_quiet [OF r(1)] by blast
  moreover have "cache_get c' p = (case collect p of Some i \<Rightarrow> i | None \<Rightarrow> BuildInventory)"
    "p_key p \<notin> c_queued c'"
    using c'(1) req f r(2)
    by (auto simp: worker_turn_def worker_publish_def worker_take_def cache_get_def
        inventory_get_def Let_def split: option.splits)
  ultimately show ?thesis by blast
qed

theorem inventory_worker_serves_witness:
  "quiet (cache_init PROJECTS) \<and>
   (\<exists>c'. worker_turn (\<lambda>_. None) (request (cache_init PROJECTS) ONYX) = Some c' \<and> quiet c' \<and>
      cache_get c' ONYX = BuildInventory \<and> p_key ONYX \<notin> c_queued c')"
proof -
  have q: "quiet (cache_init PROJECTS)" "ONYX \<in> set (c_projects (cache_init PROJECTS))"
    "c_requests (cache_init PROJECTS) = []"
    by (simp_all add: quiet_def cache_init_inv) (simp_all add: cache_init_def PROJECTS_def)
  have "p_key ONYX_SERVER \<noteq> p_key ONYX" by (simp add: ONYX_def ONYX_SERVER_def u_def)
  then have k: "q' = ONYX" if "q' \<in> set (c_projects (cache_init PROJECTS))" "p_key q' = p_key ONYX"
    for q'
    using that by (auto simp: cache_init_def PROJECTS_def)
  show ?thesis using inventory_worker_serves [OF q k, of "\<lambda>_. None"] q(1) by simp
qed

section \<open>Commit cards\<close>


text \<open>C40: The loop that shortens a message ends: for every text some number of rounds, at most one for
  every seven characters, gives the result, which is within the byte limit of a message.\<close>

theorem truncation_terminates:
  "\<exists>n \<le> length s div 7. truncate_text s = (truncate_step ^^ n) s \<and>
     byte_len ((truncate_step ^^ n) s) \<le> MAX_MESSAGE_TEXT_BYTES"
  using truncate_steps [of s] truncate_text_bound [of s] by metis

end
