(* ===== verification/PyJson.thy ===== *)
theory PyJson
  imports Complex_Main Prelude
begin

text \<open>
  The Python values that \<open>json.loads\<close> returns, with Python's \<open>==\<close>, \<open>isinstance\<close>,
  \<open>dict.get\<close> and \<open>in\<close> on them. A \<open>str\<close> is the sequence of its UTF-8 bytes; a finite
  \<open>float\<close> is the rational number it denotes; a \<open>dict\<close> is the list of its items in
  insertion order (\<open>json_wf\<close> says that no key occurs twice). \<open>bool\<close> is a subclass of
  \<open>int\<close> in Python, so \<open>True == 1\<close> and \<open>1 == 1.0\<close>, but \<open>True is True\<close> only for the
  constant itself. Used by the contract validator, the test planner, the gate ledger and the
  roadmap audit.
\<close>

datatype json =
    JNull
  | JBool bool
  | JInt int
  | JFloat rat
  | JInf bool
  | JNaN
  | JStr string
  | JList "json list"
  | JObj "(string \<times> json) list"

section \<open>Type tests and access\<close>

fun is_obj :: "json \<Rightarrow> bool" where
  "is_obj (JObj _) = True"
| "is_obj _ = False"

fun is_list :: "json \<Rightarrow> bool" where
  "is_list (JList _) = True"
| "is_list _ = False"

fun is_str :: "json \<Rightarrow> bool" where
  "is_str (JStr _) = True"
| "is_str _ = False"

fun items_of :: "json \<Rightarrow> (string \<times> json) list" where
  "items_of (JObj kvs) = kvs"
| "items_of _ = []"

text \<open>\<open>d.get(k)\<close> (\<open>None\<close> is \<open>JNull\<close>) and \<open>k in d\<close>.\<close>

definition json_get :: "json \<Rightarrow> string \<Rightarrow> json" where
  "json_get j k = (case map_of (items_of j) k of Some v \<Rightarrow> v | None \<Rightarrow> JNull)"

definition json_has :: "json \<Rightarrow> string \<Rightarrow> bool" where
  "json_has j k = (k \<in> fst ` set (items_of j))"

definition json_keys :: "json \<Rightarrow> string list" where
  "json_keys j = map fst (items_of j)"

section \<open>Equality\<close>

text \<open>The number a \<open>bool\<close>, \<open>int\<close> or finite \<open>float\<close> compares as.\<close>

fun json_num :: "json \<Rightarrow> rat option" where
  "json_num (JBool b) = Some (if b then 1 else 0)"
| "json_num (JInt n) = Some (of_int n)"
| "json_num (JFloat r) = Some r"
| "json_num _ = None"

fun json_eq :: "json \<Rightarrow> json \<Rightarrow> bool"
  and json_eqs :: "json list \<Rightarrow> json list \<Rightarrow> bool"
  and json_sub :: "(string \<times> json) list \<Rightarrow> (string \<times> json) list \<Rightarrow> bool" where
  "json_eq JNull y = (y = JNull)"
| "json_eq (JBool b) y = (json_num y = json_num (JBool b))"
| "json_eq (JInt n) y = (json_num y = json_num (JInt n))"
| "json_eq (JFloat r) y = (json_num y = json_num (JFloat r))"
| "json_eq (JInf b) y = (y = JInf b)"
| "json_eq JNaN y = False"
| "json_eq (JStr s) y = (y = JStr s)"
| "json_eq (JList xs) y = (case y of JList ys \<Rightarrow> json_eqs xs ys | _ \<Rightarrow> False)"
| "json_eq (JObj xs) y =
     (case y of JObj ys \<Rightarrow> length xs = length ys \<and> json_sub xs ys | _ \<Rightarrow> False)"
| "json_eqs [] ys = (ys = [])"
| "json_eqs (x # xs) ys = (case ys of [] \<Rightarrow> False | y # ys' \<Rightarrow> json_eq x y \<and> json_eqs xs ys')"
| "json_sub [] ys = True"
| "json_sub (kv # xs) ys =
     ((case map_of ys (fst kv) of None \<Rightarrow> False | Some w \<Rightarrow> json_eq (snd kv) w) \<and> json_sub xs ys)"

fun json_wf :: "json \<Rightarrow> bool" where
  "json_wf (JList xs) = list_all json_wf xs"
| "json_wf (JObj kvs) = (distinct (map fst kvs) \<and> list_all (\<lambda>kv. json_wf (snd kv)) kvs)"
| "json_wf _ = True"

fun no_nan :: "json \<Rightarrow> bool" where
  "no_nan JNaN = False"
| "no_nan (JList xs) = list_all no_nan xs"
| "no_nan (JObj kvs) = list_all (\<lambda>kv. no_nan (snd kv)) kvs"
| "no_nan _ = True"

lemma json_num_cases [dest]:
  "json_num j = Some r \<Longrightarrow> (\<exists>b. j = JBool b \<and> r = (if b then 1 else 0)) \<or> (\<exists>n. j = JInt n \<and> r = of_int n) \<or>
     j = JFloat r"
  by (cases j) auto

lemma json_sub_iff:
  "json_sub xs ys \<longleftrightarrow> (\<forall>(k, v) \<in> set xs. \<exists>w. map_of ys k = Some w \<and> json_eq v w)"
  by (induction xs) (auto split: option.splits)

lemma json_eqs_iff: "json_eqs xs ys \<longleftrightarrow> list_all2 json_eq xs ys"
  by (induction xs arbitrary: ys) (auto split: list.splits simp: list_all2_Cons1)

lemma json_eq_refl: "json_wf j \<Longrightarrow> no_nan j \<Longrightarrow> json_eq j j"
proof (induction j)
  case (JList xs)
  then show ?case by (auto simp: json_eqs_iff list_all_iff list_all2_same)
next
  case (JObj kvs)
  have "\<exists>w. map_of kvs k = Some w \<and> json_eq v w" if "(k, v) \<in> set kvs" for k v
    using JObj.IH [of "(k, v)" v] JObj.prems that by (fastforce simp: list_all_iff)
  then show ?case by (auto simp: json_sub_iff)
qed auto

text \<open>Equal to a string (or to no value) means to be that string (or \<open>None\<close>).\<close>

lemma json_eq_str [simp]: "json_eq v (JStr s) \<longleftrightarrow> v = JStr s"
  by (cases v) auto

lemma json_eq_null [simp]: "json_eq v JNull \<longleftrightarrow> v = JNull"
  by (cases v) auto

lemma json_eq_int [simp]: "json_eq v (JInt n) \<longleftrightarrow> json_num v = Some (of_int n)"
  by (cases v) auto

lemma json_eq_obj: "json_eq v (JObj ys) \<longleftrightarrow>
    (\<exists>xs. v = JObj xs \<and> length xs = length ys \<and> json_sub xs ys)"
  by (cases v) auto

lemma json_eq_list: "json_eq v (JList ys) \<longleftrightarrow> (\<exists>xs. v = JList xs \<and> list_all2 json_eq xs ys)"
  by (cases v) (auto simp: json_eqs_iff)

lemma json_get_nonobj [simp]: "\<not> is_obj j \<Longrightarrow> json_get j k = JNull"
  by (cases j) (auto simp: json_get_def)

end
