(* ===== verification/Client_Contract.thy ===== *)
theory Client_Contract
  imports PyJson
begin

text \<open>
  \<open>src/tools/check-client-contract.py\<close>: the semantic validator of the client/server contract.
  The frozen constants are the program's; \<open>semantic_errors\<close> follows the program section by
  section and returns the same messages in the same order. \<open>frozen_fields\<close> and
  \<open>contract_ok\<close> are the declarative reading: one table of paths with the values they must
  hold. \<open>client_contract_v2\<close> is the contract the repository ships in
  \<open>src/docs/reference/protocol/onyx-client-contract.v2.json\<close>.
\<close>

section \<open>The frozen constants\<close>

definition SCHEMA :: string where
  "SCHEMA =
     ''onyx-client-server-contract/v2''"

definition REVISION :: int where
  "REVISION = 3"

definition REQUIRED_CAPS :: "string list" where
  "REQUIRED_CAPS = [''message-tags'',
     ''server-time'',
     ''batch'',
     ''labeled-response'',
     ''echo-message'',
     ''draft/chathistory'']"

definition CONTROL_KINDS :: "string list" where
  "CONTROL_KINDS = [''key-package'',
     ''welcome'',
     ''commit'']"

definition CONTROL_FORMS :: "string list" where
  "CONTROL_FORMS = [''<channel> <key-package|commit> <from-device> :<opaque-base64url>'',
     ''<channel> welcome <from-device> <to-account> <to-device> :<opaque-base64url>'']"

definition INBOUND_VERBS :: "string list" where
  "INBOUND_VERBS = [''E2EE.KEYPACKAGE'',
     ''E2EE.COMMIT'',
     ''E2EE.WELCOME'']"

definition CLIENT_FIELDS :: json where
  "CLIENT_FIELDS = JObj [
      (''group_control_observer'', JObj [
          (''status'', JStr ''production_wired''),
          (''owner'', JStr ''connection_and_account_owned_bridge''),
          (''server_reply_authentication'', JStr ''E2EEKEY replies are accepted only from the exact server prefix learned from 001''),
          (''consumes'', JList [JStr ''E2EE.KEYPACKAGE'', JStr ''E2EE.COMMIT'', JStr ''E2EE.WELCOME'']),
          (''does_not_consume'', JStr ''inbound E2EEGROUP'')]),
      (''group_control_runtime'', JObj [
          (''status'', JStr ''production_wired''),
          (''trusted_directory_verification'', JStr ''production_wired''),
          (''genesis_session_provisioning'', JStr ''production_wired''),
          (''genesis_semantics'', JStr ''authenticated OGC1-v2 commit and welcome pairs may provision an ephemeral epoch-1 GroupSession only for epoch 0 to 1, priorEpoch 0, a zero prior commit hash, and exact routing, identity, commit, membership, body, context, and epoch-key-commitment binding''),
          (''higher_epoch_semantics'', JStr ''requires an existing current session or explicit recovery''),
          (''session_persistence'', JStr ''activation_hold'')]),
      (''group_message_crypto'', JObj [
          (''envelope_helpers'', JStr ''implemented''),
          (''store_seal'', JStr ''activation_hold''),
          (''store_open'', JStr ''activation_hold''),
          (''outbound'', JStr ''required rooms reject plaintext; no production path seals and tags ONYXROOM1''),
          (''inbound'', JStr ''ONYXROOM1 remains ciphertext in the store and renders as a locked placeholder'')])]"

definition REQUIRED_POLICY_FIELDS :: json where
  "REQUIRED_POLICY_FIELDS = JObj [
      (''status'', JStr ''production_active''),
      (''admission'', JStr ''tag_and_body''),
      (''tag'', JStr ''+onyx/e2ee=mls''),
      (''body'', JStr ''canonical ONYXROOM1 envelope''),
      (''body_validation'', JStr ''exact prefix, canonical unpadded base64url, version 1, decoded length at least 33 bytes, and bounded by the server message limit''),
      (''server_validation'', JStr ''structural only; the daemon neither decrypts nor authenticates ciphertext''),
      (''local_privmsg_failure'', JStr ''FAIL PRIVMSG E2EE_REQUIRED''),
      (''local_notice_failure'', JStr ''silent_drop''),
      (''mesh_relay_failure'', JStr ''permanent_reject''),
      (''tagmsg'', JStr ''admitted as a tag-only command without a text envelope'')]"

definition MESSAGE_POLICY_VECTORS :: json where
  "MESSAGE_POLICY_VECTORS = JObj [
      (''accepted'', JObj [
          (''required_room_ciphertext'', JObj [
              (''line'', JStr ''@+onyx/e2ee=mls PRIVMSG #secure :ONYXROOM1 AQAAAAAAAAAAAAAAAAAAAAAAAAAAAAAAAAAAAAAAAAAA''),
              (''outcome'', JStr ''accepted'')]),
          (''required_room_tagmsg'', JObj [
              (''line'', JStr ''@+typing=active TAGMSG #secure''),
              (''outcome'', JStr ''accepted'')])]),
      (''rejected'', JObj [
          (''tagged_plaintext'', JObj [
              (''line'', JStr ''@+onyx/e2ee=mls PRIVMSG #secure :plaintext''),
              (''fail'', JStr ''FAIL PRIVMSG E2EE_REQUIRED'')]),
          (''untagged_envelope'', JObj [
              (''line'', JStr ''PRIVMSG #secure :ONYXROOM1 AQAAAAAAAAAAAAAAAAAAAAAAAAAAAAAAAAAAAAAAAAAA''),
              (''fail'', JStr ''FAIL PRIVMSG E2EE_REQUIRED'')]),
          (''wrong_tag_value'', JObj [
              (''line'', JStr ''@+onyx/e2ee=1 PRIVMSG #secure :ONYXROOM1 AQAAAAAAAAAAAAAAAAAAAAAAAAAAAAAAAAAAAAAAAAAA''),
              (''fail'', JStr ''FAIL PRIVMSG E2EE_REQUIRED'')]),
          (''malformed_envelope'', JObj [
              (''line'', JStr ''@+onyx/e2ee=mls PRIVMSG #secure :ONYXROOM1 not+base64url''),
              (''fail'', JStr ''FAIL PRIVMSG E2EE_REQUIRED'')])])]"

definition TRANSIENT_PERSISTENCE :: "string list" where
  "TRANSIENT_PERSISTENCE = [''bounded_ads1_attachment_spool'',
     ''ram_mesh_hop_custody_until_ack'']"

definition ACCEPTED_VECTORS :: "string list" where
  "ACCEPTED_VECTORS = [''key_package_channel'',
     ''commit_channel'',
     ''welcome_targeted'',
     ''commit_payload_bound'']"

definition REJECTED_VECTORS :: "string list" where
  "REJECTED_VECTORS = [''bad_payload_noncanonical'',
     ''device_not_owned'',
     ''welcome_unknown_device'',
     ''welcome_target_not_in_channel'',
     ''guest_authoring'',
     ''missing_cap'',
     ''missing_ircx'',
     ''sender_not_on_channel'',
     ''authenticated_no_reusable_session'']"

definition SESSION_COMMANDS :: "string list" where
  "SESSION_COMMANDS = [''SESSION TOKEN'',
     ''SESSION MTOKEN'',
     ''SESSION RESUME <token>'']"

definition VENDOR_CAPS :: json where
  "VENDOR_CAPS = JObj [
      (''onyx/session-sync'', JStr ''same-account attachment synchronization''),
      (''onyx/bouncer'', JStr ''automatic history rewind''),
      (''onyx/topics'', JStr ''named conversation tags and history''),
      (''onyx/e2ee'', JStr ''permits the +onyx/e2ee message tag and E2EEGROUP eligibility'')]"

definition GUEST_AUTHORING :: string where
  "GUEST_AUTHORING =
     ''FAIL E2EEGROUP NOT_LOGGED_IN''"

definition GUEST_RECIPIENT :: string where
  "GUEST_RECIPIENT =
     ''ineligible; no reusable session row''"

definition AUTH_NEGOTIATION :: string where
  "AUTH_NEGOTIATION =
     ''FAIL E2EEGROUP SESSION_UNAVAILABLE; connection closes before autojoin or further participation''"

definition AUTH_AUTHORING_DEFENSE :: string where
  "AUTH_AUTHORING_DEFENSE =
     ''WARN E2EEGROUP TEMPORARILY_UNAVAILABLE; a reusable session is required for group E2EE''"

definition RESUME_INVARIANT :: string where
  "RESUME_INVARIANT =
     ''A successful same-account resume preserves the logical attachment without duplicate JOIN or MODE events.''"

definition SESSION_RESUME_FIELDS :: json where
  "SESSION_RESUME_FIELDS = JObj [
      (''invariant'', JStr ''A successful same-account resume preserves the logical attachment without duplicate JOIN or MODE events.''),
      (''live_sibling'', JStr ''attach without disconnecting the source''),
      (''detached_ghost'', JStr ''restore snapshot then replace the ghost; the token remains reusable''),
      (''mesh_token'', JStr ''non-local-length hex is a mesh-sealed reclaim credential, not a one-shot replay nonce'')]"

definition PRESENCE_QUIT_FIELDS :: json where
  "PRESENCE_QUIT_FIELDS = JObj [
      (''scope'', JStr ''identity_wide''),
      (''delivery'', JStr ''exactly_once''),
      (''mesh_marker'', JStr ''ONYX-QUIT''),
      (''client_visible'', JStr ''one identity-wide QUIT; per-channel membership withdrawals converge separately''),
      (''sibling_attachment'', JStr ''handoff without identity-wide QUIT'')]"

definition PRESENCE_PART_FIELDS :: json where
  "PRESENCE_PART_FIELDS = JObj [
      (''scope'', JStr ''channel_local''),
      (''channels'', JStr ''comma-separated list with a shared reason''),
      (''intent'', JStr ''one-way exact-token withdrawal of the named channels only'')]"

definition LIVE_COMMANDS :: string where
  "LIVE_COMMANDS =
     ''processLiveLine is the only client-command admission path''"

definition HISTORY_REPLAY :: string where
  "HISTORY_REPLAY =
     ''CHATHISTORY and bouncer rewind replay stored events; they do not re-author live commands''"

definition HELIX_E2EE_GROUP :: string where
  "HELIX_E2EE_GROUP =
     ''EGRG Helix checkpoints are replay metadata only; opaque payloads and hop-custody wires never enter Helix''"

definition SESSION_RESUME_SPLIT :: string where
  "SESSION_RESUME_SPLIT =
     ''snapshot or live-sibling attach; original JOIN/PART/QUIT live commands are not replayed''"

definition TRUSTED_SIGNER_SEMANTICS :: string where
  "TRUSTED_SIGNER_SEMANTICS =
     ''verification requires an externally supplied trusted Ed25519 public key; the wire signer_pub must equal that key and is never account authentication by itself''"

definition CHANNEL_RECORD :: string where
  "CHANNEL_RECORD =
     '':<source-prefix> E2EE.KEYPACKAGE|E2EE.COMMIT <channel> <from-account> <from-device> :<opaque-base64url>''"

definition WELCOME_RECORD :: string where
  "WELCOME_RECORD =
     '':<source-prefix> E2EE.WELCOME <channel> <from-account> <from-device> <to-account> <to-device> :<opaque-base64url>''"

definition ACCOUNTLESS_CHANNEL_RECORD :: string where
  "ACCOUNTLESS_CHANNEL_RECORD =
     '':<source-prefix> E2EE.KEYPACKAGE|E2EE.COMMIT <channel> <from-device> :<opaque-base64url>''"

definition ACCOUNTLESS_WELCOME_RECORD :: string where
  "ACCOUNTLESS_WELCOME_RECORD =
     '':<source-prefix> E2EE.WELCOME <channel> <from-device> <to-account> <to-device> :<opaque-base64url>''"

definition RECIPIENT_GATE :: string where
  "RECIPIENT_GATE =
     ''onyx/e2ee negotiated, locally joined to the channel, and attached to a reusable session''"

definition WELCOME_ABSENCE :: string where
  "WELCOME_ABSENCE =
     ''explicit TARGET_UNAVAILABLE failure; no offline-recipient persistence''"

definition ACCEPTED_VECTOR_FIELDS :: "(string \<times> json) list" where
  "ACCEPTED_VECTOR_FIELDS = [
     (''key_package_channel'', JObj [
       (''line'', JStr ''E2EEGROUP #secure key-package phone :AQIDBA''),
       (''delivery'', JStr '':Alice!alice@localhost E2EE.KEYPACKAGE #secure alice phone :AQIDBA'')]),
     (''commit_channel'', JObj [
       (''line'', JStr ''E2EEGROUP #secure commit phone :b3BhcXVl''),
       (''delivery'', JStr '':Alice!alice@localhost E2EE.COMMIT #secure alice phone :b3BhcXVl'')]),
     (''welcome_targeted'', JObj [
       (''line'', JStr ''E2EEGROUP #secure welcome phone Bob tablet :d2VsY29tZQ''),
       (''delivery'', JStr '':Alice!alice@localhost E2EE.WELCOME #secure alice phone Bob tablet :d2VsY29tZQ'')]),
     (''commit_payload_bound'', JObj [
       (''line'', JStr ''E2EEGROUP #secure commit phone :<payload>''),
       (''payload_repeat'', JObj [
           (''char'', JStr ''A''),
           (''count'', JInt 4096)]),
       (''delivery_verb'', JStr ''E2EE.COMMIT'')])]"

definition REJECTED_VECTOR_FIELDS :: "(string \<times> json) list" where
  "REJECTED_VECTOR_FIELDS = [
     (''bad_payload_noncanonical'', JObj [
       (''line'', JStr ''E2EEGROUP #secure commit phone :not+base64url''),
       (''fail'', JStr ''FAIL E2EEGROUP BAD_PAYLOAD'')]),
     (''device_not_owned'', JObj [
       (''line'', JStr ''E2EEGROUP #secure commit missing :AQIDBA''),
       (''fail'', JStr ''FAIL E2EEGROUP DEVICE_NOT_OWNED'')]),
     (''welcome_unknown_device'', JObj [
       (''line'', JStr ''E2EEGROUP #secure welcome phone bob missing :AQIDBA''),
       (''fail'', JStr ''FAIL E2EEGROUP TARGET_UNAVAILABLE'')]),
     (''welcome_target_not_in_channel'', JObj [
       (''line'', JStr ''E2EEGROUP #secure welcome phone carol laptop :AQIDBA''),
       (''fail'', JStr ''FAIL E2EEGROUP TARGET_UNAVAILABLE'')]),
     (''guest_authoring'', JObj [
       (''line'', JStr ''E2EEGROUP #secure commit phone :AQIDBA''),
       (''fail'', JStr ''FAIL E2EEGROUP NOT_LOGGED_IN'')]),
     (''missing_cap'', JObj [
       (''line'', JStr ''E2EEGROUP #secure commit phone :AQIDBA''),
       (''fail'', JStr ''FAIL E2EEGROUP CAP_REQUIRED'')]),
     (''missing_ircx'', JObj [
       (''line'', JStr ''E2EEGROUP #secure commit phone :AQIDBA''),
       (''fail'', JStr ''FAIL E2EEGROUP IRCX_REQUIRED'')]),
     (''sender_not_on_channel'', JObj [
       (''line'', JStr ''E2EEGROUP #secure commit phone :AQIDBA''),
       (''fail'', JStr ''FAIL E2EEGROUP NOT_ON_CHANNEL'')]),
     (''authenticated_no_reusable_session'', JObj [
       (''line'', JStr ''CAP REQ :onyx/e2ee''),
       (''fail'', JStr ''FAIL E2EEGROUP SESSION_UNAVAILABLE''),
       (''closes_connection'', JBool True)])]"

section \<open>The validator\<close>

definition nonempty_str :: "json \<Rightarrow> bool" where
  "nonempty_str v = (case v of JStr s \<Rightarrow> s \<noteq> [] | _ \<Rightarrow> False)"

definition exact_seq :: "json \<Rightarrow> string list \<Rightarrow> bool" where
  "exact_seq actual expected =
     (case actual of
        JList xs \<Rightarrow> length xs = length expected \<and>
          list_all (\<lambda>(item, want). json_eq item (JStr want)) (zip xs expected)
      | _ \<Rightarrow> False)"

definition has_named_keys :: "json \<Rightarrow> string list \<Rightarrow> bool" where
  "has_named_keys actual expected = (is_obj actual \<and> set (json_keys actual) = set expected)"

definition need :: "bool \<Rightarrow> string \<Rightarrow> string list" where
  "need ok message = (if ok then [] else [message])"

definition transport_errors :: "json \<Rightarrow> string list" where
  "transport_errors contract = (let transport = json_get contract ''transport'' in
     need (is_obj transport) ''transport must be an object'' @
     (if is_obj transport
      then need (json_eq (json_get transport ''websocket'')
             (JStr ''one IRC message per frame; no trailing frame bytes''))
             ''transport.websocket framing is frozen''
      else []))"

definition capabilities_errors :: "json \<Rightarrow> string list" where
  "capabilities_errors contract = (let caps = json_get contract ''capabilities'' in
     need (is_obj caps) ''capabilities must be an object'' @
     (if is_obj caps
      then need (exact_seq (json_get caps ''required_for_first_party_client'') REQUIRED_CAPS)
             ''first-party capability set is frozen'' @
           need (json_eq (json_get caps ''vendor'') VENDOR_CAPS)
             ''vendor capability mapping is frozen''
      else []))"

definition server_errors :: "json \<Rightarrow> string list" where
  "server_errors contract = (let server = json_get contract ''server'' in
     need (is_obj server) ''server must be an object'' @
     (if is_obj server
      then need (json_eq (json_get server ''group_control'') (JStr ''production_active''))
             ''server.group_control must be production_active''
      else []))"

definition client_errors :: "json \<Rightarrow> string list" where
  "client_errors contract = (let client = json_get contract ''client'' in
     need (is_obj client) ''client must be an object'' @
     (if is_obj client
      then need (json_eq client CLIENT_FIELDS)
             ''client observer/runtime/message activation split is frozen''
      else []))"

definition guest_errors :: "json \<Rightarrow> string list" where
  "guest_errors guest =
     need (is_obj guest) ''eligibility.guest must be an object'' @
     (if is_obj guest
      then need (json_eq (json_get guest ''onyx_e2ee_negotiation'') (JStr ''allowed''))
             ''guest onyx/e2ee negotiation must be allowed'' @
           need (json_get guest ''reusable_session_required'' = JBool False)
             ''guest must not require a reusable session'' @
           need (json_eq (json_get guest ''authoring'') (JStr GUEST_AUTHORING))
             ''guest authoring fail is frozen'' @
           need (json_eq (json_get guest ''recipient'') (JStr GUEST_RECIPIENT))
             ''guest recipient ineligibility is frozen''
      else [])"

definition auth_errors :: "json \<Rightarrow> string list" where
  "auth_errors auth =
     need (is_obj auth) ''authenticated_no_reusable_session must be an object'' @
     (if is_obj auth
      then need (json_get auth ''fail_closed'' = JBool True)
             ''authenticated no-reusable-session must be fail-closed'' @
           need (json_eq (json_get auth ''negotiation'') (JStr AUTH_NEGOTIATION))
             ''authenticated negotiation prose is frozen'' @
           need (json_eq (json_get auth ''authoring_defense'') (JStr AUTH_AUTHORING_DEFENSE))
             ''authenticated authoring_defense prose is frozen''
      else [])"

definition eligibility_errors :: "json \<Rightarrow> string list" where
  "eligibility_errors contract = (let eligibility = json_get contract ''eligibility'' in
     need (is_obj eligibility) ''eligibility must be an object'' @
     (if is_obj eligibility
      then guest_errors (json_get eligibility ''guest'') @
           auth_errors (json_get eligibility ''authenticated_no_reusable_session'')
      else []))"

definition session_errors :: "json \<Rightarrow> string list" where
  "session_errors contract = (let session = json_get contract ''session'' in
     need (is_obj session) ''session must be an object'' @
     (if is_obj session
      then need (exact_seq (json_get session ''commands'') SESSION_COMMANDS)
             ''session.commands are frozen'' @
           need (json_eq (json_get session ''resume'') SESSION_RESUME_FIELDS)
             ''session.resume fields are frozen'' @
           (let split = json_get session ''replay_live_separation'' in
            need (is_obj split) ''session.replay_live_separation must be an object'' @
            (if is_obj split
             then need (json_eq (json_get split ''live_commands'') (JStr LIVE_COMMANDS))
                    ''live_commands prose is frozen'' @
                  need (json_eq (json_get split ''history_replay'') (JStr HISTORY_REPLAY))
                    ''history_replay prose is frozen'' @
                  need (json_eq (json_get split ''helix_e2ee_group'') (JStr HELIX_E2EE_GROUP))
                    ''helix_e2ee_group prose is frozen'' @
                  need (json_eq (json_get split ''session_resume'') (JStr SESSION_RESUME_SPLIT))
                    ''session_resume prose is frozen''
             else []))
      else []))"

definition signer_errors :: "json \<Rightarrow> string list" where
  "signer_errors signer =
     need (is_obj signer) ''trusted_signer must be an object'' @
     (if is_obj signer
      then need (json_eq (json_get signer ''requirement'') (JStr ''mandatory_external''))
             ''trusted signer must be mandatory_external'' @
           need (json_eq (json_get signer ''semantics'') (JStr TRUSTED_SIGNER_SEMANTICS))
             ''trusted signer semantics are frozen''
      else [])"

definition persistence_errors :: "json \<Rightarrow> string list" where
  "persistence_errors persistence =
     need (is_obj persistence) ''persistence must be an object'' @
     (if is_obj persistence
      then need (json_eq (json_get persistence ''group_secrets'') (JStr ''none''))
             ''group-secret persistence must be none'' @
           need (json_eq (json_get persistence ''offline_recipient'') (JStr ''none''))
             ''offline-recipient persistence must be none'' @
           need (json_eq (json_get persistence ''opaque_control_payload'') (JStr ''none_durable''))
             ''opaque control payload must not be durably persisted'' @
           need (exact_seq (json_get persistence ''allowed_transient'') TRANSIENT_PERSISTENCE)
             ''only bounded ADS1 spool and RAM mesh custody are allowed transient holds'' @
           need (json_eq (json_get persistence ''helix_checkpoint'') (JStr ''replay_metadata_only''))
             ''Helix may seal replay metadata only''
      else [])"

definition limits_errors :: "json \<Rightarrow> string list" where
  "limits_errors limits =
     need (is_obj limits) ''limits must be an object'' @
     (if is_obj limits
      then need (json_eq (json_get limits ''channel_bytes'') (JInt 128)) ''channel_bytes must be 128'' @
           need (json_eq (json_get limits ''device_id_bytes'') (JInt 32)) ''device_id_bytes must be 32'' @
           need (json_eq (json_get limits ''account_bytes'') (JInt 64)) ''account_bytes must be 64'' @
           need (json_eq (json_get limits ''payload_b64url_chars'') (JInt 4096))
             ''payload_b64url_chars must be 4096'' @
           need (\<not> json_has limits ''payload_bytes'')
             ''payload bound is payload_b64url_chars, not payload_bytes''
      else [])"

definition delivery_errors :: "json \<Rightarrow> string list" where
  "delivery_errors delivery =
     need (is_obj delivery) ''delivery must be an object'' @
     (if is_obj delivery
      then need (json_eq (json_get delivery ''channel_record'') (JStr CHANNEL_RECORD))
             ''channel delivery record form is frozen'' @
           need (json_eq (json_get delivery ''welcome_record'') (JStr WELCOME_RECORD))
             ''welcome delivery record form is frozen'' @
           need (\<not> json_eq (json_get delivery ''channel_record'') (JStr ACCOUNTLESS_CHANNEL_RECORD))
             ''channel delivery must include from-account; account-less shape is rejected'' @
           need (\<not> json_eq (json_get delivery ''welcome_record'') (JStr ACCOUNTLESS_WELCOME_RECORD))
             ''welcome delivery must include from-account before from-device; account-less shape is rejected'' @
           need (json_eq (json_get delivery ''recipient_gate'') (JStr RECIPIENT_GATE))
             ''recipient gate prose is frozen'' @
           need (json_eq (json_get delivery ''welcome_absence'') (JStr WELCOME_ABSENCE))
             ''welcome absence prose is frozen''
      else [])"

definition control_command_errors :: "json \<Rightarrow> string list" where
  "control_command_errors command =
     need (is_obj command) ''control_command must be an object'' @
     (if is_obj command
      then need (json_eq (json_get command ''name'') (JStr ''E2EEGROUP''))
             ''control command must be E2EEGROUP'' @
           need (json_get command ''ircx_required'' = JBool True) ''E2EEGROUP requires IRCX'' @
           need (json_eq (json_get command ''cap_required'') (JStr ''onyx/e2ee''))
             ''E2EEGROUP requires onyx/e2ee'' @
           need (exact_seq (json_get command ''forms'') CONTROL_FORMS)
             ''E2EEGROUP outer forms are frozen'' @
           need (json_eq (json_get command ''payload_encoding'')
             (JStr ''canonical base64url without padding''))
             ''payload encoding must be canonical unpadded base64url'' @
           limits_errors (json_get command ''limits'') @
           delivery_errors (json_get command ''delivery'')
      else [])"

definition group_errors :: "json \<Rightarrow> string list" where
  "group_errors contract = (let group = json_get contract ''e2ee_group'' in
     need (is_obj group) ''e2ee_group must be an object'' @
     (if is_obj group
      then need (json_eq (json_get group ''content_envelope'') (JStr ''ONYXROOM1''))
             ''content envelope must be ONYXROOM1'' @
           need (json_eq (json_get group ''message_tag'') (JStr ''+onyx/e2ee=mls''))
             ''message tag must be +onyx/e2ee=mls'' @
           need (json_eq (json_get group ''message_tag_semantics'')
             (JStr ''internal MLS-family marker only; does not claim RFC 9420 wire interoperability''))
             ''MLS-family marker must not claim RFC 9420 interoperability'' @
           signer_errors (json_get group ''trusted_signer'') @
           need (json_eq (json_get group ''server_secrets'') (JStr ''none''))
             ''server must have no group secrets'' @
           need (json_eq (json_get group ''required_policy'') REQUIRED_POLICY_FIELDS)
             ''required-room tag/body policy is frozen'' @
           persistence_errors (json_get group ''persistence'') @
           need (exact_seq (json_get group ''control_records'') CONTROL_KINDS)
             ''control record kinds are frozen'' @
           control_command_errors (json_get group ''control_command'')
      else []))"

definition presence_errors :: "json \<Rightarrow> string list" where
  "presence_errors contract = (let presence = json_get contract ''presence'' in
     need (is_obj presence) ''presence must be an object'' @
     (if is_obj presence
      then need (json_eq (json_get presence ''quit'') PRESENCE_QUIT_FIELDS)
             ''presence.quit fields are frozen'' @
           need (json_eq (json_get presence ''part'') PRESENCE_PART_FIELDS)
             ''presence.part fields are frozen''
      else []))"

definition vector_errors :: "json \<Rightarrow> string list" where
  "vector_errors contract = (let vectors = json_get contract ''command_vectors'' in
     need (is_obj vectors) ''command_vectors must be an object'' @
     (if is_obj vectors
      then (let accepted = json_get vectors ''accepted''; rejected = json_get vectors ''rejected'' in
        need (has_named_keys accepted ACCEPTED_VECTORS) ''accepted command vector names are frozen'' @
        need (has_named_keys rejected REJECTED_VECTORS) ''rejected command vector names are frozen'' @
        (if is_obj accepted
         then concat (map (\<lambda>(name, expected). need (json_eq (json_get accepted name) expected)
                (''accepted.'' @ name @ '' line/delivery fields are frozen'')) ACCEPTED_VECTOR_FIELDS)
         else []) @
        (if is_obj rejected
         then concat (map (\<lambda>(name, expected). need (json_eq (json_get rejected name) expected)
                (''rejected.'' @ name @ '' line/fail fields are frozen'')) REJECTED_VECTOR_FIELDS)
         else []))
      else []))"

definition semantic_errors :: "json \<Rightarrow> string list" where
  "semantic_errors contract =
     (if \<not> is_obj contract then [''contract must be a JSON object'']
      else
        need (json_eq (json_get contract ''schema'') (JStr SCHEMA)) (''schema must be '' @ SCHEMA) @
        need (json_eq (json_get contract ''revision'') (JInt REVISION)) ''revision must be 3'' @
        transport_errors contract @ capabilities_errors contract @ server_errors contract @
        client_errors contract @ eligibility_errors contract @ session_errors contract @
        group_errors contract @ presence_errors contract @
        need (json_eq (json_get contract ''message_policy_vectors'') MESSAGE_POLICY_VECTORS)
          ''message policy vectors are frozen'' @
        vector_errors contract)"

definition valid_contract :: "json \<Rightarrow> bool" where
  "valid_contract contract = (semantic_errors contract = [])"

text \<open>
  The command line. A file is what reading it gives: an exception (its text) or its bytes;
  \<open>loads\<close> is \<open>json.loads\<close> after decoding, an exception's text or the value.
\<close>

definition compare_bytes :: "string \<Rightarrow> string + string \<Rightarrow> string \<Rightarrow> string + string \<Rightarrow> string option" where
  "compare_bytes left left_bytes right right_bytes =
     (case left_bytes of
        Inl exc \<Rightarrow> Some (''cannot read '' @ left @ '': '' @ exc)
      | Inr l \<Rightarrow> (case right_bytes of
          Inl exc \<Rightarrow> Some (''cannot read peer contract '' @ right @ '': '' @ exc)
        | Inr r \<Rightarrow> if l = r then None
            else Some (''Protocol contract drift: '' @ right @ '' is not byte-identical to '' @ left)))"

definition validate_path ::
  "(string \<Rightarrow> string + json) \<Rightarrow> (string \<Rightarrow> string + string) \<Rightarrow> string \<Rightarrow> string list" where
  "validate_path loads read path =
     (case bind_res (read path) loads of
        Inl exc \<Rightarrow> [''cannot load '' @ path @ '': '' @ exc]
      | Inr contract \<Rightarrow> semantic_errors contract)"

definition contract_main ::
  "(string \<Rightarrow> string + json) \<Rightarrow> (string \<Rightarrow> string + string) \<Rightarrow> string \<Rightarrow> string list \<Rightarrow> int" where
  "contract_main loads read local args =
     (if validate_path loads read local \<noteq> [] then 1
      else case args of
        [] \<Rightarrow> 0
      | peer # _ \<Rightarrow>
          (case compare_bytes local (read local) peer (read peer) of Some _ \<Rightarrow> 1 | None \<Rightarrow> 0))"


section \<open>The declarative reading\<close>

definition field_at :: "json \<Rightarrow> string list \<Rightarrow> json" where
  "field_at c path = foldl json_get c path"

definition strs :: "string list \<Rightarrow> json" where
  "strs xs = JList (map JStr xs)"

definition frozen_fields :: "(string list \<times> json) list" where
  "frozen_fields =
    [([''schema''], JStr SCHEMA), ([''revision''], JInt REVISION),
     ([''transport'', ''websocket''], JStr ''one IRC message per frame; no trailing frame bytes''),
     ([''capabilities'', ''required_for_first_party_client''], strs REQUIRED_CAPS),
     ([''capabilities'', ''vendor''], VENDOR_CAPS),
     ([''server'', ''group_control''], JStr ''production_active''),
     ([''client''], CLIENT_FIELDS),
     ([''eligibility'', ''guest'', ''onyx_e2ee_negotiation''], JStr ''allowed''),
     ([''eligibility'', ''guest'', ''authoring''], JStr GUEST_AUTHORING),
     ([''eligibility'', ''guest'', ''recipient''], JStr GUEST_RECIPIENT),
     ([''eligibility'', ''authenticated_no_reusable_session'', ''negotiation''], JStr AUTH_NEGOTIATION),
     ([''eligibility'', ''authenticated_no_reusable_session'', ''authoring_defense''],
       JStr AUTH_AUTHORING_DEFENSE),
     ([''session'', ''commands''], strs SESSION_COMMANDS),
     ([''session'', ''resume''], SESSION_RESUME_FIELDS),
     ([''session'', ''replay_live_separation'', ''live_commands''], JStr LIVE_COMMANDS),
     ([''session'', ''replay_live_separation'', ''history_replay''], JStr HISTORY_REPLAY),
     ([''session'', ''replay_live_separation'', ''helix_e2ee_group''], JStr HELIX_E2EE_GROUP),
     ([''session'', ''replay_live_separation'', ''session_resume''], JStr SESSION_RESUME_SPLIT),
     ([''e2ee_group'', ''content_envelope''], JStr ''ONYXROOM1''),
     ([''e2ee_group'', ''message_tag''], JStr ''+onyx/e2ee=mls''),
     ([''e2ee_group'', ''message_tag_semantics''],
       JStr ''internal MLS-family marker only; does not claim RFC 9420 wire interoperability''),
     ([''e2ee_group'', ''trusted_signer'', ''requirement''], JStr ''mandatory_external''),
     ([''e2ee_group'', ''trusted_signer'', ''semantics''], JStr TRUSTED_SIGNER_SEMANTICS),
     ([''e2ee_group'', ''server_secrets''], JStr ''none''),
     ([''e2ee_group'', ''required_policy''], REQUIRED_POLICY_FIELDS),
     ([''e2ee_group'', ''persistence'', ''group_secrets''], JStr ''none''),
     ([''e2ee_group'', ''persistence'', ''offline_recipient''], JStr ''none''),
     ([''e2ee_group'', ''persistence'', ''opaque_control_payload''], JStr ''none_durable''),
     ([''e2ee_group'', ''persistence'', ''allowed_transient''], strs TRANSIENT_PERSISTENCE),
     ([''e2ee_group'', ''persistence'', ''helix_checkpoint''], JStr ''replay_metadata_only''),
     ([''e2ee_group'', ''control_records''], strs CONTROL_KINDS),
     ([''e2ee_group'', ''control_command'', ''name''], JStr ''E2EEGROUP''),
     ([''e2ee_group'', ''control_command'', ''cap_required''], JStr ''onyx/e2ee''),
     ([''e2ee_group'', ''control_command'', ''forms''], strs CONTROL_FORMS),
     ([''e2ee_group'', ''control_command'', ''payload_encoding''],
       JStr ''canonical base64url without padding''),
     ([''e2ee_group'', ''control_command'', ''limits'', ''channel_bytes''], JInt 128),
     ([''e2ee_group'', ''control_command'', ''limits'', ''device_id_bytes''], JInt 32),
     ([''e2ee_group'', ''control_command'', ''limits'', ''account_bytes''], JInt 64),
     ([''e2ee_group'', ''control_command'', ''limits'', ''payload_b64url_chars''], JInt 4096),
     ([''e2ee_group'', ''control_command'', ''delivery'', ''channel_record''], JStr CHANNEL_RECORD),
     ([''e2ee_group'', ''control_command'', ''delivery'', ''welcome_record''], JStr WELCOME_RECORD),
     ([''e2ee_group'', ''control_command'', ''delivery'', ''recipient_gate''], JStr RECIPIENT_GATE),
     ([''e2ee_group'', ''control_command'', ''delivery'', ''welcome_absence''], JStr WELCOME_ABSENCE),
     ([''presence'', ''quit''], PRESENCE_QUIT_FIELDS),
     ([''presence'', ''part''], PRESENCE_PART_FIELDS),
     ([''message_policy_vectors''], MESSAGE_POLICY_VECTORS)] @
    map (\<lambda>(n, v). ([''command_vectors'', ''accepted'', n], v)) ACCEPTED_VECTOR_FIELDS @
    map (\<lambda>(n, v). ([''command_vectors'', ''rejected'', n], v)) REJECTED_VECTOR_FIELDS"

definition frozen_flags :: "(string list \<times> bool) list" where
  "frozen_flags =
    [([''eligibility'', ''guest'', ''reusable_session_required''], False),
     ([''eligibility'', ''authenticated_no_reusable_session'', ''fail_closed''], True),
     ([''e2ee_group'', ''control_command'', ''ircx_required''], True)]"

definition contract_ok :: "json \<Rightarrow> bool" where
  "contract_ok c =
     (is_obj c \<and>
      list_all (\<lambda>(p, v). json_eq (field_at c p) v) frozen_fields \<and>
      list_all (\<lambda>(p, b). field_at c p = JBool b) frozen_flags \<and>
      \<not> json_has (field_at c [''e2ee_group'', ''control_command'', ''limits'']) ''payload_bytes'' \<and>
      set (json_keys (field_at c [''command_vectors'', ''accepted''])) = set ACCEPTED_VECTORS \<and>
      set (json_keys (field_at c [''command_vectors'', ''rejected''])) = set REJECTED_VECTORS)"

section \<open>The validator decides the declarative reading\<close>

lemma need_nil [simp]: "need ok m = [] \<longleftrightarrow> ok"
  by (simp add: need_def)

lemma exact_seq_strs: "exact_seq v xs \<longleftrightarrow> json_eq v (strs xs)"
  by (cases v)
    (auto simp: exact_seq_def strs_def json_eqs_iff list_all2_conv_all_nth list_all_length)

lemma frozen_not_null [simp]:
  "VENDOR_CAPS \<noteq> JNull" "SESSION_RESUME_FIELDS \<noteq> JNull" "REQUIRED_POLICY_FIELDS \<noteq> JNull"
  "PRESENCE_QUIT_FIELDS \<noteq> JNull" "PRESENCE_PART_FIELDS \<noteq> JNull" "strs xs \<noteq> JNull"
  by (simp_all add: VENDOR_CAPS_def SESSION_RESUME_FIELDS_def REQUIRED_POLICY_FIELDS_def
      PRESENCE_QUIT_FIELDS_def PRESENCE_PART_FIELDS_def strs_def)

lemma client_fields_obj: "json_eq v CLIENT_FIELDS \<Longrightarrow> is_obj v"
  by (auto simp: CLIENT_FIELDS_def json_eq_obj)

lemma accountless_differ:
  "ACCOUNTLESS_CHANNEL_RECORD \<noteq> CHANNEL_RECORD" "ACCOUNTLESS_WELCOME_RECORD \<noteq> WELCOME_RECORD"
  by (simp_all add: CHANNEL_RECORD_def ACCOUNTLESS_CHANNEL_RECORD_def WELCOME_RECORD_def
      ACCOUNTLESS_WELCOME_RECORD_def)

lemma named_keys_obj: "set (json_keys v) = set (x # xs) \<Longrightarrow> is_obj v"
  by (cases v) (auto simp: json_keys_def)

lemma vectors_obj:
  "set (json_keys v) = set ACCEPTED_VECTORS \<Longrightarrow> is_obj v"
  "set (json_keys v) = set REJECTED_VECTORS \<Longrightarrow> is_obj v"
  unfolding ACCEPTED_VECTORS_def REJECTED_VECTORS_def by (rule named_keys_obj, assumption)+

lemma guest_ok:
  "guest_errors g = [] \<longleftrightarrow> json_get g ''onyx_e2ee_negotiation'' = JStr ''allowed'' \<and>
     json_get g ''reusable_session_required'' = JBool False \<and>
     json_get g ''authoring'' = JStr GUEST_AUTHORING \<and> json_get g ''recipient'' = JStr GUEST_RECIPIENT"
  by (cases "is_obj g") (simp_all add: guest_errors_def)

lemma auth_ok:
  "auth_errors g = [] \<longleftrightarrow> json_get g ''fail_closed'' = JBool True \<and>
     json_get g ''negotiation'' = JStr AUTH_NEGOTIATION \<and>
     json_get g ''authoring_defense'' = JStr AUTH_AUTHORING_DEFENSE"
  by (cases "is_obj g") (simp_all add: auth_errors_def)

lemma signer_ok:
  "signer_errors g = [] \<longleftrightarrow> json_get g ''requirement'' = JStr ''mandatory_external'' \<and>
     json_get g ''semantics'' = JStr TRUSTED_SIGNER_SEMANTICS"
  by (cases "is_obj g") (simp_all add: signer_errors_def)

lemma persistence_ok:
  "persistence_errors g = [] \<longleftrightarrow> json_get g ''group_secrets'' = JStr ''none'' \<and>
     json_get g ''offline_recipient'' = JStr ''none'' \<and>
     json_get g ''opaque_control_payload'' = JStr ''none_durable'' \<and>
     json_eq (json_get g ''allowed_transient'') (strs TRANSIENT_PERSISTENCE) \<and>
     json_get g ''helix_checkpoint'' = JStr ''replay_metadata_only''"
  by (cases "is_obj g") (simp_all add: persistence_errors_def exact_seq_strs)

lemma limits_ok:
  "limits_errors g = [] \<longleftrightarrow> json_eq (json_get g ''channel_bytes'') (JInt 128) \<and>
     json_eq (json_get g ''device_id_bytes'') (JInt 32) \<and>
     json_eq (json_get g ''account_bytes'') (JInt 64) \<and>
     json_eq (json_get g ''payload_b64url_chars'') (JInt 4096) \<and> \<not> json_has g ''payload_bytes''"
  by (cases "is_obj g") (simp_all add: limits_errors_def)

lemma delivery_ok:
  "delivery_errors g = [] \<longleftrightarrow> json_get g ''channel_record'' = JStr CHANNEL_RECORD \<and>
     json_get g ''welcome_record'' = JStr WELCOME_RECORD \<and>
     json_get g ''recipient_gate'' = JStr RECIPIENT_GATE \<and>
     json_get g ''welcome_absence'' = JStr WELCOME_ABSENCE"
  by (cases "is_obj g") (auto simp: delivery_errors_def accountless_differ)

lemma command_ok:
  "control_command_errors g = [] \<longleftrightarrow> json_get g ''name'' = JStr ''E2EEGROUP'' \<and>
     json_get g ''ircx_required'' = JBool True \<and> json_get g ''cap_required'' = JStr ''onyx/e2ee'' \<and>
     json_eq (json_get g ''forms'') (strs CONTROL_FORMS) \<and>
     json_get g ''payload_encoding'' = JStr ''canonical base64url without padding'' \<and>
     limits_errors (json_get g ''limits'') = [] \<and> delivery_errors (json_get g ''delivery'') = []"
  by (cases "is_obj g") (simp_all add: control_command_errors_def exact_seq_strs)

lemmas contract_sections = transport_errors_def capabilities_errors_def server_errors_def
  client_errors_def eligibility_errors_def session_errors_def group_errors_def presence_errors_def
  Let_def

lemma transport_ok: "transport_errors c = [] \<longleftrightarrow>
    json_get (json_get c ''transport'') ''websocket'' =
      JStr ''one IRC message per frame; no trailing frame bytes''"
  by (cases "is_obj (json_get c ''transport'')") (simp_all add: contract_sections)

lemma capabilities_ok: "capabilities_errors c = [] \<longleftrightarrow>
    json_eq (json_get (json_get c ''capabilities'') ''required_for_first_party_client'')
      (strs REQUIRED_CAPS) \<and>
    json_eq (json_get (json_get c ''capabilities'') ''vendor'') VENDOR_CAPS"
  by (cases "is_obj (json_get c ''capabilities'')") (simp_all add: contract_sections exact_seq_strs)

lemma server_ok: "server_errors c = [] \<longleftrightarrow>
    json_get (json_get c ''server'') ''group_control'' = JStr ''production_active''"
  by (cases "is_obj (json_get c ''server'')") (simp_all add: contract_sections)

lemma client_ok: "client_errors c = [] \<longleftrightarrow> json_eq (json_get c ''client'') CLIENT_FIELDS"
  by (cases "is_obj (json_get c ''client'')") (auto simp: contract_sections dest: client_fields_obj)

lemma eligibility_ok: "eligibility_errors c = [] \<longleftrightarrow>
    guest_errors (json_get (json_get c ''eligibility'') ''guest'') = [] \<and>
    auth_errors (json_get (json_get c ''eligibility'') ''authenticated_no_reusable_session'') = []"
  by (cases "is_obj (json_get c ''eligibility'')") (simp_all add: contract_sections guest_ok auth_ok)

lemma session_ok: "session_errors c = [] \<longleftrightarrow>
    json_eq (field_at c [''session'', ''commands'']) (strs SESSION_COMMANDS) \<and>
    json_eq (field_at c [''session'', ''resume'']) SESSION_RESUME_FIELDS \<and>
    field_at c [''session'', ''replay_live_separation'', ''live_commands''] = JStr LIVE_COMMANDS \<and>
    field_at c [''session'', ''replay_live_separation'', ''history_replay''] = JStr HISTORY_REPLAY \<and>
    field_at c [''session'', ''replay_live_separation'', ''helix_e2ee_group''] = JStr HELIX_E2EE_GROUP \<and>
    field_at c [''session'', ''replay_live_separation'', ''session_resume''] = JStr SESSION_RESUME_SPLIT"
  by (cases "is_obj (json_get c ''session'')";
      cases "is_obj (json_get (json_get c ''session'') ''replay_live_separation'')")
    (simp_all add: contract_sections exact_seq_strs field_at_def Let_def)

lemma group_ok: "group_errors c = [] \<longleftrightarrow>
    field_at c [''e2ee_group'', ''content_envelope''] = JStr ''ONYXROOM1'' \<and>
    field_at c [''e2ee_group'', ''message_tag''] = JStr ''+onyx/e2ee=mls'' \<and>
    field_at c [''e2ee_group'', ''message_tag_semantics''] =
      JStr ''internal MLS-family marker only; does not claim RFC 9420 wire interoperability'' \<and>
    signer_errors (field_at c [''e2ee_group'', ''trusted_signer'']) = [] \<and>
    field_at c [''e2ee_group'', ''server_secrets''] = JStr ''none'' \<and>
    json_eq (field_at c [''e2ee_group'', ''required_policy'']) REQUIRED_POLICY_FIELDS \<and>
    persistence_errors (field_at c [''e2ee_group'', ''persistence'']) = [] \<and>
    json_eq (field_at c [''e2ee_group'', ''control_records'']) (strs CONTROL_KINDS) \<and>
    control_command_errors (field_at c [''e2ee_group'', ''control_command'']) = []"
  by (cases "is_obj (json_get c ''e2ee_group'')")
    (simp_all add: contract_sections exact_seq_strs field_at_def)

lemma presence_ok: "presence_errors c = [] \<longleftrightarrow>
    json_eq (field_at c [''presence'', ''quit'']) PRESENCE_QUIT_FIELDS \<and>
    json_eq (field_at c [''presence'', ''part'']) PRESENCE_PART_FIELDS"
  by (cases "is_obj (json_get c ''presence'')") (simp_all add: contract_sections field_at_def)

lemma concat_need_nil:
  "concat (map (\<lambda>(n, v). need (P n v) (m n)) xs) = [] \<longleftrightarrow> list_all (\<lambda>(n, v). P n v) xs"
  by (induction xs) auto

lemma vectors_ok: "vector_errors c = [] \<longleftrightarrow>
    set (json_keys (field_at c [''command_vectors'', ''accepted''])) = set ACCEPTED_VECTORS \<and>
    set (json_keys (field_at c [''command_vectors'', ''rejected''])) = set REJECTED_VECTORS \<and>
    list_all (\<lambda>(n, v). json_eq (field_at c [''command_vectors'', ''accepted'', n]) v) ACCEPTED_VECTOR_FIELDS \<and>
    list_all (\<lambda>(n, v). json_eq (field_at c [''command_vectors'', ''rejected'', n]) v) REJECTED_VECTOR_FIELDS"
proof (cases "is_obj (json_get c ''command_vectors'')")
  case False
  then show ?thesis
    using vectors_obj(1) [of JNull] by (auto simp: vector_errors_def field_at_def)
next
  case True
  then show ?thesis
    using vectors_obj
    by (auto simp: vector_errors_def field_at_def Let_def has_named_keys_def concat_need_nil
        simp del: concat_eq_Nil_conv)
qed

lemma contract_ok_iff: "semantic_errors c = [] \<longleftrightarrow> contract_ok c"
  unfolding contract_ok_def frozen_fields_def frozen_flags_def
  by (simp add: semantic_errors_def transport_ok capabilities_ok server_ok client_ok eligibility_ok
      guest_ok auth_ok session_ok group_ok signer_ok persistence_ok command_ok limits_ok delivery_ok
      presence_ok vectors_ok field_at_def list_all_append list.pred_map comp_def case_prod_unfold) blast

section \<open>Properties\<close>

text \<open>C24: The validator accepts a contract exactly when it is an object in which every frozen path
  holds its frozen value, the three flags are the booleans themselves, the obsolete
  \<open>payload_bytes\<close> limit is absent and the command vectors have exactly the frozen names.\<close>

theorem contract_decision: "valid_contract c \<longleftrightarrow> contract_ok c"
  by (simp add: valid_contract_def contract_ok_iff)

text \<open>The program exits with 0 exactly when the local file can be read and parsed, satisfies the
  frozen table and, when a peer is named, the peer's file can be read and has the same bytes.\<close>

theorem contract_main_exit:
  "contract_main loads read local args = 0 \<longleftrightarrow>
     (\<exists>bytes c. read local = Inr bytes \<and> loads bytes = Inr c \<and> contract_ok c \<and>
        (case args of [] \<Rightarrow> True | peer # _ \<Rightarrow> read peer = Inr bytes))"
proof -
  have v: "validate_path loads read local = [] \<longleftrightarrow>
      (\<exists>bytes c. read local = Inr bytes \<and> loads bytes = Inr c \<and> contract_ok c)"
    by (auto simp: validate_path_def bind_res_def contract_ok_iff split: sum.splits)
  show ?thesis
  proof (cases args)
    case Nil
    then show ?thesis using v by (auto simp: contract_main_def)
  next
    case (Cons peer rest)
    have "(case compare_bytes local (Inr b) peer r of Some _ \<Rightarrow> 1 | None \<Rightarrow> 0) = (0 :: int) \<longleftrightarrow>
        r = Inr b" for b r
      by (auto simp: compare_bytes_def split: sum.splits)
    then show ?thesis using v Cons by (auto simp: contract_main_def)
  qed
qed

text \<open>The top-level names the validator reads.\<close>

definition contract_sections_read :: "string list" where
  "contract_sections_read = [''schema'', ''revision'', ''transport'', ''capabilities'', ''server'',
     ''client'', ''eligibility'', ''session'', ''e2ee_group'', ''presence'',
     ''message_policy_vectors'', ''command_vectors'']"

lemma json_get_insert:
  "k' \<noteq> k \<Longrightarrow> json_get (JObj (xs @ (k, v) # ys)) k' = json_get (JObj (xs @ ys)) k'"
  by (simp add: json_get_def map_add_def split: option.splits)

lemma semantic_errors_reads:
  assumes "is_obj c" "is_obj d" "\<And>k. k \<in> set contract_sections_read \<Longrightarrow> json_get c k = json_get d k"
  shows "semantic_errors c = semantic_errors d"
  using assms
  by (simp add: semantic_errors_def contract_sections_read_def contract_sections vector_errors_def)

text \<open>A contract may carry further top-level sections: adding one under a name the validator
  does not read changes no error message, so it keeps a valid contract valid.\<close>

theorem contract_extension_neutral:
  assumes "k \<notin> set contract_sections_read"
  shows "semantic_errors (JObj (xs @ (k, v) # ys)) = semantic_errors (JObj (xs @ ys))"
proof (rule semantic_errors_reads)
  fix k' assume "k' \<in> set contract_sections_read"
  then have "k' \<noteq> k" using assms by blast
  then show "json_get (JObj (xs @ (k, v) # ys)) k' = json_get (JObj (xs @ ys)) k'"
    by (rule json_get_insert)
qed simp_all

theorem contract_extension_neutral_witness:
  "''notes'' \<notin> set contract_sections_read \<and>
   semantic_errors (JObj ([(''schema'', JStr SCHEMA)] @ (''notes'', JNull) # [])) =
     semantic_errors (JObj ([(''schema'', JStr SCHEMA)] @ []))"
proof -
  have h: "''notes'' \<notin> set contract_sections_read" by (simp add: contract_sections_read_def)
  show ?thesis using h contract_extension_neutral [OF h] by blast
qed


end
