(* ===== verification/PyText.thy ===== *)
theory PyText
  imports Text_Codecs PyJson
begin

text \<open>
  Shared by the tools that read logs and files: the number templates their regular
  expressions are (literals with one group of decimal digits between any two, \<open>\d\<close> taken as
  the ASCII digits), \<open>bytes.decode\<close> with replacement and \<open>str.splitlines\<close> on UTF-8 bytes,
  \<open>pathlib\<close> paths, and the exceptions of code that walks over JSON values.
\<close>

section \<open>Number templates\<close>

fun match_nums :: "string list \<Rightarrow> string \<Rightarrow> (string list \<times> string) option" where
  "match_nums [] s = Some ([], s)"
| "match_nums (l # ls) s =
     (if startswith s l
      then (let r = drop (length l) s in
            if ls = [] then Some ([], r)
            else (let d = takeWhile is_digit r in
                  if d = [] then None
                  else map_option (\<lambda>(g, t). (d # g, t)) (match_nums ls (drop (length d) r))))
      else None)"

text \<open>\<open>findall\<close>: the groups of the leftmost non-overlapping matches. The number is how many
  characters still belong to the match before.\<close>

fun findall_from :: "string list \<Rightarrow> nat \<Rightarrow> string \<Rightarrow> string list list" where
  "findall_from ls k [] = (if k = 0 then (case match_nums ls [] of Some (g, _) \<Rightarrow> [g] | None \<Rightarrow> []) else [])"
| "findall_from ls k (c # s) =
     (if k > 0 then findall_from ls (k - 1) s
      else case match_nums ls (c # s) of
             Some (g, r) \<Rightarrow> g # findall_from ls (length s - length r) s
           | None \<Rightarrow> findall_from ls 0 s)"

definition findall_nums :: "string list \<Rightarrow> string \<Rightarrow> string list list" where
  "findall_nums ls s = findall_from ls 0 s"

definition nat_of_digits :: "string \<Rightarrow> nat" where
  "nat_of_digits ds = foldl (\<lambda>a c. 10 * a + (case digit_val c of Some d \<Rightarrow> d | None \<Rightarrow> 0)) 0 ds"

definition is_hex_lower :: "char \<Rightarrow> bool" where
  "is_hex_lower c = (is_digit c \<or> c \<in> set ''abcdef'')"

definition hex_digest :: "nat \<Rightarrow> string \<Rightarrow> bool" where
  "hex_digest n s = (length s = n \<and> list_all is_hex_lower s)"

section \<open>Doubles\<close>

text \<open>\<open>dyadic n d\<close> is \<open>n / d\<close> rounded to 53 significant bits, half to even, as a mantissa
  and a binary exponent. \<open>float_times_int\<close> is \<open>int(float(n / d) * k)\<close> for an integer
  \<open>k\<close> below \<open>2 ^ 53\<close>: the quotient is rounded, the product is rounded, the result is cut
  down; \<open>None\<close> is the \<open>OverflowError\<close> of an infinite float. (Below the normal range the
  result is 0 with or without gradual underflow.)\<close>

definition dyadic :: "nat \<Rightarrow> nat \<Rightarrow> nat \<times> int" where
  "dyadic n d =
     (if n = 0 then (0, 0)
      else
        let l0 = int (floor_log2 n) - int (floor_log2 d);
            ge = (if l0 \<ge> 0 then d * 2 ^ nat l0 \<le> n else d \<le> n * 2 ^ nat (- l0));
            e = (if ge then l0 else l0 - 1) - 52
        in (if e \<ge> 0 then round_div n (d * 2 ^ nat e) else round_div (n * 2 ^ nat (- e)) d, e))"

definition float_times_int :: "nat \<Rightarrow> nat \<Rightarrow> nat \<Rightarrow> nat option" where
  "float_times_int n d k =
     (case dyadic n d of (m, e) \<Rightarrow>
      case dyadic (m * k) 1 of (m', e') \<Rightarrow>
        let x = e + e' in
        if m' > 0 \<and> int (floor_log2 m') + x \<ge> 1024 then None
        else Some (if x \<ge> 0 then m' * 2 ^ nat x else m' div 2 ^ nat (- x)))"

section \<open>Text of bytes\<close>

definition decode_replace :: "string \<Rightarrow> string" where
  "decode_replace raw = utf8 (utf8_decode raw)"

definition str_lines :: "string \<Rightarrow> string list" where
  "str_lines s = map utf8 (str_splitlines (utf8_decode s))"

text \<open>\<open>data.decode('utf-8')\<close>: a byte sequence is valid exactly when decoding with replacement
  and encoding again gives it back.\<close>

definition decode_strict :: "string \<Rightarrow> pystr option" where
  "decode_strict raw = (let t = utf8_decode raw in if utf8 t = raw then Some t else None)"

text \<open>\<open>read_text\<close> opens in text mode: \<open>\r\n\<close> and \<open>\r\<close> become \<open>\n\<close>.\<close>

fun universal_newlines :: "pystr \<Rightarrow> pystr" where
  "universal_newlines [] = []"
| "universal_newlines (c # s) =
     (if c = 13 then 10 # universal_newlines (if s \<noteq> [] \<and> hd s = 10 then tl s else s)
      else c # universal_newlines s)"

definition text_of :: "string \<Rightarrow> pystr option" where
  "text_of raw = map_option universal_newlines (decode_strict raw)"

section \<open>Exceptions\<close>

datatype py_error =
    ValueError string
  | TypeError
  | KeyError string
  | IndexError
  | AttributeError
  | RuntimeError string
  | OSError string
  | OverflowError

text \<open>\<open>v[key]\<close>, \<open>v.get(key, default)\<close> and \<open>len(v)\<close> on a JSON value.\<close>

definition py_item :: "json \<Rightarrow> string \<Rightarrow> py_error + json" where
  "py_item v k =
     (case v of
        JObj kvs \<Rightarrow> (case map_of kvs k of Some x \<Rightarrow> Inr x | None \<Rightarrow> Inl (KeyError k))
      | _ \<Rightarrow> Inl TypeError)"

definition py_get :: "json \<Rightarrow> string \<Rightarrow> json \<Rightarrow> py_error + json" where
  "py_get v k d =
     (case v of
        JObj kvs \<Rightarrow> Inr (case map_of kvs k of Some x \<Rightarrow> x | None \<Rightarrow> d)
      | _ \<Rightarrow> Inl AttributeError)"

definition py_len :: "json \<Rightarrow> py_error + nat" where
  "py_len v =
     (case v of JObj kvs \<Rightarrow> Inr (length kvs) | JList xs \<Rightarrow> Inr (length xs)
      | JStr s \<Rightarrow> Inr (length (utf8_decode s)) | _ \<Rightarrow> Inl TypeError)"

text \<open>Iterating: a list gives its elements, an object its keys, a string its characters.\<close>

definition py_iter :: "json \<Rightarrow> py_error + json list" where
  "py_iter v =
     (case v of JList xs \<Rightarrow> Inr xs | JObj kvs \<Rightarrow> Inr (map (JStr \<circ> fst) kvs)
      | JStr s \<Rightarrow> Inr (map (\<lambda>c. JStr (utf8 [c])) (utf8_decode s)) | _ \<Rightarrow> Inl TypeError)"

definition py_str :: "json \<Rightarrow> py_error + string" where
  "py_str v = (case v of JStr s \<Rightarrow> Inr s | _ \<Rightarrow> Inl TypeError)"

text \<open>\<open>bool(v)\<close>.\<close>

fun truthy :: "json \<Rightarrow> bool" where
  "truthy JNull = False"
| "truthy (JBool b) = b"
| "truthy (JInt n) = (n \<noteq> 0)"
| "truthy (JFloat r) = (r \<noteq> 0)"
| "truthy (JInf _) = True"
| "truthy JNaN = True"
| "truthy (JStr s) = (s \<noteq> [])"
| "truthy (JList xs) = (xs \<noteq> [])"
| "truthy (JObj kvs) = (kvs \<noteq> [])"

text \<open>\<open>type(v) is int\<close> (a \<open>bool\<close> is not).\<close>

fun json_int :: "json \<Rightarrow> int option" where
  "json_int (JInt n) = Some n"
| "json_int _ = None"

section \<open>Paths\<close>

text \<open>A \<open>PurePosixPath\<close>: the root (nothing, one slash, or exactly two) and the parts.\<close>

record path =
  pt_root :: string
  pt_parts :: "string list"

definition path_of :: "string \<Rightarrow> path" where
  "path_of s =
     \<lparr> pt_root = (if startswith s ''//'' \<and> \<not> startswith s ''///'' then ''//''
                  else if startswith s ''/'' then ''/'' else []),
       pt_parts = filter (\<lambda>p. p \<noteq> [] \<and> p \<noteq> ''.'') (split_sub ''/'' s) \<rparr>"

definition path_is_absolute :: "path \<Rightarrow> bool" where
  "path_is_absolute p = (pt_root p \<noteq> [])"

definition path_div :: "path \<Rightarrow> path \<Rightarrow> path" where
  "path_div p q =
     (if path_is_absolute q then q else p\<lparr>pt_parts := pt_parts p @ pt_parts q\<rparr>)"

definition path_parent :: "path \<Rightarrow> path" where
  "path_parent p = p\<lparr>pt_parts := butlast (pt_parts p)\<rparr>"

definition path_parents :: "path \<Rightarrow> nat \<Rightarrow> py_error + path" where
  "path_parents p i =
     (if i < length (pt_parts p)
      then Inr (p\<lparr>pt_parts := take (length (pt_parts p) - Suc i) (pt_parts p)\<rparr>)
      else Inl IndexError)"

section \<open>Successful results\<close>

lemma bind_res_Inr [simp]: "bind_res r f = Inr y \<longleftrightarrow> (\<exists>x. r = Inr x \<and> f x = Inr y)"
  by (simp add: bind_res_def split: sum.splits)

lemma require_res_Inr [simp]: "require_res b e = Inr x \<longleftrightarrow> b"
  by (simp add: require_res_def)

end
