(* ===== verification/Parallel_Tests.thy ===== *)
theory Parallel_Tests
  imports PyText "HOL-Library.AList" "HOL-Library.Multiset" "HOL-Library.Product_Lexorder"
begin

text \<open>
  \<open>src/tools/parallel_tests.py\<close>: running one compiled test artifact in shards. Test names and
  logs are UTF-8 bytes. The model covers the timing profile (\<open>parse_durations\<close>,
  \<open>load_profile\<close>, \<open>complete_profile\<close>), the planner (\<open>balanced_names\<close>), the inventories,
  \<open>run\<close> (the plan and its exact-cover check, the wait loop of a shard, its status, the
  totals and the exit code) and the suite totals of \<open>main\<close>. Processes, files, hashes and
  the clock are arguments.
\<close>

section \<open>Regular expressions\<close>

definition summary_lits :: "string list" where
  "summary_lits = [''verbose test summary: '', '' passed; '', '' skipped; '', '' failed; '',
     '' leaked; '', '' log errors'']"

definition executed_lits :: "string list" where
  "executed_lits = [''executed '', '' tests; excluded '', '' tests'']"

definition ROOT_IDENTITIES :: "string list" where
  "ROOT_IDENTITIES = [''module'', ''executable'', ''cli'']"

definition MAX_PROFILE_BYTES :: nat where
  "MAX_PROFILE_BYTES = 16 * 1024 * 1024"

section \<open>Timings\<close>

text \<open>\<open>^\[\d+/\d+\] (.+) \.\.\. \<close>: the group runs to the last \<open> ... \<close> of the line.\<close>

definition match_beginning :: "string \<Rightarrow> string option" where
  "match_beginning line =
     (case match_nums [''['', ''/'', ''] ''] line of
        None \<Rightarrow> None
      | Some (_, r) \<Rightarrow>
          (case rfind_sub r '' ... '' of
             Some i \<Rightarrow> if i > 0 then Some (take i r) else None
           | None \<Rightarrow> None))"

text \<open>\<open>(?:OK|SKIP) \((\d+(?:\.\d+)?)(us|ms|s)\)$\<close> at the start of \<open>s\<close>: integer digits,
  fraction digits, unit factor.\<close>

definition unit_factor :: "string \<Rightarrow> nat option" where
  "unit_factor s =
     (if s = ''us)'' then Some 1000 else if s = ''ms)'' then Some 1000000
      else if s = ''s)'' then Some 1000000000 else None)"

definition match_duration :: "string \<Rightarrow> (string \<times> string \<times> nat) option" where
  "match_duration s =
     (let whole = takeWhile is_digit s; r = dropWhile is_digit s in
      if whole = [] then None
      else case unit_factor r of
        Some f \<Rightarrow> Some (whole, [], f)
      | None \<Rightarrow>
          if startswith r ''.''
          then (let fracs = takeWhile is_digit (tl r) in
                if fracs = [] then None
                else map_option (\<lambda>f. (whole, fracs, f)) (unit_factor (dropWhile is_digit (tl r))))
          else None)"

definition match_finish :: "string \<Rightarrow> (string \<times> string \<times> nat) option" where
  "match_finish s =
     (if startswith s ''OK ('' then match_duration (drop 4 s)
      else if startswith s ''SKIP ('' then match_duration (drop 6 s) else None)"

fun search_finish :: "bool \<Rightarrow> string \<Rightarrow> (string \<times> string \<times> nat) option" where
  "search_finish at_start [] = None"
| "search_finish at_start (c # s) =
     (case (if at_start then match_finish (c # s) else None) of
        Some m \<Rightarrow> Some m
      | None \<Rightarrow>
          (case (if c = CHR '' '' then match_finish s else None) of
             Some m \<Rightarrow> Some m
           | None \<Rightarrow> search_finish False s))"

definition duration_ns :: "string \<times> string \<times> nat \<Rightarrow> nat option" where
  "duration_ns m =
     (case m of (whole, fracs, f) \<Rightarrow>
        map_option (max 1)
          (float_times_int (nat_of_digits (whole @ fracs)) (10 ^ length fracs) f))"

text \<open>One line: the test that is running and the timings found. \<open>None\<close> is the overflow.\<close>

definition duration_step ::
  "string set \<Rightarrow> (string option \<times> (string \<times> nat) list) \<Rightarrow> string \<Rightarrow>
   (string option \<times> (string \<times> nat) list) option" where
  "duration_step allowed st line =
     (let current = (case match_beginning line of Some n \<Rightarrow> Some n | None \<Rightarrow> fst st) in
      case (search_finish True line, current) of
        (Some m, Some n) \<Rightarrow>
          if n \<in> allowed
          then map_option (\<lambda>d. (None, AList.update n d (snd st))) (duration_ns m)
          else Some (current, snd st)
      | _ \<Rightarrow> Some (current, snd st))"

fun duration_lines ::
  "string set \<Rightarrow> (string option \<times> (string \<times> nat) list) \<Rightarrow> string list \<Rightarrow>
   (string \<times> nat) list option" where
  "duration_lines allowed st [] = Some (snd st)"
| "duration_lines allowed st (l # ls) =
     (case duration_step allowed st l of None \<Rightarrow> None | Some st' \<Rightarrow> duration_lines allowed st' ls)"

definition parse_durations :: "string \<Rightarrow> string list \<Rightarrow> (string \<times> nat) list option" where
  "parse_durations txt' names = duration_lines (set names) (None, []) (str_lines txt')"

section \<open>Profiles\<close>

definition non_negative_ints :: "json list \<Rightarrow> bool" where
  "non_negative_ints xs = list_all (\<lambda>c. case json_int c of Some n \<Rightarrow> n \<ge> 0 | None \<Rightarrow> False) xs"

definition int_vals :: "json list \<Rightarrow> int list" where
  "int_vals xs = map (\<lambda>c. case json_int c of Some n \<Rightarrow> n | None \<Rightarrow> 0) xs"

definition duration_entry_ok :: "string \<times> json \<Rightarrow> bool" where
  "duration_entry_ok kv =
     (fst kv \<noteq> [] \<and> list_all (\<lambda>c. c \<notin> {CHR 0x0D, CHR 0x0A, CHR 0x00}) (fst kv) \<and>
      (case json_int (snd kv) of Some ns \<Rightarrow> 0 < ns \<and> ns \<le> 86400000000000 | None \<Rightarrow> False))"

text \<open>The loop body of \<open>load_profile\<close>: any exception it raises is caught, so a rt passes or
  the profile is rejected.\<close>

definition root_ok :: "string \<Rightarrow> json \<Rightarrow> bool" where
  "root_ok identity rt =
     (is_obj rt \<and> json_get rt ''identity'' = JStr identity \<and>
      (case json_get rt ''binary_sha256'' of JStr h \<Rightarrow> hex_digest 64 h | _ \<Rightarrow> False) \<and>
      (case (json_get rt ''totals'', json_int (json_get rt ''discovered'')) of
         (JList counts, Some discovered) \<Rightarrow>
           length counts = 5 \<and> non_negative_ints counts \<and>
           \<not> list_ex truthy (drop 2 counts) \<and>
           sum_list (take 3 (int_vals counts)) = discovered \<and> discovered > 0 \<and>
           (case json_get rt ''durations_ns'' of
              JObj durations \<Rightarrow> int (length durations) = discovered \<and>
                list_all duration_entry_ok durations
            | _ \<Rightarrow> False)
       | _ \<Rightarrow> False))"

definition profile_ok :: "string \<Rightarrow> string \<Rightarrow> json \<Rightarrow> bool" where
  "profile_ok mode target profile =
     (json_wf profile \<and> is_obj profile \<and>
      json_int (json_get profile ''version'') = Some 1 \<and>
      json_get profile ''mode'' = JStr mode \<and> json_get profile ''target'' = JStr target \<and>
      json_get profile ''complete'' = JBool True \<and>
      json_int (json_get profile ''exit_code'') = Some 0 \<and>
      (case json_get profile ''roots'' of
         JList roots \<Rightarrow> length roots = 3 \<and> list_all2 root_ok ROOT_IDENTITIES roots
       | _ \<Rightarrow> False))"

text \<open>\<open>raw\<close> is what \<open>read_bytes\<close> gives (\<open>None\<close> when it raises), \<open>loads\<close> the items as
  they stand in the file, so that \<open>json_wf\<close> is \<open>reject_duplicate_keys\<close> at every level.\<close>

definition load_profile ::
  "(string \<Rightarrow> json option) \<Rightarrow> string option \<Rightarrow> string option \<Rightarrow> string option \<Rightarrow> json option" where
  "load_profile loads raw mode target =
     (case (raw, mode, target) of
        (Some bytes, Some m, Some t) \<Rightarrow>
          if length bytes > MAX_PROFILE_BYTES then None
          else (case loads bytes of
                  Some profile \<Rightarrow> if profile_ok m t profile then Some profile else None
                | None \<Rightarrow> None)
      | _ \<Rightarrow> None)"

section \<open>The planner\<close>

definition median_weight :: "int list \<Rightarrow> int" where
  "median_weight ws =
     (let observed = sort ws in if observed = [] then 1000000 else observed ! (length observed div 2))"

definition weight_of :: "(string \<times> int) list \<Rightarrow> string \<Rightarrow> int" where
  "weight_of weights name =
     (case map_of weights name of Some w \<Rightarrow> w | None \<Rightarrow> median_weight (map snd weights))"

text \<open>\<open>min(range(workers), key=lambda i: (totals[i], i))\<close>: the first least total.\<close>

definition least_loaded :: "int list \<Rightarrow> nat" where
  "least_loaded totals = length (takeWhile (\<lambda>t. t \<noteq> Min (set totals)) totals)"

definition place ::
  "(string \<Rightarrow> int) \<Rightarrow> string list list \<times> int list \<Rightarrow> string \<Rightarrow> string list list \<times> int list" where
  "place w st name =
     (let i = least_loaded (snd st) in
      ((fst st)[i := fst st ! i @ [name]], (snd st)[i := snd st ! i + w name]))"

definition fill_buckets ::
  "(string \<Rightarrow> int) \<Rightarrow> nat \<Rightarrow> string list \<Rightarrow> string list list \<times> int list" where
  "fill_buckets w workers names =
     foldl (place w) (replicate workers [], replicate workers 0) names"

definition balanced_names :: "string list \<Rightarrow> (string \<times> int) list \<Rightarrow> nat \<Rightarrow> string list list" where
  "balanced_names names weights workers =
     (let w = weight_of weights;
          order = sort_key (\<lambda>n. (- w n, n)) names
      in map sort (filter (\<lambda>b. b \<noteq> []) (fst (fill_buckets w workers order))))"

section \<open>Building a profile from a finished suite\<close>

record files =
  read_bytes :: "path \<Rightarrow> py_error + string"
  read_text :: "path \<Rightarrow> py_error + string"
  sha256_hex :: "string \<Rightarrow> string"

definition require :: "bool \<Rightarrow> string \<Rightarrow> (py_error + 'a) \<Rightarrow> py_error + 'a" where
  "require ok message k = (if ok then k else Inl (ValueError message))"

definition in_pair :: "json \<Rightarrow> string \<Rightarrow> bool" where
  "in_pair v s = (json_eq v JNull \<or> json_eq v (JStr s))"

text \<open>The guard on one artifact; the result is its list of totals.\<close>

definition artifact_totals :: "string \<Rightarrow> string \<Rightarrow> string \<Rightarrow> json \<Rightarrow> py_error + json list" where
  "artifact_totals mode target identity artifact =
     (let bad = ''incomplete or failing artifact'' in
      bind_res (py_get artifact ''complete'' JNull) (\<lambda>complete.
      require (complete = JBool True) bad (
      bind_res (py_item artifact ''totals'') (\<lambda>totals.
      bind_res (py_len totals) (\<lambda>n.
      require (n = 5) bad (
      bind_res (py_iter totals) (\<lambda>counts.
      require (non_negative_ints counts \<and> \<not> list_ex truthy (drop 2 counts)) bad (
      bind_res (py_get artifact ''identity'' (JStr identity)) (\<lambda>i.
      bind_res (py_get artifact ''mode'' (JStr mode)) (\<lambda>m.
      bind_res (py_get artifact ''target'' (JStr target)) (\<lambda>t.
      require (json_eq i (JStr identity) \<and> in_pair m mode \<and> in_pair t target) bad
        (Inr counts))))))))))))"

definition artifact_cwd :: "json \<Rightarrow> py_error + path" where
  "artifact_cwd artifact =
     (if json_has artifact ''working_directory''
      then bind_res (py_item artifact ''working_directory'') (\<lambda>d. map_sum id path_of (py_str d))
      else bind_res (py_item artifact ''binary'') (\<lambda>b.
           bind_res (py_str b) (\<lambda>s. path_parents (path_of s) 3)))"

record evidence =
  ev_names :: "string list option"
  ev_timings :: "(string \<times> nat) list"
  ev_executed :: int
  ev_aggregate :: "int list"

definition evidence_start :: evidence where
  "evidence_start = \<lparr> ev_names = None, ev_timings = [], ev_executed = 0,
     ev_aggregate = replicate 5 0 \<rparr>"

definition dict_update :: "('k \<times> 'v) list \<Rightarrow> ('k \<times> 'v) list \<Rightarrow> ('k \<times> 'v) list" where
  "dict_update d e = foldl (\<lambda>d (k, v). AList.update k v d) d e"

definition add_result :: "files \<Rightarrow> path \<Rightarrow> evidence \<Rightarrow> json \<Rightarrow> py_error + evidence" where
  "add_result fs cwd ev result =
     (bind_res (py_item result ''returncode'') (\<lambda>rc.
      require (json_eq rc (JInt 0) \<and> json_get result ''error'' = JNull \<and>
               \<not> truthy (json_get result ''timed_out''))
        ''failed shard cannot provide timings'' (
      bind_res (bind_res (py_item result ''log'') py_str) (\<lambda>log_text.
      let log = (if path_is_absolute (path_of log_text) then path_of log_text
                 else path_div cwd (path_of log_text)) in
      bind_res (read_bytes fs log) (\<lambda>raw.
      bind_res (py_item result ''log_sha256'') (\<lambda>h.
      require (json_eq h (JStr (sha256_hex fs raw))) ''timing evidence log hash mismatch'' (
      let decoded = decode_replace raw;
          summaries = findall_nums summary_lits decoded;
          executions = findall_nums executed_lits decoded in
      require (length summaries = 1 \<and> length executions = 1) ''missing terminal timing evidence'' (
      let counts = map (int \<circ> nat_of_digits) (hd summaries);
          ran = int (nat_of_digits (hd (hd executions))) in
      bind_res (bind_res (py_item result ''counts'') py_iter) (\<lambda>stated.
      require (json_eqs (map JInt counts) stated \<and> sum_list (take 3 counts) = ran \<and>
               list_all (\<lambda>c. c = 0) (drop 2 counts))
        ''timing evidence count mismatch'' (
      bind_res (read_text fs (path_div (path_parent log) (path_of ''inventory.txt''))) (\<lambda>inv_text.
      let current = str_lines inv_text in
      require (ev_names ev = None \<or> ev_names ev = Some current)
        ''shards disagree on full inventory'' (
      case parse_durations decoded current of
        None \<Rightarrow> Inl OverflowError
      | Some found \<Rightarrow> Inr (ev\<lparr> ev_names := Some current,
            ev_timings := dict_update (ev_timings ev) found,
            ev_executed := ev_executed ev + ran,
            ev_aggregate := map2 (+) (ev_aggregate ev) counts \<rparr>)))))))))))))"

fun add_results :: "files \<Rightarrow> path \<Rightarrow> evidence \<Rightarrow> json list \<Rightarrow> py_error + evidence" where
  "add_results fs cwd ev [] = Inr ev"
| "add_results fs cwd ev (r # rs) = bind_res (add_result fs cwd ev r) (\<lambda>ev'. add_results fs cwd ev' rs)"

definition profile_root ::
  "string \<Rightarrow> json \<Rightarrow> string list \<Rightarrow> json list \<Rightarrow> (string \<times> nat) list \<Rightarrow> json" where
  "profile_root identity sha names totals timings =
     (let fallback = median_weight (map (int \<circ> snd) timings) in
      JObj [(''identity'', JStr identity), (''binary_sha256'', sha),
        (''discovered'', JInt (int (length names))), (''totals'', JList totals),
        (''durations_ns'', JObj (map (\<lambda>n. (n, JInt (case map_of timings n of
            Some d \<Rightarrow> int d | None \<Rightarrow> fallback))) names))])"

definition complete_artifact ::
  "files \<Rightarrow> string \<Rightarrow> string \<Rightarrow> string \<Rightarrow> json \<Rightarrow> py_error + json" where
  "complete_artifact fs mode target identity artifact =
     (bind_res (artifact_totals mode target identity artifact) (\<lambda>totals.
      bind_res (artifact_cwd artifact) (\<lambda>cwd.
      bind_res (bind_res (py_item artifact ''results'') py_iter) (\<lambda>results.
      bind_res (add_results fs cwd evidence_start results) (\<lambda>ev.
      case ev_names ev of
        None \<Rightarrow> Inl (ValueError ''incomplete timing inventory'')
      | Some names \<Rightarrow>
          require (names \<noteq> [] \<and> distinct names) ''incomplete timing inventory'' (
          bind_res (py_item artifact ''discovered'') (\<lambda>discovered.
          require (json_eq discovered (JInt (int (length names))) \<and>
                   ev_executed ev = int (length names) \<and>
                   json_eqs (map JInt (ev_aggregate ev)) totals)
            ''incomplete timing inventory'' (
          bind_res (py_item artifact ''binary_sha256'') (\<lambda>sha.
          Inr (profile_root identity sha names totals (ev_timings ev)))))))))))"

fun complete_artifacts ::
  "files \<Rightarrow> string \<Rightarrow> string \<Rightarrow> (string \<times> json) list \<Rightarrow> py_error + json list" where
  "complete_artifacts fs mode target [] = Inr []"
| "complete_artifacts fs mode target ((identity, artifact) # rest) =
     bind_res (complete_artifact fs mode target identity artifact) (\<lambda>r.
     bind_res (complete_artifacts fs mode target rest) (\<lambda>rs. Inr (r # rs)))"

definition root_totals :: "json \<Rightarrow> int list" where
  "root_totals r = (case json_get r ''totals'' of JList xs \<Rightarrow> int_vals xs | _ \<Rightarrow> [])"

definition root_discovered :: "json \<Rightarrow> int" where
  "root_discovered r = (case json_int (json_get r ''discovered'') of Some n \<Rightarrow> n | None \<Rightarrow> 0)"

definition sum_columns :: "int list list \<Rightarrow> int list" where
  "sum_columns rows = map (\<lambda>i. sum_list (map (\<lambda>r. r ! i) rows)) [0..<5]"

definition complete_profile :: "files \<Rightarrow> json \<Rightarrow> string \<Rightarrow> string \<Rightarrow> py_error + json" where
  "complete_profile fs suite mode target =
     (bind_res (py_get suite ''complete'' JNull) (\<lambda>complete.
      require (complete = JBool True \<and> json_int (json_get suite ''exit_code'') = Some 0)
        ''only mechanically complete successful suites can provide timings'' (
      bind_res (py_item suite ''artifacts'') (\<lambda>artifacts.
      bind_res (py_len artifacts) (\<lambda>n.
      require (n = 3) ''timings require module, executable, and CLI roots'' (
      bind_res (py_iter artifacts) (\<lambda>items.
      bind_res (complete_artifacts fs mode target (zip ROOT_IDENTITIES items)) (\<lambda>roots.
      bind_res (py_item suite ''totals'') (\<lambda>totals.
      require (json_eq totals (JList (map JInt (sum_columns (map root_totals roots)))))
        ''suite timing aggregate mismatch'' (
      bind_res (py_item suite ''discovered'') (\<lambda>discovered.
      require (json_eq discovered (JInt (sum_list (map root_discovered roots))))
        ''suite timing aggregate mismatch'' (
      Inr (JObj [(''version'', JInt 1), (''mode'', JStr mode), (''target'', JStr target),
        (''complete'', JBool True), (''exit_code'', JInt 0), (''roots'', JList roots)])))))))))))))"

section \<open>Inventories and the plan\<close>

definition inventory_footer :: "string \<Rightarrow> nat option" where
  "inventory_footer line =
     (case match_nums [''listed '', '' tests; executed 0''] line of
        Some ([d], []) \<Rightarrow> Some (nat_of_digits d)
      | _ \<Rightarrow> None)"

text \<open>\<open>inventory\<close> over the runner's return code and output.\<close>

definition inventory :: "int \<times> string \<Rightarrow> py_error + string list" where
  "inventory p =
     (case p of (returncode, stdout) \<Rightarrow>
      let ls = str_lines stdout in
      if returncode = 2 \<and> contains_sub stdout ''no tests matched'' then Inr []
      else if returncode \<noteq> 0 \<or> length ls < 2 \<or> \<not> startswith (hd ls) ''test selection:'' \<or>
              inventory_footer (last ls) = None
      then Inl (RuntimeError ''invalid inventory'')
      else if length (butlast (tl ls)) \<noteq> the (inventory_footer (last ls))
      then Inl (RuntimeError ''inventory count mismatch'')
      else Inr (butlast (tl ls)))"

datatype policy = All | Conservative

text \<open>A shard's command line: the names of a plan file, all tests, a hash shard, or a group.\<close>

datatype shard_args =
    NameFile nat "string list"
  | Everything
  | HashShard nat nat
  | SerialGroup
  | ParallelShard nat nat

definition candidates ::
  "string list \<Rightarrow> nat \<Rightarrow> policy \<Rightarrow> (string \<times> int) list option \<Rightarrow> shard_args list" where
  "candidates full workers pol weights =
     (case (if workers > 1 \<and> pol = All then weights else None) of
        Some ws \<Rightarrow> map (\<lambda>(i, names). NameFile i names)
                    (enumerate 0 (balanced_names full ws workers))
      | None \<Rightarrow>
          if workers = 1 then [Everything]
          else if pol = All then map (HashShard workers) [0..<workers]
          else SerialGroup # map (ParallelShard (workers - 1)) [0..<workers - 1])"

fun list_shards ::
  "(shard_args \<Rightarrow> int \<times> string) \<Rightarrow> shard_args list \<Rightarrow> py_error + (shard_args \<times> string list) list" where
  "list_shards runner [] = Inr []"
| "list_shards runner (a # as') =
     bind_res (inventory (runner a)) (\<lambda>names.
     bind_res (list_shards runner as') (\<lambda>rest. Inr ((a, names) # rest)))"

definition plan_shards ::
  "(shard_args \<Rightarrow> int \<times> string) \<Rightarrow> nat \<Rightarrow> policy \<Rightarrow> rat \<Rightarrow> (string \<times> int) list option \<Rightarrow>
   py_error + (string list \<times> (shard_args \<times> string list) list)" where
  "plan_shards runner workers pol timeout weights =
     (if \<not> (1 \<le> workers \<and> workers \<le> 4) then Inl (ValueError ''workers must be between 1 and 4'')
      else if timeout \<le> 0 then Inl (ValueError ''timeout must be positive'')
      else
        bind_res (inventory (runner Everything)) (\<lambda>full.
        if full = [] then Inl (RuntimeError ''empty full inventory'')
        else
          bind_res (list_shards runner (candidates full workers pol weights)) (\<lambda>listed.
          let shards = filter (\<lambda>(a, names). names \<noteq> []) listed;
              combined = concat (map snd shards) in
          if mset combined \<noteq> mset full \<or> \<not> distinct combined
          then Inl (RuntimeError ''shard inventories must be a disjoint exact cover of full inventory'')
          else Inr (full, shards))))"

section \<open>Running a shard\<close>

text \<open>One round of the wait loop: the seconds since the start, the stop event, and whether the
  process ends within this round.\<close>

record tick =
  t_elapsed :: rat
  t_stop :: bool
  t_exits :: bool

datatype wait_end = Exited | Stopped bool bool

fun wait_loop :: "rat \<Rightarrow> tick list \<Rightarrow> wait_end option" where
  "wait_loop timeout [] = None"
| "wait_loop timeout (t # ts) =
     (let remaining = timeout - t_elapsed t in
      if remaining \<le> 0 \<or> t_stop t then Some (Stopped (remaining \<le> 0) (t_stop t))
      else if t_exits t then Some Exited
      else wait_loop timeout ts)"

record status =
  st_returncode :: "int option"
  st_counts :: "nat list option"
  st_timed_out :: bool
  st_error :: "string option"

text \<open>\<open>execute\<close>: \<open>opened\<close> is the \<open>OSError\<close> of starting the process, if it raised one.\<close>

definition execute ::
  "string option \<Rightarrow> wait_end \<Rightarrow> int \<Rightarrow> string \<Rightarrow> nat \<Rightarrow> status" where
  "execute os_error ended returncode log_text expected =
     (let timed_out = (case ended of Stopped t _ \<Rightarrow> t | Exited \<Rightarrow> False);
          interrupted = (case ended of Stopped _ s \<Rightarrow> s | Exited \<Rightarrow> False);
          summaries = findall_nums summary_lits log_text;
          executions = findall_nums executed_lits log_text;
          base = \<lparr> st_returncode = Some returncode, st_counts = None, st_timed_out = timed_out,
                   st_error = None \<rparr>
      in
      case os_error of
        Some e \<Rightarrow> base\<lparr>st_returncode := None, st_timed_out := False, st_error := Some e\<rparr>
      | None \<Rightarrow>
          if timed_out then base\<lparr>st_error := Some ''shard timeout''\<rparr>
          else if interrupted then base\<lparr>st_error := Some ''interrupted; shard group terminated''\<rparr>
          else if length summaries \<noteq> 1 \<or> length executions \<noteq> 1
          then base\<lparr>st_error := Some ''missing terminal counts''\<rparr>
          else
            let counts = map nat_of_digits (hd summaries) in
            base\<lparr> st_counts := Some counts,
                  st_error := (if nat_of_digits (hd (hd executions)) \<noteq> expected \<or>
                                  sum_list (take 3 counts) \<noteq> expected
                               then Some ''execution count mismatch'' else None) \<rparr>)"

definition run_totals :: "status list \<Rightarrow> nat list" where
  "run_totals results =
     map (\<lambda>i. sum_list (map (\<lambda>c. c ! i) (List.map_filter st_counts results))) [0..<5]"

definition run_code :: "status list \<Rightarrow> int" where
  "run_code results =
     (if list_ex (\<lambda>r. st_returncode r \<noteq> Some 0 \<or> st_error r \<noteq> None) results \<or>
         list_ex (\<lambda>t. t \<noteq> 0) (drop 2 (run_totals results))
      then 1 else 0)"

definition run_complete :: "status list \<Rightarrow> bool" where
  "run_complete results = list_all (\<lambda>r. st_counts r \<noteq> None \<and> st_error r = None) results"

record metadata =
  md_discovered :: nat
  md_totals :: "nat list"
  md_complete :: bool

text \<open>\<open>run\<close>: \<open>exec\<close> runs the planned shards.\<close>

definition run ::
  "(shard_args \<Rightarrow> int \<times> string) \<Rightarrow> (shard_args \<times> string list \<Rightarrow> status) \<Rightarrow> nat \<Rightarrow> policy \<Rightarrow> rat \<Rightarrow>
   (string \<times> int) list option \<Rightarrow> py_error + (int \<times> metadata)" where
  "run runner exec workers pol timeout weights =
     (bind_res (plan_shards runner workers pol timeout weights) (\<lambda>(full, shards).
      let results = map exec shards in
      Inr (run_code results, \<lparr> md_discovered = length full, md_totals = run_totals results,
                               md_complete = run_complete results \<rparr>)))"

text \<open>The suite record \<open>main\<close> writes over all artifacts: totals, discovered, complete and exit code.\<close>

definition suite_summary :: "(int \<times> metadata) list \<Rightarrow> nat list \<times> nat \<times> bool \<times> int" where
  "suite_summary arts =
     (map (\<lambda>i. sum_list (map (\<lambda>(_, m). md_totals m ! i) arts)) [0..<5],
      sum_list (map (md_discovered \<circ> snd) arts),
      list_all (md_complete \<circ> snd) arts,
      if list_ex (\<lambda>(c, _). c \<noteq> 0) arts then 1 else 0)"

text \<open>The summary lines \<open>main\<close> prints: one per artifact, then one for the suite.\<close>

definition summary_line :: "string \<Rightarrow> nat \<Rightarrow> nat \<Rightarrow> nat list \<Rightarrow> bool \<Rightarrow> string" where
  "summary_line head k discovered totals ok =
     head @ show_nat k @ '' discovered='' @ show_nat discovered @
     '' executed='' @ show_nat (totals ! 0 + totals ! 1 + totals ! 2) @
     '' passed='' @ show_nat (totals ! 0) @ '' skipped='' @ show_nat (totals ! 1) @
     '' failed='' @ show_nat (totals ! 2) @ '' leaked='' @ show_nat (totals ! 3) @
     '' log_errors='' @ show_nat (totals ! 4) @ '' complete='' @ (if ok then ''1'' else ''0'')"

fun artifact_lines :: "nat \<Rightarrow> (int \<times> metadata) list \<Rightarrow> string list" where
  "artifact_lines i [] = []"
| "artifact_lines i (a # as') =
     summary_line ''parallel artifact summary: index='' i (md_discovered (snd a)) (md_totals (snd a))
       (md_complete (snd a)) # artifact_lines (i + 1) as'"

definition suite_report :: "(int \<times> metadata) list \<Rightarrow> string list" where
  "suite_report arts =
     (case suite_summary arts of (totals, discovered, ok, _) \<Rightarrow>
        artifact_lines 0 arts @
        [summary_line ''parallel suite summary: artifacts='' (length arts) discovered totals ok])"

section \<open>The planner is an exact, balanced cover\<close>

lemma least_loaded_min:
  assumes "ts \<noteq> []"
  shows "least_loaded ts < length ts" "ts ! least_loaded ts = Min (set ts)"
proof -
  have "Min (set ts) \<in> set ts" using assms by simp
  then have ex: "\<exists>t \<in> set ts. \<not> t \<noteq> Min (set ts)" by blast
  then show *: "least_loaded ts < length ts"
    unfolding least_loaded_def
    by (metis (mono_tags, lifting) length_takeWhile_le nat_less_le takeWhile_eq_all_conv takeWhile_eq_take take_all_iff)
  show "ts ! least_loaded ts = Min (set ts)"
    using nth_length_takeWhile [of "\<lambda>t. t \<noteq> Min (set ts)" ts] * by (simp add: least_loaded_def)
qed

lemma least_loaded_le:
  assumes "j < length ts"
  shows "ts ! least_loaded ts \<le> ts ! j"
proof -
  have "ts \<noteq> []" using assms by auto
  then show ?thesis using least_loaded_min(2) assms by simp
qed

definition plan_inv ::
  "(string \<Rightarrow> int) \<Rightarrow> nat \<Rightarrow> string multiset \<Rightarrow> string list list \<times> int list \<Rightarrow> bool" where
  "plan_inv w n placed st =
     (length (fst st) = n \<and> length (snd st) = n \<and> mset (concat (fst st)) = placed \<and>
      (\<forall>i < n. snd st ! i = sum_list (map w (fst st ! i))))"

lemma mset_concat_update:
  "i < length bs \<Longrightarrow> mset (concat (bs[i := bs ! i @ [x]])) = add_mset x (mset (concat bs))"
proof (induction bs arbitrary: i)
  case (Cons b bs)
  then show ?case by (cases i) (auto split: nat.splits)
qed simp

lemma place_inv:
  assumes "plan_inv w n placed st" "n > 0"
  shows "plan_inv w n (add_mset x placed) (place w st x)"
proof -
  have "least_loaded (snd st) < n"
    using assms least_loaded_min(1) [of "snd st"] by (force simp: plan_inv_def)
  then show ?thesis
    using assms(1) mset_concat_update [of "least_loaded (snd st)" "fst st" x]
    by (auto simp: plan_inv_def place_def Let_def nth_list_update)
qed

lemma foldl_place_inv:
  assumes "plan_inv w n placed st" "n > 0"
  shows "plan_inv w n (placed + mset xs) (foldl (place w) st xs)"
  using assms(1)
proof (induction xs arbitrary: placed st)
  case (Cons x xs)
  from Cons.IH [OF place_inv [OF Cons.prems assms(2)]] show ?case by simp
qed simp

lemma plan_inv_start: "plan_inv w n {#} (replicate n [], replicate n 0)"
proof -
  have "mset (concat (replicate n [])) = {#}" by (induction n) auto
  then show ?thesis by (simp add: plan_inv_def)
qed

lemma fill_buckets_inv: "n > 0 \<Longrightarrow> plan_inv w n (mset xs) (fill_buckets w n xs)"
  using foldl_place_inv [OF plan_inv_start, of n w xs] by (simp add: fill_buckets_def)

text \<open>Balance: no worker is ahead of another by more than one test.\<close>

definition balanced_by :: "int \<Rightarrow> int list \<Rightarrow> bool" where
  "balanced_by W ts = (\<forall>i < length ts. \<forall>j < length ts. ts ! i \<le> ts ! j + W)"

lemma place_balanced:
  assumes "balanced_by W (snd st)" "0 \<le> w x" "w x \<le> W"
  shows "balanced_by W (snd (place w st x))"
proof -
  define ts m where "ts = snd st" and "m = least_loaded ts"
  have s: "snd (place w st x) = ts[m := ts ! m + w x]"
    by (simp add: place_def Let_def ts_def m_def)
  have "ts[m := ts ! m + w x] ! i \<le> ts[m := ts ! m + w x] ! j + W"
    if ij: "i < length ts" "j < length ts" for i j
  proof -
    have b: "ts ! i \<le> ts ! j + W" and l: "ts ! m \<le> ts ! j"
      using assms(1) ij least_loaded_le [of j ts] by (auto simp: balanced_by_def ts_def m_def)
    show ?thesis using b l ij assms(2,3) by (cases "m = i"; cases "m = j") (simp_all add: nth_list_update)
  qed
  then show ?thesis unfolding s balanced_by_def by simp
qed

lemma fill_buckets_balanced:
  assumes "0 \<le> W" "\<And>x. x \<in> set xs \<Longrightarrow> 0 \<le> w x \<and> w x \<le> W"
  shows "balanced_by W (snd (fill_buckets w n xs))"
proof -
  have "balanced_by W (snd (foldl (place w) st xs))" if "balanced_by W (snd st)" for st
    using that assms(2)
  proof (induction xs arbitrary: st)
    case (Cons x xs)
    show ?case using Cons.IH [OF place_balanced] Cons.prems by simp
  qed simp
  moreover have "balanced_by W (snd (replicate n [] :: string list list, replicate n 0))"
    using assms(1) by (simp add: balanced_by_def)
  ultimately show ?thesis unfolding fill_buckets_def by blast
qed

lemma mset_concat_sorted_buckets:
  "mset (concat (map sort (filter (\<lambda>b. b \<noteq> []) bs))) = mset (concat bs)"
  by (induction bs) auto

end
