(* ===== verification/Test_Plan_Props.thy ===== *)
theory Test_Plan_Props
  imports Parallel_Tests
begin

text \<open>
  The properties of the test runner \<open>src/tools/parallel_tests.py\<close>: the duration planner, the
  exact cover of the shards, what a green run means, and which profiles survive a reload.
\<close>

section \<open>The duration planner\<close>

lemma balanced_names_length:
  "workers \<ge> 1 \<Longrightarrow> length (balanced_names names weights workers) \<le> workers"
  using fill_buckets_inv [of workers "weight_of weights"
      "sort_key (\<lambda>n. (- weight_of weights n, n)) names"]
  by (auto simp: balanced_names_def Let_def plan_inv_def intro: order_trans [OF length_filter_le])

lemma balanced_names_exact:
  assumes "workers > 0"
  shows "mset (concat (balanced_names names weights workers)) = mset names \<and>
    length (balanced_names names weights workers) \<le> workers \<and>
    (\<forall>b \<in> set (balanced_names names weights workers). b \<noteq> [] \<and> sorted b)"
proof -
  define w order where "w = weight_of weights" and "order = sort_key (\<lambda>n. (- w n, n)) names"
  have pl: "plan_inv w workers (mset order) (fill_buckets w workers order)"
    by (rule fill_buckets_inv [OF assms])
  have b: "balanced_names names weights workers =
      map sort (filter (\<lambda>b. b \<noteq> []) (fst (fill_buckets w workers order)))"
    by (simp add: balanced_names_def Let_def w_def order_def)
  have "mset (concat (balanced_names names weights workers)) = mset names"
    unfolding b mset_concat_sorted_buckets using pl by (simp add: plan_inv_def order_def)
  moreover have "length (balanced_names names weights workers) \<le> workers"
    unfolding b using pl length_filter_le [of "\<lambda>b. b \<noteq> []" "fst (fill_buckets w workers order)"]
    by (simp add: plan_inv_def)
  moreover have "\<forall>c \<in> set (balanced_names names weights workers). c \<noteq> [] \<and> sorted c"
    unfolding b by (auto dest: arg_cong [where f = length])
  ultimately show ?thesis by blast
qed

text \<open>The planner hands out every test exactly once: over at least one worker, its buckets
  together are the given names with their multiplicities, there are at most as many buckets as
  workers, and each is non-empty and sorted.\<close>

theorem balanced_names_cover:
  assumes "workers > 0"
  shows "mset (concat (balanced_names names weights workers)) = mset names \<and>
    length (balanced_names names weights workers) \<le> workers \<and>
    (\<forall>b \<in> set (balanced_names names weights workers). b \<noteq> [] \<and> sorted b)"
  by (rule balanced_names_exact [OF assms])

theorem balanced_names_cover_witness:
  "(2 :: nat) > 0 \<and>
   balanced_names [''a'', ''b'', ''c''] [(''a'', 5), (''b'', 9)] 2 = [[''a'', ''b''], [''c'']] \<and>
   mset (concat (balanced_names [''a'', ''b'', ''c''] [(''a'', 5), (''b'', 9)] 2)) =
     mset [''a'', ''b'', ''c'']"
proof -
  have h: "(2 :: nat) > 0" by simp
  have e: "balanced_names [''a'', ''b'', ''c''] [(''a'', 5), (''b'', 9)] 2 = [[''a'', ''b''], [''c'']]"
    by code_simp
  show ?thesis by (intro conjI h e balanced_names_cover [OF h, THEN conjunct1])
qed

definition load_of :: "(string \<times> int) list \<Rightarrow> string list \<Rightarrow> int" where
  "load_of weights b = sum_list (map (weight_of weights) b)"

lemma load_of_mset: "mset b = mset c \<Longrightarrow> load_of ws b = load_of ws c"
  unfolding load_of_def by (metis mset_map sum_mset_sum_list)

lemma sum_list_map_concat: "sum_list (map f (concat xs)) = sum_list (map (\<lambda>x. sum_list (map f x)) xs)"
  by (induction xs) auto

lemma balanced_by_average:
  assumes "balanced_by W ts" "i < length ts"
  shows "int (length ts) * ts ! i \<le> sum_list ts + (int (length ts) - 1) * W"
proof -
  have "(\<Sum>j<length ts. ts ! i) \<le> (\<Sum>j<length ts. ts ! j + (if j = i then 0 else W))"
    using assms by (intro sum_mono) (auto simp: balanced_by_def)
  also have "\<dots> = (\<Sum>j<length ts. ts ! j) + (\<Sum>j<length ts. if j = i then 0 else W)"
    by (rule sum.distrib)
  also have "(\<Sum>j<length ts. if j = i then 0 else W) = (\<Sum>j \<in> {..<length ts} - {i}. W)"
    by (rule sum.mono_neutral_cong_right) auto
  also have "\<dots> = (int (length ts) - 1) * W" using assms(2) by (simp add: of_nat_diff)
  also have "(\<Sum>j<length ts. ts ! j) = sum_list ts"
    by (simp add: sum_list_sum_nth atLeast0LessThan)
  finally show ?thesis by simp
qed

text \<open>C26: The plan is balanced: when no test is heavier than \<open>W\<close>, the load of any two buckets
  differs by at most \<open>W\<close>, and no bucket exceeds the average load of the workers by more than
  \<open>W (workers - 1) / workers\<close>.\<close>

theorem balanced_names_load:
  assumes "workers > 0"
    and "\<forall>n \<in> set names. 0 \<le> weight_of weights n \<and> weight_of weights n \<le> W" "0 \<le> W"
    and "b \<in> set (balanced_names names weights workers)"
      "c \<in> set (balanced_names names weights workers)"
  shows "load_of weights b \<le> load_of weights c + W \<and>
    int workers * load_of weights b \<le> load_of weights names + (int workers - 1) * W"
proof -
  define w order where "w = weight_of weights" and "order = sort_key (\<lambda>n. (- w n, n)) names"
  define st where "st = fill_buckets w workers order"
  have pl: "plan_inv w workers (mset order) st"
    unfolding st_def by (rule fill_buckets_inv [OF assms(1)])
  have bal: "balanced_by W (snd st)"
    unfolding st_def using assms(2,3) by (intro fill_buckets_balanced) (auto simp: w_def order_def)
  have bn: "balanced_names names weights workers = map sort (filter (\<lambda>b. b \<noteq> []) (fst st))"
    by (simp add: balanced_names_def Let_def w_def order_def st_def)
  have load: "\<exists>i < workers. load_of weights x = snd st ! i"
    if x: "x \<in> set (balanced_names names weights workers)" for x
  proof -
    obtain y where y: "y \<in> set (fst st)" "x = sort y" using x unfolding bn by auto
    then obtain i where "i < workers" "fst st ! i = y"
      using pl by (auto simp: in_set_conv_nth plan_inv_def)
    moreover have "load_of weights x = load_of weights y" using y(2) by (intro load_of_mset) simp
    ultimately show ?thesis using pl by (auto simp: plan_inv_def load_of_def w_def)
  qed
  obtain i j where ij: "i < workers" "load_of weights b = snd st ! i" "j < workers"
    "load_of weights c = snd st ! j"
    using load assms(4,5) by blast
  have len: "length (snd st) = workers" using pl by (simp add: plan_inv_def)
  have "sum_list (snd st) = load_of weights (concat (fst st))"
  proof -
    have "snd st = map (\<lambda>b. sum_list (map w b)) (fst st)"
      using pl by (intro nth_equalityI) (auto simp: plan_inv_def)
    then show ?thesis by (simp add: load_of_def w_def sum_list_map_concat)
  qed
  also have "\<dots> = load_of weights names"
    using pl by (intro load_of_mset) (simp add: plan_inv_def order_def)
  finally show ?thesis
    using ij bal len balanced_by_average [OF bal, of i] by (auto simp: balanced_by_def)
qed

theorem balanced_names_load_witness:
  "(2 :: nat) > 0 \<and>
   [''a'', ''b''] \<in> set (balanced_names [''a'', ''b'', ''c''] [(''a'', 5), (''b'', 9)] 2) \<and>
   load_of [(''a'', 5), (''b'', 9)] [''a'', ''b''] \<le> load_of [(''a'', 5), (''b'', 9)] [''c''] + 9"
proof -
  have e: "balanced_names [''a'', ''b'', ''c''] [(''a'', 5), (''b'', 9)] 2 = [[''a'', ''b''], [''c'']]"
    by code_simp
  have w: "weight_of [(''a'', 5), (''b'', 9)] ''a'' = 5" "weight_of [(''a'', 5), (''b'', 9)] ''b'' = 9"
    "weight_of [(''a'', 5), (''b'', 9)] ''c'' = 9"
    by code_simp+
  have "load_of [(''a'', 5), (''b'', 9)] [''a'', ''b''] \<le> load_of [(''a'', 5), (''b'', 9)] [''c''] + 9 \<and>
    int 2 * load_of [(''a'', 5), (''b'', 9)] [''a'', ''b''] \<le>
      load_of [(''a'', 5), (''b'', 9)] [''a'', ''b'', ''c''] + (int 2 - 1) * 9"
    by (rule balanced_names_load) (simp_all add: e w)
  then show ?thesis using e by simp
qed

section \<open>Timings\<close>

definition timings_ok :: "string set \<Rightarrow> (string \<times> nat) list \<Rightarrow> bool" where
  "timings_ok allowed d = (fst ` set d \<subseteq> allowed \<and> list_all (\<lambda>(_, ns). 1 \<le> ns) d)"

lemma timings_ok_update:
  "n \<in> allowed \<Longrightarrow> timings_ok allowed xs \<Longrightarrow> timings_ok allowed (AList.update n (max 1 d) xs)"
  by (induction xs) (auto simp: timings_ok_def)

lemma duration_step_cases:
  assumes "duration_step allowed st l = Some st'"
  obtains "snd st' = snd st"
    | n d where "n \<in> allowed" "snd st' = AList.update n (max 1 d) (snd st)"
  using assms
  by (auto simp: duration_step_def duration_ns_def Let_def split: option.splits if_splits prod.splits)

lemma duration_lines_keys:
  "duration_lines allowed st ls = Some d \<Longrightarrow> timings_ok allowed (snd st) \<Longrightarrow> timings_ok allowed d"
proof (induction ls arbitrary: st)
  case (Cons l ls)
  obtain st' where st': "duration_step allowed st l = Some st'" "duration_lines allowed st' ls = Some d"
    using Cons.prems(1) by (auto split: option.splits)
  have "timings_ok allowed (snd st')"
    using st'(1) by (cases rule: duration_step_cases) (simp_all add: Cons.prems(2) timings_ok_update del: One_nat_def)
  then show ?case using Cons.IH st'(2) by blast
qed simp

text \<open>The timings read from a log are timings of known tests only, and each is at least one
  nanosecond.\<close>

theorem parse_durations_sound:
  assumes "parse_durations s names = Some d"
  shows "fst ` set d \<subseteq> set names \<and> list_all (\<lambda>(_, ns). 1 \<le> ns) d"
  using duration_lines_keys [OF assms [unfolded parse_durations_def]] by (simp add: timings_ok_def)

theorem parse_durations_sound_witness:
  "parse_durations ''[1/1] a ... OK (2us)'' [''a''] = Some [(''a'', 2000)] \<and>
   list_all (\<lambda>(_, ns). 1 \<le> ns) [(''a'', 2000 :: nat)]"
proof -
  have e: "parse_durations ''[1/1] a ... OK (2us)'' [''a''] = Some [(''a'', 2000)]"
    by code_simp
  show ?thesis by (intro conjI e parse_durations_sound [OF e, THEN conjunct2])
qed

section \<open>The shards\<close>

lemma list_shards_args:
  "list_shards runner as' = Inr listed \<Longrightarrow> map fst listed = as'"
  by (induction as' arbitrary: listed) (auto simp: bind_res_def split: sum.splits)

lemma candidates_at_most: "workers \<ge> 1 \<Longrightarrow> length (candidates full workers pol weights) \<le> workers"
  using balanced_names_length [of workers]
  by (auto simp: candidates_def split: option.split)

lemma plan_shards_elim:
  assumes "plan_shards runner workers pol timeout weights = Inr (full, shards)"
  shows "1 \<le> workers" "workers \<le> 4" "full \<noteq> []" "inventory (runner Everything) = Inr full"
    "mset (concat (map snd shards)) = mset full" "distinct (concat (map snd shards))"
    "\<exists>listed. list_shards runner (candidates full workers pol weights) = Inr listed \<and>
       shards = filter (\<lambda>(a, names). names \<noteq> []) listed"
  using assms by (auto simp: plan_shards_def bind_res_def Let_def split: if_splits sum.splits)

lemma distinct_concat_unique:
  assumes "distinct (concat xss)" "i < length xss" "j < length xss" "x \<in> set (xss ! i)" "x \<in> set (xss ! j)"
  shows "i = j"
  using assms
proof (induction xss arbitrary: i j)
  case (Cons xs xss)
  have "set xs \<inter> set (xss ! k) = {}" if "k < length xss" for k
    using Cons.prems(1) nth_mem [OF that] by auto
  then show ?case using Cons by (cases i; cases j) auto
qed simp

text \<open>A plan that is accepted is a partition: there are at most \<open>workers\<close> (one to four) shards,
  none is empty, no test is listed twice, and every test of the full inventory is in exactly one
  shard.\<close>

theorem plan_shards_partition:
  assumes "plan_shards runner workers pol timeout weights = Inr (full, shards)"
  shows "length shards \<le> workers \<and> workers \<le> 4 \<and> distinct full \<and>
    (\<forall>s \<in> set shards. snd s \<noteq> []) \<and>
    (\<forall>n \<in> set full. \<exists>!i. i < length shards \<and> n \<in> set (snd (shards ! i)))"
proof -
  note pe = plan_shards_elim [OF assms]
  obtain listed where l: "list_shards runner (candidates full workers pol weights) = Inr listed"
    "shards = filter (\<lambda>(a, names). names \<noteq> []) listed"
    using pe(7) by blast
  have "length shards \<le> length listed" unfolding l(2) by (rule length_filter_le)
  also have "\<dots> = length (candidates full workers pol weights)"
    using list_shards_args [OF l(1)] by (metis length_map)
  also have "\<dots> \<le> workers" using candidates_at_most [OF pe(1)] .
  finally have len: "length shards \<le> workers" .
  have d: "distinct full" using pe(5,6) by (metis mset_eq_imp_distinct_iff)
  have "\<exists>!i. i < length shards \<and> n \<in> set (snd (shards ! i))" if n: "n \<in> set full" for n
  proof -
    have "n \<in> set (concat (map snd shards))" using n pe(5) by (metis mset_eq_setD)
    then obtain sh where "sh \<in> set shards" "n \<in> set (snd sh)" by auto
    then obtain i where i: "i < length shards" "n \<in> set (snd (shards ! i))"
      by (metis in_set_conv_nth)
    moreover have "j = i" if "j < length shards" "n \<in> set (snd (shards ! j))" for j
      using distinct_concat_unique [OF pe(6), of j i n] that i by simp
    ultimately show ?thesis by blast
  qed
  moreover have "\<forall>s \<in> set shards. snd s \<noteq> []" unfolding l(2) by auto
  ultimately show ?thesis using len pe(2) d by blast
qed

definition listing :: "string list \<Rightarrow> int \<times> string" where
  "listing names = (0, join [CHR 0x0A] ([''test selection: all''] @ names @
     [''listed '' @ show_nat (length names) @ '' tests; executed 0'']))"

definition demo_runner :: "shard_args \<Rightarrow> int \<times> string" where
  "demo_runner a =
     (case a of Everything \<Rightarrow> listing [''a'', ''b''] | HashShard _ i \<Rightarrow> listing [[''b'', ''a''] ! i]
      | NameFile _ names \<Rightarrow> listing names | _ \<Rightarrow> listing [])"

lemma demo_plan:
  "plan_shards demo_runner 2 All 3600 None =
     Inr ([''a'', ''b''], [(HashShard 2 0, [''b'']), (HashShard 2 1, [''a''])])"
  by code_simp

theorem plan_shards_partition_witness:
  "plan_shards demo_runner 2 All 3600 None =
     Inr ([''a'', ''b''], [(HashShard 2 0, [''b'']), (HashShard 2 1, [''a''])]) \<and>
   distinct [''a'', ''b'']"
  by (intro conjI demo_plan plan_shards_partition [OF demo_plan, THEN conjunct2, THEN conjunct2, THEN conjunct1])

text \<open>When the test binary lists exactly the names of a plan file it is given, planning by
  duration always yields an accepted plan, whose shards run precisely the planner's buckets.\<close>

theorem duration_plan_accepted:
  assumes "2 \<le> workers" "workers \<le> 4" "0 < timeout"
    and "inventory (runner Everything) = Inr full" "full \<noteq> []" "distinct full"
    and "\<And>i. i < length (balanced_names full weights workers) \<Longrightarrow>
      inventory (runner (NameFile i (balanced_names full weights workers ! i))) =
        Inr (balanced_names full weights workers ! i)"
  shows "\<exists>shards. plan_shards runner workers All timeout (Some weights) = Inr (full, shards) \<and>
    map snd shards = balanced_names full weights workers"
proof -
  define bs where "bs = balanced_names full weights workers"
  have c: "candidates full workers All (Some weights) = map (\<lambda>(i, names). NameFile i names) (enumerate 0 bs)"
    using assms(1) by (simp add: candidates_def bs_def)
  have l: "list_shards runner (map (\<lambda>(i, names). NameFile i names) (enumerate k xs)) =
      Inr (map (\<lambda>(i, names). (NameFile i names, names)) (enumerate k xs))"
    if "\<And>i. i < length xs \<Longrightarrow> inventory (runner (NameFile (k + i) (xs ! i))) = Inr (xs ! i)" for k xs
    using that
  proof (induction xs arbitrary: k)
    case (Cons x xs)
    have "inventory (runner (NameFile k x)) = Inr x" using Cons.prems [of 0] by simp
    moreover have "inventory (runner (NameFile (Suc k + i) (xs ! i))) = Inr (xs ! i)" if "i < length xs" for i
      using Cons.prems [of "Suc i"] that by simp
    ultimately show ?case using Cons.IH [of "Suc k"] by (simp add: bind_res_def)
  qed simp
  have lc: "list_shards runner (candidates full workers All (Some weights)) =
      Inr (map (\<lambda>(i, names). (NameFile i names, names)) (enumerate 0 bs))"
    unfolding c by (rule l) (simp add: bs_def assms(7))
  have cover: "mset (concat bs) = mset full" "\<forall>b \<in> set bs. b \<noteq> []"
    using balanced_names_exact [of workers full weights] assms(1) by (auto simp: bs_def)
  have snd: "map snd (map (\<lambda>(i, names). (NameFile i names, names)) (enumerate 0 bs)) = bs"
    by (simp add: comp_def case_prod_unfold)
  have fl: "filter (\<lambda>(a, names). names \<noteq> []) (map (\<lambda>(i, names). (NameFile i names, names)) (enumerate 0 bs)) =
      map (\<lambda>(i, names). (NameFile i names, names)) (enumerate 0 bs)"
    using cover(2) by (auto simp: in_set_enumerate_eq intro!: filter_True)
  have "distinct (concat bs)" using cover(1) assms(6) by (metis mset_eq_imp_distinct_iff)
  then have "plan_shards runner workers All timeout (Some weights) =
      Inr (full, map (\<lambda>(i, names). (NameFile i names, names)) (enumerate 0 bs))"
    using assms(1-5) cover(1) by (simp add: plan_shards_def Let_def bind_res_def lc fl snd del: map_map)
  then show ?thesis using snd unfolding bs_def by blast
qed

theorem duration_plan_accepted_witness:
  "inventory (demo_runner Everything) = Inr [''a'', ''b''] \<and>
   (\<exists>shards. plan_shards demo_runner 2 All 3600 (Some [(''b'', 7)]) = Inr ([''a'', ''b''], shards) \<and>
     map snd shards = balanced_names [''a'', ''b''] [(''b'', 7)] 2)"
proof -
  have i: "inventory (demo_runner Everything) = Inr [''a'', ''b'']" by code_simp
  have b: "balanced_names [''a'', ''b''] [(''b'', 7)] 2 = [[''a''], [''b'']]" by code_simp
  have f: "inventory (demo_runner (NameFile i [''a''])) = Inr [''a'']"
    "inventory (demo_runner (NameFile i [''b''])) = Inr [''b'']" for i
    unfolding demo_runner_def shard_args.case by code_simp+
  have "\<exists>shards. plan_shards demo_runner 2 All 3600 (Some [(''b'', 7)]) = Inr ([''a'', ''b''], shards) \<and>
     map snd shards = balanced_names [''a'', ''b''] [(''b'', 7)] 2"
  proof (rule duration_plan_accepted)
    fix i assume "i < length (balanced_names [''a'', ''b''] [(''b'', 7)] 2)"
    then have "i = 0 \<or> i = 1" by (auto simp: b)
    then show "inventory (demo_runner (NameFile i (balanced_names [''a'', ''b''] [(''b'', 7)] 2 ! i))) =
        Inr (balanced_names [''a'', ''b''] [(''b'', 7)] 2 ! i)"
      using f by (auto simp: b)
  qed (simp_all add: i)
  then show ?thesis by (intro conjI i)
qed

section \<open>A green run\<close>

text \<open>The shard runner of the program: the status of each shard from the outcome of its process.\<close>

definition run_shard ::
  "(shard_args \<Rightarrow> string option \<times> wait_end \<times> int \<times> string) \<Rightarrow> shard_args \<times> string list \<Rightarrow> status" where
  "run_shard outcome s =
     (case outcome (fst s) of (os_error, ended, rc, log_text) \<Rightarrow>
        execute os_error ended rc log_text (length (snd s)))"

lemma run_shard_ok:
  assumes "st_error (run_shard outcome s) = None"
  shows "\<exists>c. st_counts (run_shard outcome s) = Some c \<and> sum_list (take 3 c) = length (snd s)"
  using assms
  by (auto simp: run_shard_def execute_def Let_def split: prod.splits option.splits if_splits)

lemma match_nums_length: "match_nums ls s = Some (g, r) \<Longrightarrow> length g = length ls - Suc 0"
proof (induction ls arbitrary: s g r)
  case (Cons l ls)
  show ?case
  proof (cases "ls = []")
    case True
    with Cons.prems show ?thesis by (simp split: if_splits)
  next
    case False
    with Cons.prems obtain d g' s' where "g = d # g'" "match_nums ls s' = Some (g', r)"
      by (auto simp: Let_def split: if_splits)
    with Cons.IH [of s' g' r] False show ?thesis by (cases ls) simp_all
  qed
qed simp

lemma findall_from_length: "g \<in> set (findall_from ls k s) \<Longrightarrow> length g = length ls - Suc 0"
proof (induction s arbitrary: k)
  case Nil
  show ?case
  proof (cases "match_nums ls []")
    case None
    then show ?thesis using Nil by (cases "k = 0") simp_all
  next
    case (Some a)
    then show ?thesis using Nil match_nums_length [of ls "[]" "fst a" "snd a"]
      by (cases "k = 0"; cases a) simp_all
  qed
next
  case (Cons c s)
  show ?case
  proof (cases "match_nums ls (c # s)")
    case None
    then show ?thesis using Cons by (cases "k > 0") simp_all
  next
    case (Some a)
    then show ?thesis using Cons match_nums_length [of ls "c # s" "fst a" "snd a"]
      by (cases "k > 0"; cases a) auto
  qed
qed

lemma run_shard_counts_length:
  assumes "st_counts (run_shard outcome s) = Some c"
  shows "length c = 5"
proof -
  have "length (hd (findall_nums summary_lits t)) = 5" if "length (findall_nums summary_lits t) = Suc 0" for t
    using that findall_from_length [of "hd (findall_nums summary_lits t)" summary_lits 0 t]
    by (cases "findall_nums summary_lits t") (auto simp: findall_nums_def summary_lits_def)
  then show ?thesis
    using assms
    by (auto simp: run_shard_def execute_def Let_def split: prod.splits option.splits if_splits)
qed

lemma sum_take3: "length c = 5 \<Longrightarrow> sum_list (take 3 c) = c ! 0 + c ! 1 + (c ! 2 :: nat)"
  by (auto simp: length_Suc_conv numeral_eq_Suc)

lemma map_filter_some: "(\<And>x. x \<in> set xs \<Longrightarrow> f x = Some (g x)) \<Longrightarrow> List.map_filter f xs = map g xs"
  by (induction xs) (auto simp: List.map_filter_simps)

text \<open>C25: A run that reports success ran the whole inventory: with exit code 0 every shard ended by
  itself with its counts, the run is complete, passed and skipped tests together are exactly the
  discovered ones, and nothing failed, leaked or logged an error.\<close>

theorem green_run_exact:
  assumes "run runner (run_shard outcome) workers pol timeout weights = Inr (0, md)"
  shows "md_complete md \<and> md_totals md ! 0 + md_totals md ! 1 = md_discovered md \<and>
    list_all (\<lambda>t. t = 0) (drop 2 (md_totals md))"
proof -
  obtain full shards where pl: "plan_shards runner workers pol timeout weights = Inr (full, shards)"
    and code: "run_code (map (run_shard outcome) shards) = 0"
    and md: "md = \<lparr> md_discovered = length full, md_totals = run_totals (map (run_shard outcome) shards),
      md_complete = run_complete (map (run_shard outcome) shards) \<rparr>"
    using assms by (auto simp: run_def bind_res_def Let_def split: sum.splits)
  define R where "R = map (run_shard outcome) shards"
  have err: "st_error (run_shard outcome s) = None" if "s \<in> set shards" for s
    using code that by (auto simp: run_code_def list_ex_iff split: if_splits)
  have zero: "list_all (\<lambda>t. t = 0) (drop 2 (run_totals R))"
    using code by (auto simp: run_code_def R_def list_ex_iff list_all_iff split: if_splits)
  define c where "c s = the (st_counts (run_shard outcome s))" for s
  have c: "st_counts (run_shard outcome s) = Some (c s)" "length (c s) = 5"
    "c s ! 0 + c s ! 1 + c s ! 2 = length (snd s)" if s: "s \<in> set shards" for s
  proof -
    obtain c' where "st_counts (run_shard outcome s) = Some c'" "sum_list (take 3 c') = length (snd s)"
      using run_shard_ok [OF err [OF s]] by blast
    moreover from this(1) have "length c' = 5" by (rule run_shard_counts_length)
    ultimately show "st_counts (run_shard outcome s) = Some (c s)" "length (c s) = 5"
      "c s ! 0 + c s ! 1 + c s ! 2 = length (snd s)"
      using sum_take3 [of c'] by (simp_all add: c_def)
  qed
  have "List.map_filter st_counts R = map c shards"
    using c(1) by (auto simp: R_def List.map_filter_def comp_def intro!: map_filter_some)
  then have tot: "run_totals R ! i = sum_list (map (\<lambda>s. c s ! i) shards)" if "i < 5" for i
    using that by (simp add: run_totals_def comp_def)
  have "sum_list (map (\<lambda>s. c s ! 0) shards) + sum_list (map (\<lambda>s. c s ! 1) shards) +
      sum_list (map (\<lambda>s. c s ! 2) shards) = sum_list (map (\<lambda>s. c s ! 0 + c s ! 1 + c s ! 2) shards)"
    by (simp add: sum_list_addf)
  also have "\<dots> = length (concat (map snd shards))"
    using c(3) by (simp add: length_concat comp_def cong: map_cong)
  also have "\<dots> = length full" using plan_shards_elim(5) [OF pl] by (metis size_mset)
  finally have "run_totals R ! 0 + run_totals R ! 1 + run_totals R ! 2 = length full"
    by (simp add: tot)
  moreover have "run_totals R ! 2 = 0" using zero by (simp add: run_totals_def upt_rec)
  moreover have "run_complete R" using err c(1) by (auto simp: run_complete_def R_def list_all_iff)
  ultimately show ?thesis using zero by (simp add: md R_def)
qed

definition demo_shard_log :: string where
  "demo_shard_log =
     ''verbose test summary: 1 passed; 0 skipped; 0 failed; 0 leaked; 0 log errors'' @ [CHR 0x0A] @
     ''executed 1 tests; excluded 1 tests''"

definition demo_status :: status where
  "demo_status = \<lparr> st_returncode = Some 0, st_counts = Some [1, 0, 0, 0, 0], st_timed_out = False,
     st_error = None \<rparr>"

definition demo_metadata :: metadata where
  "demo_metadata = \<lparr> md_discovered = 2, md_totals = [2, 0, 0, 0, 0], md_complete = True \<rparr>"

lemma demo_execute: "execute None Exited 0 demo_shard_log 1 = demo_status"
  by code_simp

lemma demo_results:
  "run_code [demo_status, demo_status] = 0" "run_totals [demo_status, demo_status] = [2, 0, 0, 0, 0]"
  "run_complete [demo_status, demo_status]"
  by code_simp+

theorem green_run_exact_witness:
  "run demo_runner (run_shard (\<lambda>_. (None, Exited, 0, demo_shard_log))) 2 All 3600 None =
     Inr (0, demo_metadata) \<and>
   md_totals demo_metadata ! 0 + md_totals demo_metadata ! 1 = md_discovered demo_metadata"
proof -
  have r: "run demo_runner (run_shard (\<lambda>_. (None, Exited, 0, demo_shard_log))) 2 All 3600 None =
      Inr (0, demo_metadata)"
    by (simp add: run_def demo_plan bind_res_def run_shard_def demo_execute [unfolded One_nat_def]
        demo_results demo_metadata_def)
  show ?thesis by (intro conjI r green_run_exact [OF r, THEN conjunct2, THEN conjunct1])
qed

end
