(* ===== verification/Test_Profile_Props.thy ===== *)
theory Test_Profile_Props
  imports Test_Plan_Props
begin

text \<open>
  Timing profiles of \<open>src/tools/parallel_tests.py\<close>: what \<open>complete_profile\<close> derives from a
  finished suite, and when \<open>load_profile\<close> accepts it again.
\<close>

lemma require_Inr [simp]: "require ok m k = Inr y \<longleftrightarrow> ok \<and> k = Inr y"
  by (simp add: require_def)

lemma py_iter_length: "py_len v = Inr n \<Longrightarrow> py_iter v = Inr xs \<Longrightarrow> length xs = n"
  by (cases v) (auto simp: py_len_def py_iter_def)

definition evidence_inv :: "evidence \<Rightarrow> bool" where
  "evidence_inv ev =
     (length (ev_aggregate ev) = 5 \<and> sum_list (take 3 (ev_aggregate ev)) = ev_executed ev)"

lemma evidence_start_inv: "evidence_inv evidence_start"
  by (simp add: evidence_inv_def evidence_start_def numeral_eq_Suc)

lemma sum_take3_map2:
  "length xs = 5 \<Longrightarrow> length ys = 5 \<Longrightarrow>
   sum_list (take 3 (map2 (+) xs ys)) = sum_list (take 3 xs) + sum_list (take 3 (ys :: int list))"
  by (auto simp: length_Suc_conv numeral_eq_Suc)

lemma summary_groups: "length (findall_nums summary_lits t) = 1 \<Longrightarrow> length (hd (findall_nums summary_lits t)) = 5"
  using findall_from_length [of "hd (findall_nums summary_lits t)" summary_lits 0 t]
  by (cases "findall_nums summary_lits t") (auto simp: findall_nums_def summary_lits_def)

definition stated_counts :: "string \<Rightarrow> int list" where
  "stated_counts t = map (int \<circ> nat_of_digits) (hd (findall_nums summary_lits t))"

lemma add_result_counts:
  assumes "add_result fs cwd ev r = Inr ev'"
  shows "\<exists>t. length (findall_nums summary_lits t) = 1 \<and>
    ev_aggregate ev' = map2 (+) (ev_aggregate ev) (stated_counts t) \<and>
    ev_executed ev' = ev_executed ev + sum_list (take 3 (stated_counts t))"
  using assms
  by (clarsimp simp: add_result_def Let_def split: option.splits)
    (intro exI conjI, assumption, simp_all add: stated_counts_def)

lemma add_result_inv:
  assumes "evidence_inv ev" "add_result fs cwd ev r = Inr ev'"
  shows "evidence_inv ev'"
proof -
  obtain t where t: "length (findall_nums summary_lits t) = 1"
    "ev_aggregate ev' = map2 (+) (ev_aggregate ev) (stated_counts t)"
    "ev_executed ev' = ev_executed ev + sum_list (take 3 (stated_counts t))"
    using add_result_counts [OF assms(2)] by blast
  have "length (stated_counts t) = 5" using summary_groups [OF t(1)] by (simp add: stated_counts_def)
  with assms(1) t(2,3) show ?thesis by (simp add: evidence_inv_def sum_take3_map2)
qed

lemma add_results_inv:
  "evidence_inv ev \<Longrightarrow> add_results fs cwd ev rs = Inr ev' \<Longrightarrow> evidence_inv ev'"
  by (induction rs arbitrary: ev) (auto dest: add_result_inv)

lemma int_vals_eq:
  "json_eqs (map JInt agg) totals \<Longrightarrow> non_negative_ints totals \<Longrightarrow> int_vals totals = agg"
proof (induction agg arbitrary: totals)
  case (Cons a agg)
  then obtain v vs where "totals = v # vs" "json_num v = Some (of_int a)" "json_eqs (map JInt agg) vs"
    by (auto split: list.splits)
  with Cons show ?case by (cases v) (auto simp: int_vals_def non_negative_ints_def)
qed (auto simp: int_vals_def)

definition sound_root :: "string \<Rightarrow> json \<Rightarrow> bool" where
  "sound_root identity r =
     (\<exists>sha names totals timings. r = profile_root identity sha names totals timings \<and>
        names \<noteq> [] \<and> distinct names \<and> length totals = 5 \<and> non_negative_ints totals \<and>
        \<not> list_ex truthy (drop 2 totals) \<and> sum_list (take 3 (int_vals totals)) = int (length names))"

lemma int_vals_length: "length (int_vals xs) = length xs"
  by (simp add: int_vals_def)

lemma artifact_totals_sound:
  "artifact_totals mode target identity artifact = Inr totals \<Longrightarrow>
   non_negative_ints totals \<and> \<not> list_ex truthy (drop 2 totals)"
  by (auto simp: artifact_totals_def Let_def)

lemma complete_artifact_sound:
  assumes "complete_artifact fs mode target identity artifact = Inr r"
  shows "sound_root identity r"
proof -
  obtain totals cwd rs ev names sha where
    t: "artifact_totals mode target identity artifact = Inr totals"
    and ev: "add_results fs cwd evidence_start rs = Inr ev"
    and n: "names \<noteq> []" "distinct names" "ev_executed ev = int (length names)"
    and e: "json_eqs (map JInt (ev_aggregate ev)) totals"
    and r: "r = profile_root identity sha names totals (ev_timings ev)"
    using assms by (auto simp: complete_artifact_def split: option.splits)
  have v: "int_vals totals = ev_aggregate ev"
    using int_vals_eq [OF e] artifact_totals_sound [OF t] by blast
  have "evidence_inv ev" using add_results_inv [OF evidence_start_inv ev] .
  then have "length totals = 5" "sum_list (take 3 (int_vals totals)) = int (length names)"
    using v n(3) int_vals_length [of totals] by (simp_all add: evidence_inv_def)
  then show ?thesis
    using r n(1,2) artifact_totals_sound [OF t] unfolding sound_root_def by blast
qed

lemma complete_artifacts_sound:
  "complete_artifacts fs mode target ias = Inr roots \<Longrightarrow> list_all2 sound_root (map fst ias) roots"
  by (induction ias arbitrary: roots) (auto simp: complete_artifact_sound)

text \<open>What \<open>load_profile\<close> still checks of a root that \<open>complete_profile\<close> built.\<close>

definition reloadable :: "json \<Rightarrow> bool" where
  "reloadable r =
     ((case json_get r ''binary_sha256'' of JStr h \<Rightarrow> hex_digest 64 h | _ \<Rightarrow> False) \<and>
      list_all duration_entry_ok (items_of (json_get r ''durations_ns'')))"

lemma profile_root_get:
  "json_get (profile_root i sha ns ts tm) ''identity'' = JStr i"
  "json_get (profile_root i sha ns ts tm) ''binary_sha256'' = sha"
  "json_get (profile_root i sha ns ts tm) ''discovered'' = JInt (int (length ns))"
  "json_get (profile_root i sha ns ts tm) ''totals'' = JList ts"
  "is_obj (profile_root i sha ns ts tm)"
  "\<exists>d. json_get (profile_root i sha ns ts tm) ''durations_ns'' = JObj d \<and> length d = length ns \<and> map fst d = ns"
  by (simp_all add: profile_root_def Let_def json_get_def comp_def)

lemma sound_root_ok:
  assumes "sound_root i r"
  shows "root_ok i r \<longleftrightarrow> reloadable r"
proof -
  obtain sha names totals timings where r: "r = profile_root i sha names totals timings"
    "names \<noteq> []" "length totals = 5" "non_negative_ints totals" "\<not> list_ex truthy (drop 2 totals)"
    "sum_list (take 3 (int_vals totals)) = int (length names)"
    using assms unfolding sound_root_def by blast
  obtain d where d: "json_get r ''durations_ns'' = JObj d" "length d = length names"
    using profile_root_get(6) unfolding r(1) by blast
  have g: "json_get r ''identity'' = JStr i" "json_get r ''binary_sha256'' = sha"
    "json_get r ''discovered'' = JInt (int (length names))" "json_get r ''totals'' = JList totals" "is_obj r"
    by (simp_all add: r(1) profile_root_get)
  show ?thesis using r(2-6) by (simp add: root_ok_def reloadable_def g d)
qed

lemma non_negative_ints_wf: "non_negative_ints xs \<Longrightarrow> list_all json_wf xs"
  unfolding non_negative_ints_def list_all_iff
proof
  fix v assume "\<forall>c \<in> set xs. case json_int c of None \<Rightarrow> False | Some n \<Rightarrow> 0 \<le> n" "v \<in> set xs"
  then show "json_wf v" by (cases v) auto
qed

lemma sound_root_wf:
  assumes "sound_root i r" "reloadable r"
  shows "json_wf r"
proof -
  obtain sha names totals timings where r: "r = profile_root i sha names totals timings"
    "distinct names" "non_negative_ints totals"
    using assms(1) unfolding sound_root_def by blast
  have "json_wf sha" using assms(2) profile_root_get(2)
    by (cases sha) (auto simp: r(1) reloadable_def)
  then show ?thesis using r(2,3)
    by (simp add: r(1) profile_root_def Let_def non_negative_ints_wf list.pred_map comp_def
        list.pred_True)
qed

text \<open>C28: A profile built from a finished suite is accepted when it is loaded for the same mode and
  target, except for what \<open>complete_profile\<close> does not check: it is accepted exactly when
  every root's binary hash is a SHA-256 digest in lower-case hex and every recorded test name
  and duration satisfies the loader's limits. Counts, coverage, identities and completion always
  pass.\<close>

theorem complete_profile_reloads:
  assumes "complete_profile fs suite mode target = Inr p"
  shows "profile_ok mode target p \<longleftrightarrow>
    (case json_get p ''roots'' of JList roots \<Rightarrow> list_all reloadable roots | _ \<Rightarrow> False)"
proof -
  obtain items roots where items: "length items = 3"
    and ca: "complete_artifacts fs mode target (zip ROOT_IDENTITIES items) = Inr roots"
    and p: "p = JObj [(''version'', JInt 1), (''mode'', JStr mode), (''target'', JStr target),
        (''complete'', JBool True), (''exit_code'', JInt 0), (''roots'', JList roots)]"
    using assms by (auto simp: complete_profile_def) (blast dest: py_iter_length)
  have s: "list_all2 sound_root ROOT_IDENTITIES roots"
    using complete_artifacts_sound [OF ca] items by (simp add: ROOT_IDENTITIES_def)
  then have len: "length roots = 3" by (auto simp: ROOT_IDENTITIES_def dest: list_all2_lengthD)
  have ok: "list_all2 root_ok ROOT_IDENTITIES roots \<longleftrightarrow> list_all reloadable roots"
    using s sound_root_ok by (auto simp: list_all2_conv_all_nth list_all_length)
  have "list_all reloadable roots \<Longrightarrow> list_all json_wf roots"
    using s sound_root_wf by (auto simp: list_all2_conv_all_nth list_all_length)
  then show ?thesis using len ok by (auto simp: p profile_ok_def json_get_def)
qed

text \<open>A suite of three artifacts with one test each, which all share one log.\<close>

definition demo_files :: files where
  "demo_files = \<lparr> read_bytes = (\<lambda>_. Inr demo_shard_log), read_text = (\<lambda>_. Inr ''t''),
     sha256_hex = (\<lambda>_. replicate 64 (CHR ''0'')) \<rparr>"

definition demo_counts :: json where
  "demo_counts = JList [JInt 1, JInt 0, JInt 0, JInt 0, JInt 0]"

definition demo_result :: json where
  "demo_result = JObj [(''returncode'', JInt 0), (''log'', JStr ''/l''),
     (''log_sha256'', JStr (replicate 64 (CHR ''0''))), (''counts'', demo_counts)]"

definition demo_artifact :: json where
  "demo_artifact = JObj [(''complete'', JBool True), (''totals'', demo_counts),
     (''working_directory'', JStr ''/w''), (''results'', JList [demo_result]), (''discovered'', JInt 1),
     (''binary_sha256'', JStr (replicate 64 (CHR ''a'')))]"

definition demo_suite :: json where
  "demo_suite = JObj [(''complete'', JBool True), (''exit_code'', JInt 0),
     (''artifacts'', JList [demo_artifact, demo_artifact, demo_artifact]),
     (''totals'', JList [JInt 3, JInt 0, JInt 0, JInt 0, JInt 0]), (''discovered'', JInt 3)]"

definition demo_evidence :: evidence where
  "demo_evidence = \<lparr> ev_names = Some [''t''], ev_timings = [], ev_executed = 1,
     ev_aggregate = [1, 0, 0, 0, 0] \<rparr>"

definition demo_root :: "string \<Rightarrow> json" where
  "demo_root identity = JObj [(''identity'', JStr identity),
     (''binary_sha256'', JStr (replicate 64 (CHR ''a''))), (''discovered'', JInt 1),
     (''totals'', demo_counts), (''durations_ns'', JObj [(''t'', JInt 1000000)])]"

definition demo_profile :: json where
  "demo_profile = JObj [(''version'', JInt 1), (''mode'', JStr ''safe''), (''target'', JStr ''x''),
     (''complete'', JBool True), (''exit_code'', JInt 0),
     (''roots'', JList (map demo_root ROOT_IDENTITIES))]"

lemma demo_add_result:
  "add_result demo_files (path_of ''/w'') evidence_start demo_result = Inr demo_evidence"
  by code_simp

lemma demo_complete_artifact:
  assumes "identity \<in> set ROOT_IDENTITIES"
  shows "complete_artifact demo_files ''safe'' ''x'' identity demo_artifact = Inr (demo_root identity)"
proof -
  have c: "artifact_cwd demo_artifact = Inr (path_of ''/w'')"
    by (simp add: artifact_cwd_def demo_artifact_def json_has_def py_item_def py_str_def bind_res_def)
  have t: "artifact_totals ''safe'' ''x'' identity demo_artifact = py_iter demo_counts"
    by (simp add: artifact_totals_def demo_artifact_def py_item_def py_get_def bind_res_def require_def
        demo_counts_def py_len_def py_iter_def non_negative_ints_def in_pair_def Let_def numeral_eq_Suc)
  have r: "bind_res (py_item demo_artifact ''results'') py_iter = Inr [demo_result]"
    by (simp add: demo_artifact_def py_item_def py_iter_def)
  show ?thesis
    by (simp add: complete_artifact_def bind_res_def [of "artifact_totals _ _ _ _"] t c r
        bind_res_def [of "artifact_cwd _"] demo_add_result)
      (simp add: bind_res_def demo_evidence_def demo_artifact_def py_item_def require_def py_iter_def
        demo_counts_def profile_root_def demo_root_def median_weight_def)
qed

lemma demo_complete: "complete_profile demo_files demo_suite ''safe'' ''x'' = Inr demo_profile"
proof -
  have "complete_artifacts demo_files ''safe'' ''x''
      (zip ROOT_IDENTITIES [demo_artifact, demo_artifact, demo_artifact]) = Inr (map demo_root ROOT_IDENTITIES)"
    using demo_complete_artifact by (simp add: ROOT_IDENTITIES_def)
  moreover have "sum_columns (map root_totals (map demo_root ROOT_IDENTITIES)) = [3, 0, 0, 0, 0]"
    "sum_list (map root_discovered (map demo_root ROOT_IDENTITIES)) = 3"
    by code_simp+
  ultimately show ?thesis
    by (simp add: complete_profile_def demo_suite_def py_get_def py_item_def json_get_def py_len_def
        py_iter_def demo_profile_def json_eq_list numeral_eq_Suc)
qed

theorem complete_profile_reloads_witness:
  "complete_profile demo_files demo_suite ''safe'' ''x'' = Inr demo_profile \<and>
   (profile_ok ''safe'' ''x'' demo_profile \<longleftrightarrow>
    (case json_get demo_profile ''roots'' of JList roots \<Rightarrow> list_all reloadable roots | _ \<Rightarrow> False))"
  by (intro conjI demo_complete complete_profile_reloads [OF demo_complete])

end
