(* ===== verification/Gate_Ledger.thy ===== *)
theory Gate_Ledger
  imports PyText "HOL-Library.Product_Lexorder"
begin

text \<open>
  \<open>src/tools/gate_ledger.py\<close>: running a gate once and keeping content-bound evidence. The model
  has the context snapshot over an abstract file system, the count extraction from a retained
  log with its three grammars, the record \<open>run\<close> writes and the advice \<open>decision\<close> gives on a
  record. SHA-256 (\<open>hash\<close>) and the JSON encoding of the context (\<open>dumps\<close>) are arguments.
\<close>

section \<open>Snapshots\<close>

definition path_str :: "path \<Rightarrow> string" where
  "path_str p =
     (if pt_root p = [] \<and> pt_parts p = [] then ''.'' else pt_root p @ join ''/'' (pt_parts p))"

record lworld =
  lw_exists :: "path \<Rightarrow> bool"
  lw_symlink :: "path \<Rightarrow> bool"
  lw_is_dir :: "path \<Rightarrow> bool"
  lw_is_file :: "path \<Rightarrow> bool"
  lw_rglob :: "path \<Rightarrow> path list"
  lw_mode :: "path \<Rightarrow> nat"
  lw_bytes :: "path \<Rightarrow> py_error + string"
  lw_environ :: "(string \<times> string) list"
  lw_platform :: string
  lw_which :: "string \<Rightarrow> string \<Rightarrow> string option"
  lw_resolve :: "string \<Rightarrow> path"

definition DEFAULT_INPUTS :: "string list" where
  "DEFAULT_INPUTS = [''src'', ''etc'', ''tools'', ''packaging'', ''build.zig'', ''build.zig.zon'']"

text \<open>One input: its files in order, each with its permission bits and the digest of its bytes.\<close>

fun file_entries :: "(string \<Rightarrow> string) \<Rightarrow> lworld \<Rightarrow> path list \<Rightarrow> py_error + json list" where
  "file_entries hash w [] = Inr []"
| "file_entries hash w (p # ps) =
     (if lw_symlink w p then Inl (ValueError (''symlink input: '' @ path_str p))
      else if lw_is_file w p
      then bind_res (lw_bytes w p) (\<lambda>b.
           bind_res (file_entries hash w ps) (\<lambda>es.
           Inr (JList [JStr (path_str p), JInt (int (lw_mode w p mod 512)), JStr (hash b)] # es)))
      else file_entries hash w ps)"

definition input_entries :: "(string \<Rightarrow> string) \<Rightarrow> lworld \<Rightarrow> path \<Rightarrow> string \<Rightarrow> py_error + json list" where
  "input_entries hash w rt name =
     (let base = path_div rt (path_of name) in
      if \<not> lw_exists w base \<or> lw_symlink w base
      then Inl (ValueError (''missing or symlink input: '' @ name))
      else file_entries hash w (if lw_is_dir w base then sort_key pt_parts (lw_rglob w base) else [base]))"

fun all_entries :: "(string \<Rightarrow> string) \<Rightarrow> lworld \<Rightarrow> path \<Rightarrow> string list \<Rightarrow> py_error + json list" where
  "all_entries hash w rt [] = Inr []"
| "all_entries hash w rt (n # ns) =
     bind_res (input_entries hash w rt n) (\<lambda>es.
     bind_res (all_entries hash w rt ns) (\<lambda>rest. Inr (es @ rest)))"

definition gate_executable :: "lworld \<Rightarrow> path \<Rightarrow> string \<Rightarrow> string option" where
  "gate_executable w rt cmd0 =
     (let items = split_sub '':'' (case map_of (lw_environ w) ''PATH'' of Some p \<Rightarrow> p | None \<Rightarrow> ''/bin:/usr/bin'');
          search_path = join '':'' (map (\<lambda>i. path_str (path_div rt (path_of i))) items) in
      if contains_sub cmd0 ''/'' then Some (path_str (path_div rt (path_of cmd0)))
      else lw_which w cmd0 search_path)"

definition gate_context ::
  "(string \<Rightarrow> string) \<Rightarrow> lworld \<Rightarrow> path \<Rightarrow> string list \<Rightarrow> string list \<Rightarrow> py_error + json" where
  "gate_context hash w rt inputs command =
     (bind_res (all_entries hash w rt (sort (remdups inputs))) (\<lambda>entries.
      case command of
        [] \<Rightarrow> Inl IndexError
      | cmd0 # _ \<Rightarrow>
          (case gate_executable w rt cmd0 of
             None \<Rightarrow> Inl (ValueError ''gate executable not found'')
           | Some exe \<Rightarrow>
               bind_res (lw_bytes w (path_of exe)) (\<lambda>b.
               let environment = sort (filter (\<lambda>(k, _). k \<noteq> ''CODEX_TOOL_CALL_ID'') (lw_environ w)) in
               Inr (JList [JStr (path_str rt), JStr (lw_platform w), JList (map JStr command),
                 JList (map (\<lambda>(k, v). JList [JStr k, JStr v]) environment),
                 JStr (path_str (lw_resolve w exe)), JStr (hash b), JList entries])))))"

definition snapshot ::
  "(string \<Rightarrow> string) \<Rightarrow> (json \<Rightarrow> string) \<Rightarrow> lworld \<Rightarrow> path \<Rightarrow> string list \<Rightarrow> string list \<Rightarrow>
   py_error + string" where
  "snapshot hash dumps w rt inputs command =
     bind_res (gate_context hash w rt inputs command) (\<lambda>context. Inr (hash (dumps context)))"

section \<open>Counts\<close>

record counts =
  k_scope :: string
  k_provenance :: string
  k_passed :: nat
  k_total :: "nat option"
  k_skipped :: nat
  k_failed :: nat
  k_crashed :: "nat option"
  k_leaked :: "nat option"
  k_log_errors :: "nat option"

definition COUNT_LOG_LIMIT :: nat where
  "COUNT_LOG_LIMIT = 16 * 1024 * 1024"

text \<open>\<open>[0-9]{1,20}\<close> before something that is not a digit.\<close>

definition take_number :: "string \<Rightarrow> (nat \<times> string) option" where
  "take_number s =
     (let d = takeWhile is_digit s in
      if d = [] \<or> length d > 20 then None else Some (nat_of_digits d, dropWhile is_digit s))"

text \<open>Literals, each followed by a number: the numbers and the rest.\<close>

fun take_fields :: "string list \<Rightarrow> string \<Rightarrow> (nat list \<times> string) option" where
  "take_fields [] s = Some ([], s)"
| "take_fields (l # ls) s =
     (if startswith s l
      then (case take_number (drop (length l) s) of
              None \<Rightarrow> None
            | Some (n, r) \<Rightarrow> map_option (\<lambda>(ns, t). (n # ns, t)) (take_fields ls r))
      else None)"

definition PARALLEL_FIELDS :: "string list" where
  "PARALLEL_FIELDS = ['' discovered='', '' executed='', '' passed='', '' skipped='', '' failed='',
     '' leaked='', '' log_errors='']"

definition suite_prefix :: string where "suite_prefix = ''parallel suite summary:''"
definition artifact_prefix :: string where "artifact_prefix = ''parallel artifact summary:''"

text \<open>\<open>PARALLEL_SUITE\<close> and \<open>PARALLEL_ARTIFACT\<close>: the nine numbers of a line.\<close>

definition parallel_line :: "string \<Rightarrow> string \<Rightarrow> nat list option" where
  "parallel_line head line =
     (case take_fields (head # PARALLEL_FIELDS) line of
        Some (ns, r) \<Rightarrow>
          if r = '' complete=0'' then Some (ns @ [0])
          else if r = '' complete=1'' then Some (ns @ [1]) else None
      | None \<Rightarrow> None)"

definition PARALLEL_SUITE :: "string \<Rightarrow> nat list option" where
  "PARALLEL_SUITE = parallel_line ''parallel suite summary: artifacts=''"

definition PARALLEL_ARTIFACT :: "string \<Rightarrow> nat list option" where
  "PARALLEL_ARTIFACT = parallel_line ''parallel artifact summary: index=''"

text \<open>The loop over the artifact lines: the eight counts of each.\<close>

fun artifact_counts :: "nat \<Rightarrow> string list \<Rightarrow> nat list list option" where
  "artifact_counts i [] = Some []"
| "artifact_counts i (l # ls) =
     (case PARALLEL_ARTIFACT l of
        None \<Rightarrow> None
      | Some ns \<Rightarrow>
          let cs = tl ns in
          if hd ns \<noteq> i \<or> cs ! 7 \<noteq> 1 \<or> cs ! 0 \<noteq> cs ! 1 \<or> cs ! 1 \<noteq> cs ! 2 + cs ! 3 + cs ! 4
          then None
          else map_option ((#) cs) (artifact_counts (i + 1) ls))"

definition parallel_counts :: "string \<Rightarrow> counts option" where
  "parallel_counts raw =
     (let ls = byte_splitlines raw;
          candidates = filter (\<lambda>l. startswith l suite_prefix \<or> startswith l artifact_prefix) ls;
          suites = filter (\<lambda>l. startswith l suite_prefix) candidates;
          artifacts = filter (\<lambda>l. startswith l artifact_prefix) ls in
      if length suites \<noteq> 1 \<or> last candidates \<noteq> hd suites then None
      else case PARALLEL_SUITE (hd suites) of
        None \<Rightarrow> None
      | Some ns \<Rightarrow>
          let number = hd ns; totals = tl ns in
          if number = 0 \<or> length artifacts \<noteq> number then None
          else case artifact_counts 0 artifacts of
            None \<Rightarrow> None
          | Some values \<Rightarrow>
              if last totals \<noteq> 1 \<or>
                 map (\<lambda>i. sum_list (map (\<lambda>cs. cs ! i) values)) [0..<7] \<noteq> butlast totals
              then None
              else Some \<lparr> k_scope = ''parallel_full_suite'', k_provenance = ''parallel_suite_summary'',
                k_passed = totals ! 2, k_total = Some (totals ! 0), k_skipped = totals ! 3,
                k_failed = totals ! 4, k_crashed = Some 0, k_leaked = Some (totals ! 5),
                k_log_errors = Some (totals ! 6) \<rparr>)"

text \<open>\<open>AGGREGATE\<close>: passed, total and the parenthesised details.\<close>

definition skip_failed_steps :: "string \<Rightarrow> string option" where
  "skip_failed_steps s =
     (if startswith s ''; '' then Some s
      else case take_fields ['' (''] s of
        Some (_, r) \<Rightarrow> if startswith r '' failed)'' then Some (drop 8 r) else None
      | None \<Rightarrow> None)"

definition match_aggregate :: "string \<Rightarrow> (nat \<times> nat \<times> string option) option" where
  "match_aggregate line =
     (case take_fields [''Build Summary: '', ''/''] line of
        None \<Rightarrow> None
      | Some (_, r1) \<Rightarrow>
          if \<not> startswith r1 '' steps succeeded'' then None
          else case skip_failed_steps (drop 16 r1) of
            None \<Rightarrow> None
          | Some r2 \<Rightarrow>
              (case take_fields [''; '', ''/''] r2 of
                 Some ([passed, ttl], r3) \<Rightarrow>
                   if \<not> startswith r3 '' tests passed'' then None
                   else let r4 = drop 13 r3 in
                     if r4 = [] then Some (passed, ttl, None)
                     else if startswith r4 '' ('' \<and> length r4 \<ge> 3 \<and> last r4 = CHR '')''
                     then (let details = butlast (drop 2 r4) in
                           if list_all (\<lambda>c. c \<noteq> CHR ''('' \<and> c \<noteq> CHR '')'') details
                           then Some (passed, ttl, Some details) else None)
                     else None
               | _ \<Rightarrow> None))"

definition match_detail :: "string \<Rightarrow> (nat \<times> string) option" where
  "match_detail item =
     (case take_number item of
        Some (n, r) \<Rightarrow>
          if r = '' skipped'' then Some (n, ''skipped'')
          else if r = '' failed'' then Some (n, ''failed'')
          else if r = '' crashed'' then Some (n, ''crashed'') else None
      | None \<Rightarrow> None)"

fun detail_counts :: "(string \<times> nat) list \<Rightarrow> string list \<Rightarrow> (string \<times> nat) list option" where
  "detail_counts seen [] = Some seen"
| "detail_counts seen (i # is') =
     (case match_detail i of
        None \<Rightarrow> None
      | Some (n, w) \<Rightarrow>
          if w \<in> fst ` set seen then None else detail_counts ((w, n) # seen) is')"

definition count_of :: "(string \<times> nat) list \<Rightarrow> string \<Rightarrow> nat" where
  "count_of d w = (case map_of d w of Some n \<Rightarrow> n | None \<Rightarrow> 0)"

definition aggregate_counts :: "string \<Rightarrow> counts option" where
  "aggregate_counts line =
     (case match_aggregate line of
        None \<Rightarrow> None
      | Some (passed, ttl, details) \<Rightarrow>
          (case detail_counts [] (case details of None \<Rightarrow> [] | Some d \<Rightarrow> if d = [] then [] else split_sub '', '' d) of
             None \<Rightarrow> None
           | Some c \<Rightarrow>
               if passed + count_of c ''skipped'' + count_of c ''failed'' + count_of c ''crashed'' \<noteq> ttl
               then None
               else Some \<lparr> k_scope = ''build_aggregate'', k_provenance = ''zig_build_summary'',
                 k_passed = passed, k_total = Some ttl, k_skipped = count_of c ''skipped'',
                 k_failed = count_of c ''failed'', k_crashed = Some (count_of c ''crashed''),
                 k_leaked = None, k_log_errors = None \<rparr>))"

definition match_verbose :: "string \<Rightarrow> counts option" where
  "match_verbose line =
     (case take_fields [''verbose test summary: '', '' passed; '', '' skipped; '', '' failed; '', '' leaked; ''] line of
        Some ([passed, skipped, failed, leaked, log_errors], r) \<Rightarrow>
          if startswith r '' log errors; elapsed '' \<and> length r > 21
          then Some \<lparr> k_scope = ''single_verbose_runner'', k_provenance = ''verbose_test_summary'',
            k_passed = passed, k_total = None, k_skipped = skipped, k_failed = failed, k_crashed = None,
            k_leaked = Some leaked, k_log_errors = Some log_errors \<rparr>
          else None
      | _ \<Rightarrow> None)"

definition test_counts :: "string \<Rightarrow> counts option" where
  "test_counts raw =
     (if length raw > COUNT_LOG_LIMIT then None
      else
        let ls = byte_splitlines raw;
            aggregates = filter (\<lambda>l. startswith l ''Build Summary:'' \<and> contains_sub l ''tests passed'') ls;
            verbose = filter (\<lambda>l. startswith l ''verbose test summary:'') ls in
        if list_ex (\<lambda>l. startswith l suite_prefix \<or> startswith l artifact_prefix) ls
        then (if aggregates \<noteq> [] \<or> verbose \<noteq> [] then None else parallel_counts raw)
        else if aggregates \<noteq> []
        then (if length aggregates \<noteq> 1 then None else aggregate_counts (hd aggregates))
        else if length verbose \<noteq> 1 then None else match_verbose (hd verbose))"

section \<open>Records\<close>

fun opt_json :: "nat option \<Rightarrow> json" where
  "opt_json None = JNull"
| "opt_json (Some n) = JInt (int n)"

definition counts_json :: "counts option \<Rightarrow> json" where
  "counts_json c =
     (case c of
        None \<Rightarrow> JNull
      | Some k \<Rightarrow> JObj [(''scope'', JStr (k_scope k)), (''provenance'', JStr (k_provenance k)),
          (''passed'', JInt (int (k_passed k))), (''total'', opt_json (k_total k)),
          (''skipped'', JInt (int (k_skipped k))), (''failed'', JInt (int (k_failed k))),
          (''crashed'', opt_json (k_crashed k)), (''leaked'', opt_json (k_leaked k)),
          (''log_errors'', opt_json (k_log_errors k))])"

text \<open>\<open>run\<close>: the world before and after the gate, its return code, time and log.\<close>

definition ledger_run ::
  "(string \<Rightarrow> string) \<Rightarrow> (json \<Rightarrow> string) \<Rightarrow> lworld \<Rightarrow> lworld \<Rightarrow> path \<Rightarrow> string list \<Rightarrow> string list \<Rightarrow>
   int \<Rightarrow> rat \<Rightarrow> string \<Rightarrow> py_error + (int \<times> json)" where
  "ledger_run hash dumps w w' rt inputs command returncode seconds log_bytes =
     (bind_res (snapshot hash dumps w rt inputs command) (\<lambda>before.
      bind_res (snapshot hash dumps w' rt inputs command) (\<lambda>after.
      Inr (if before = after \<and> returncode = 0 then 0 else 1,
        JObj [(''version'', JInt 1), (''root'', JStr (path_str rt)), (''inputs'', JList (map JStr inputs)),
          (''command'', JList (map JStr command)), (''source_context'', JStr before),
          (''unchanged'', JBool (before = after)), (''exit_code'', JInt returncode),
          (''seconds'', JFloat seconds), (''log_sha256'', JStr (hash log_bytes)),
          (''test_counts'', counts_json (test_counts log_bytes))]))))"

datatype advice = Investigate string | RunChangedContext | Diagnose | Reuse

definition json_strs :: "json \<Rightarrow> py_error + string list" where
  "json_strs v = bind_res (py_iter v) (map_res py_str)"

definition decision ::
  "(string \<Rightarrow> string) \<Rightarrow> (json \<Rightarrow> string) \<Rightarrow> lworld \<Rightarrow> path \<Rightarrow> json \<Rightarrow> string \<Rightarrow> py_error + advice" where
  "decision hash dumps w rt data log_bytes =
     (bind_res (py_get data ''version'' JNull) (\<lambda>version.
      if \<not> json_eq version (JInt 1) then Inl (ValueError ''unsupported evidence record'')
      else if json_int (json_get data ''exit_code'') = None \<or>
              json_get data ''unchanged'' \<notin> {JBool True, JBool False}
      then Inl (ValueError ''incomplete evidence record'')
      else
        bind_res (py_item data ''log_sha256'') (\<lambda>h.
        if \<not> json_eq h (JStr (hash log_bytes)) then Inr (Investigate ''evidence_log_changed'')
        else if json_get data ''unchanged'' = JBool False
        then Inr (Investigate ''inputs_changed_during_gate'')
        else
          bind_res (py_item data ''source_context'') (\<lambda>context.
          bind_res (bind_res (py_item data ''inputs'') json_strs) (\<lambda>inputs.
          bind_res (bind_res (py_item data ''command'') json_strs) (\<lambda>command.
          bind_res (snapshot hash dumps w rt inputs command) (\<lambda>now_context.
          if \<not> json_eq context (JStr now_context) then Inr RunChangedContext
          else if json_get data ''exit_code'' \<noteq> JInt 0 then Inr Diagnose
          else Inr Reuse)))))))"

definition ledger_status :: "advice \<Rightarrow> int" where
  "ledger_status a = (if a = Reuse then 0 else 1)"

end
