(* ===== verification/Ledger_Props.thy ===== *)
theory Ledger_Props
  imports Gate_Ledger Parallel_Tests
begin

text \<open>
  The properties of the gate ledger \<open>src/tools/gate_ledger.py\<close>: the counts it extracts are
  consistent, it reads back exactly what the test runner prints, and advice to reuse a record is
  given only for a successful run in the present context.
\<close>

section \<open>Reading numbers back\<close>












section \<open>The runner's report and the ledger's counts\<close>









section \<open>Consistency of the counts\<close>

lemma artifact_counts_consistent:
  "artifact_counts i ls = Some vs \<Longrightarrow> cs \<in> set vs \<Longrightarrow> cs ! 0 = cs ! 2 + cs ! 3 + cs ! 4"
  by (induction ls arbitrary: i vs) (auto simp: Let_def split: option.splits if_splits)

lemma take_fields_length: "take_fields ls s = Some (ns, r) \<Longrightarrow> length ns = length ls"
  by (induction ls arbitrary: s ns r) (auto split: if_splits option.splits)

lemma parallel_line_length: "parallel_line head line = Some ns \<Longrightarrow> length ns = 9"
  by (auto simp: parallel_line_def PARALLEL_FIELDS_def dest!: take_fields_length
      split: option.splits if_splits)

lemma parallel_counts_consistent:
  assumes "parallel_counts raw = Some c"
  shows "k_total c = Some (k_passed c + k_skipped c + k_failed c) \<and> k_crashed c = Some 0"
proof -
  obtain line ns as' vs where ns: "PARALLEL_SUITE line = Some ns"
    and vs: "artifact_counts 0 as' = Some vs"
    and col: "map (\<lambda>i. sum_list (map (\<lambda>cs. cs ! i) vs)) [0..<7] = butlast (tl ns)"
    and c: "c = \<lparr> k_scope = ''parallel_full_suite'', k_provenance = ''parallel_suite_summary'',
        k_passed = tl ns ! 2, k_total = Some (tl ns ! 0), k_skipped = tl ns ! 3,
        k_failed = tl ns ! 4, k_crashed = Some 0, k_leaked = Some (tl ns ! 5),
        k_log_errors = Some (tl ns ! 6) \<rparr>"
    using assms unfolding parallel_counts_def Let_def
    by (simp only: option.distinct option.inject de_Morgan_disj not_not split: if_splits option.splits)
  have len: "length ns = 9" using ns parallel_line_length by (auto simp: PARALLEL_SUITE_def)
  have at: "tl ns ! i = sum_list (map (\<lambda>cs. cs ! i) vs)" if "i < 7" for i
  proof -
    have "butlast (tl ns) ! i = tl ns ! i" using that len by (simp add: nth_butlast)
    then show ?thesis using that by (simp flip: col)
  qed
  have "sum_list (map (\<lambda>cs. cs ! 0) vs) = sum_list (map (\<lambda>cs. cs ! 2 + cs ! 3 + cs ! 4) vs)"
    using vs artifact_counts_consistent by (auto intro!: arg_cong [where f = sum_list] map_cong)
  then show ?thesis by (simp add: c at sum_list_addf)
qed

text \<open>Counts the ledger reports add up: whenever it extracts counts with a total from a log, by any
  of its grammars, the total is the sum of the passed, skipped, failed and crashed tests.\<close>

theorem test_counts_consistent:
  assumes "test_counts raw = Some c" "k_total c = Some n" "k_crashed c = Some x"
  shows "n = k_passed c + k_skipped c + k_failed c + x"
proof -
  have "k_total c = Some (k_passed c + k_skipped c + k_failed c + x)"
    if "aggregate_counts line = Some c" for line
    using that assms(3) by (auto simp: aggregate_counts_def split: option.splits if_splits)
  moreover have "k_total c = None" if "match_verbose line = Some c" for line
    using that by (auto simp: match_verbose_def split: option.splits list.splits if_splits)
  ultimately show ?thesis
    using assms parallel_counts_consistent [of raw c]
    by (auto simp: test_counts_def Let_def split: if_splits)
qed

theorem test_counts_consistent_witness:
  "map_option k_passed (test_counts ''Build Summary: 5/5 steps succeeded; 7/9 tests passed (2 skipped)'') =
     Some 7 \<and>
   (9 :: nat) = 7 + 2 + 0 + 0"
proof -
  define c where "c = \<lparr> k_scope = ''build_aggregate'', k_provenance = ''zig_build_summary'', k_passed = 7,
    k_total = Some 9, k_skipped = 2, k_failed = 0, k_crashed = Some 0, k_leaked = None, k_log_errors = None \<rparr>"
  have e: "test_counts ''Build Summary: 5/5 steps succeeded; 7/9 tests passed (2 skipped)'' = Some c"
    unfolding c_def by code_simp
  have "9 = k_passed c + k_skipped c + k_failed c + 0"
    by (rule test_counts_consistent [OF e]) (simp_all add: c_def)
  then show ?thesis by (simp add: e c_def)
qed

section \<open>Reusing a record\<close>

lemma json_strs_map: "json_strs (JList (map JStr xs)) = Inr xs"
proof -
  have "map_res py_str (map JStr xs) = Inr xs" by (induction xs) (auto simp: py_str_def)
  then show ?thesis by (simp add: json_strs_def py_iter_def)
qed

lemma decision_reuse_iff:
  assumes "ledger_run hash dumps w w' rt inputs command rc secs log_bytes = Inr (code, data)"
    and "snapshot hash dumps w rt inputs command = Inr before"
    and "snapshot hash dumps v rt inputs command = Inr now_context"
  shows "decision hash dumps v rt data later_log = Inr Reuse \<longleftrightarrow>
    code = 0 \<and> hash later_log = hash log_bytes \<and> now_context = before"
proof -
  obtain after where after: "snapshot hash dumps w' rt inputs command = Inr after"
    and code: "code = (if before = after \<and> rc = 0 then 0 else 1)"
    and data: "data = JObj [(''version'', JInt 1), (''root'', JStr (path_str rt)),
          (''inputs'', JList (map JStr inputs)), (''command'', JList (map JStr command)),
          (''source_context'', JStr before), (''unchanged'', JBool (before = after)),
          (''exit_code'', JInt rc), (''seconds'', JFloat secs), (''log_sha256'', JStr (hash log_bytes)),
          (''test_counts'', counts_json (test_counts log_bytes))]"
    using assms(1,2) by (auto simp: ledger_run_def)
  show ?thesis
    by (auto simp: data decision_def py_get_def json_get_def py_item_def json_strs_map assms(3) code
        bind_res_def)
qed

text \<open>The advice to reuse is sound and complete for records the ledger wrote: with a record from
  \<open>run\<close>, a later decision advises reuse exactly when that run was usable (exit code 0 with
  inputs unchanged), the retained log still has the recorded digest, and the context hashes to
  the recorded snapshot.\<close>

theorem decision_reuse:
  assumes "ledger_run hash dumps w w' rt inputs command rc secs log_bytes = Inr (code, data)"
    and "snapshot hash dumps w rt inputs command = Inr before"
    and "snapshot hash dumps v rt inputs command = Inr now_context"
  shows "decision hash dumps v rt data later_log = Inr Reuse \<longleftrightarrow>
    code = 0 \<and> hash later_log = hash log_bytes \<and> now_context = before"
  by (rule decision_reuse_iff [OF assms])

text \<open>C30: Reuse is about contents: if two contexts with different contents do not collide under the
  hash, then a record that may be reused was made with the same files, modes, file digests,
  command, environment and compiler as the present ones.\<close>

theorem reuse_same_context:
  assumes "ledger_run hash dumps w w' rt inputs command rc secs log_bytes = Inr (code, data)"
    and "gate_context hash w rt inputs command = Inr c"
    and "gate_context hash v rt inputs command = Inr d"
    and "hash (dumps c) = hash (dumps d) \<Longrightarrow> c = d"
    and "decision hash dumps v rt data later_log = Inr Reuse"
  shows "c = d \<and> rc = 0"
proof -
  have s: "snapshot hash dumps w rt inputs command = Inr (hash (dumps c))"
    "snapshot hash dumps v rt inputs command = Inr (hash (dumps d))"
    by (simp_all add: snapshot_def bind_res_def assms(2,3))
  obtain after where a: "snapshot hash dumps w' rt inputs command = Inr after"
    and code: "code = (if hash (dumps c) = after \<and> rc = 0 then 0 else 1)"
    using assms(1) s(1) by (auto simp: ledger_run_def)
  have z: "code = 0" "hash (dumps d) = hash (dumps c)"
    using decision_reuse_iff [OF assms(1) s] assms(5) by auto
  have "c = d" by (rule assms(4)) (rule z(2) [symmetric])
  moreover have "rc = 0" using code z(1) by (cases "rc = 0") simp_all
  ultimately show ?thesis ..
qed

text \<open>A world without files but the gate's executable, and the identity as an idealised hash.\<close>

definition demo_lworld :: lworld where
  "demo_lworld = \<lparr> lw_exists = (\<lambda>_. True), lw_symlink = (\<lambda>_. False), lw_is_dir = (\<lambda>_. False),
     lw_is_file = (\<lambda>_. True), lw_rglob = (\<lambda>_. []), lw_mode = (\<lambda>_. 420), lw_bytes = (\<lambda>_. Inr ''x''),
     lw_environ = [(''A'', ''1'')], lw_platform = ''linux'', lw_which = (\<lambda>_ _. None),
     lw_resolve = path_of \<rparr>"

definition demo_context :: json where
  "demo_context = JList [JStr ''/r'', JStr ''linux'', JList [JStr ''./gate''],
     JList [JList [JStr ''A'', JStr ''1'']], JStr ''/r/gate'', JStr ''x'',
     JList [JList [JStr ''/r/f'', JInt 420, JStr ''x'']]]"

definition demo_record :: json where
  "demo_record = JObj [(''version'', JInt 1), (''root'', JStr ''/r''), (''inputs'', JList [JStr ''f'']),
     (''command'', JList [JStr ''./gate'']), (''source_context'', JStr ''c''), (''unchanged'', JBool True),
     (''exit_code'', JInt 0), (''seconds'', JFloat 1), (''log_sha256'', JStr ''log''), (''test_counts'', JNull)]"

lemma demo_ledger:
  "gate_context id demo_lworld (path_of ''/r'') [''f''] [''./gate''] = Inr demo_context"
  "ledger_run id (\<lambda>_. ''c'') demo_lworld demo_lworld (path_of ''/r'') [''f''] [''./gate''] 0 1 ''log'' =
     Inr (0, demo_record)"
  by code_simp+

lemma demo_snapshot:
  "snapshot id (\<lambda>_. ''c'') demo_lworld (path_of ''/r'') [''f''] [''./gate''] = Inr ''c''"
  by (simp add: snapshot_def bind_res_def demo_ledger(1))

theorem decision_reuse_witness:
  "snapshot id (\<lambda>_. ''c'') demo_lworld (path_of ''/r'') [''f''] [''./gate''] = Inr ''c'' \<and>
   (decision id (\<lambda>_. ''c'') demo_lworld (path_of ''/r'') demo_record ''log'' = Inr Reuse \<longleftrightarrow>
     (0 :: int) = 0 \<and> id ''log'' = id ''log'' \<and> ''c'' = ''c'')"
  by (rule conjI [OF demo_snapshot decision_reuse [OF demo_ledger(2) demo_snapshot demo_snapshot]])

theorem reuse_same_context_witness:
  "decision id (\<lambda>_. ''c'') demo_lworld (path_of ''/r'') demo_record ''log'' = Inr Reuse \<and>
   demo_context = demo_context \<and> (0 :: int) = 0"
proof -
  have d: "decision id (\<lambda>_. ''c'') demo_lworld (path_of ''/r'') demo_record ''log'' = Inr Reuse"
    using decision_reuse_iff [OF demo_ledger(2) demo_snapshot demo_snapshot] by simp
  have "demo_context = demo_context \<and> (0 :: int) = 0"
    by (rule reuse_same_context [OF demo_ledger(2) demo_ledger(1) demo_ledger(1) _ d]) (rule refl)
  then show ?thesis by (rule conjI [OF d])
qed

end
