(* ===== verification/Gate_Select.thy ===== *)
theory Gate_Select
  imports Prelude
begin

text \<open>
  \<open>select-gates.py\<close> of the verification skill: which build gates a set of changed paths needs.
  The rules are a table in the order of the code; a rule that fires adds its gates, and those of
  its second list to the critical ones. A path below a split facade is judged as the facade.
\<close>

definition contains_any :: "string \<Rightarrow> string list \<Rightarrow> bool" where
  "contains_any path needles = list_ex (contains_sub path) needles"

definition changed_paths :: "string list \<Rightarrow> string list \<Rightarrow> string list" where
  "changed_paths tracked untracked = sort (remdups (filter (\<lambda>l. l \<noteq> []) (tracked @ untracked)))"

definition facades :: "string list" where
  "facades = [''src/daemon/store'', ''src/daemon/sessions'', ''src/daemon/world'',
     ''src/daemon/physical_lifecycle'', ''src/proto/lotus'']"

definition facade_path :: "string \<Rightarrow> string" where
  "facade_path path =
     (case find (\<lambda>f. startswith path (f @ ''/'')) facades of Some f \<Rightarrow> f @ ''.zig'' | None \<Rightarrow> path)"

text \<open>The rule on the path as given.\<close>

definition extracted_rule :: "string \<Rightarrow> bool" where
  "extracted_rule path =
     list_ex (startswith path) [''src/proto/dns/'', ''src/proto/ircx_prop_store/'', ''src/proto/lotus/'',
       ''src/daemon/relay_v2_event_log/'']"

text \<open>The rules on the facade's path: condition, gates, critical gates.\<close>

definition gate_rules :: "string \<Rightarrow> (bool \<times> string list \<times> string list) list" where
  "gate_rules path =
    [(path = ''src/main.zig'', [''test''], [''test'']),
     (path \<in> {''src/daemon/registry.zig'', ''src/daemon/diagnostics.zig'', ''src/daemon/dlog.zig''} \<or>
        startswith path ''src/daemon/module_'' \<or> startswith path ''src/daemon/modules/'',
      [''test-mod'', ''test-server''], [''test-mod'', ''test-server'']),
     (path \<in> {''src/daemon/store.zig'', ''src/daemon/physical_lifecycle.zig''}, [''test-mod''], [''test-mod'']),
     (path = ''src/daemon/store.zig'', [''test-services''], [''test-services'']),
     (path \<in> {''src/daemon/sendq.zig'', ''src/daemon/ws_output.zig''},
      [''test-mod'', ''test-server'', ''test-tls''], [''test-mod'', ''test-server'', ''test-tls'']),
     (path = ''src/daemon/server.zig'' \<or> contains_any path [''world.zig'', ''sessions.zig'', ''deliver''],
      [''test-server'', ''test-services''], [''test-server'', ''test-services'']),
     (contains_any path [''sessions.zig'', ''world.zig'', ''session_'', ''migration_'', ''session-''],
      [''test-session''], [''test-session'']),
     (startswith path ''src/daemon/helix/'' \<or> contains_sub path ''session_'' \<or> contains_sub path ''migration_'',
      [''test-helix'', ''test-services'', ''test-mesh''], [''test-helix'', ''test-services'', ''test-mesh'']),
     (contains_any path [''s2s'', ''undertow'', ''mesh'', ''relay_v2''],
      [''test-mesh'', ''test-helix''], [''test-mesh'', ''test-helix'']),
     (contains_any path [''event_spine'', ''event-spine'', ''event_history'', ''oper_event'', ''message_relay'',
        ''lotus.zig'', ''msgid.zig''],
      [''test-event-spine'', ''test-mesh'', ''test-server''],
      [''test-event-spine'', ''test-mesh'', ''test-server'']),
     (contains_any path [''ircx'', ''prop_store''], [''test-ircx''], []),
     (contains_any path [''service'', ''account'', ''sasl'', ''webauthn'', ''totp'', ''tegami''],
      [''test-services''], [''test-services'']),
     (contains_any path [''config'', ''onyx-server.reference.toml''], [''test-config''], []),
     (contains_any path [''media'', ''rtp'', ''rtcp'', ''srtp'', ''webtransport''],
      [''test-media''], [''test-media'']),
     (path \<in> {''src/substrate/media_capability.zig'', ''src/substrate/cadence_frame.zig'',
        ''src/substrate/native_feedback.zig''},
      [''test-media'', ''test-mod''], [''test-media'', ''test-mod'']),
     (startswith path ''src/crypto/'' \<or> contains_any path [''tls'', ''x509'', ''cloak''],
      [''test-tls'', ''test-exploit''], [''test-tls'', ''test-exploit'']),
     (contains_any path [''warden'', ''security''], [''test-exploit''], [''test-exploit'']),
     (startswith path ''src/cli/'', [''test-cli''], []),
     (path \<in> {''build.zig'', ''build.zig.zon''} \<or> startswith path ''packaging/'', [''test''], [''test''])]"

definition rule_gates :: "string \<Rightarrow> string list" where
  "rule_gates orig =
     (if extracted_rule orig then [''test-mod''] else []) @
     concat (map (\<lambda>(fires, gs, _). if fires then gs else []) (gate_rules (facade_path orig)))"

definition rule_critical :: "string \<Rightarrow> string list" where
  "rule_critical orig =
     (if extracted_rule orig then [''test-mod''] else []) @
     concat (map (\<lambda>(fires, _, cs). if fires then cs else []) (gate_rules (facade_path orig)))"

definition falls_through :: "string \<Rightarrow> bool" where
  "falls_through orig =
     (rule_gates orig = [] \<and> startswith (facade_path orig) ''src/'' \<and> endswith (facade_path orig) ''.zig'')"

definition path_gates :: "string \<Rightarrow> string list" where
  "path_gates orig = (if falls_through orig then [''test-mod''] else rule_gates orig)"

definition path_critical :: "string \<Rightarrow> string list" where
  "path_critical orig = (if falls_through orig then [''test-mod''] else rule_critical orig)"

definition select :: "string list \<Rightarrow> string list \<times> string set" where
  "select paths =
     (sort (remdups (concat (map path_gates paths))), set (concat (map path_critical paths)))"

definition gate_commands :: "bool \<Rightarrow> string list \<Rightarrow> string list" where
  "gate_commands release paths =
     (case select paths of (gates, critical) \<Rightarrow>
        [''zig build check''] @ map (\<lambda>g. ''zig build '' @ g) gates @
        map (\<lambda>g. ''zig build '' @ g @ '' -Doptimize=safe'') (filter (\<lambda>g. g \<in> critical) gates) @
        [''git diff --check''] @
        (if release
         then [''zig build all-checks'', ''zig build release -Doptimize=fast'',
               ''zig build package -Doptimize=fast'', ''packaging/release.sh dist'',
               ''packaging/verify-release.sh dist/SHA256SUMS'']
         else []))"

section \<open>Properties\<close>

lemma rules_critical_gates: "list_all (\<lambda>(_, gs, cs). set cs \<subseteq> set gs) (gate_rules path)"
  by (simp add: gate_rules_def)

lemma path_critical_gates: "set (path_critical orig) \<subseteq> set (path_gates orig)"
proof -
  have "set cs \<subseteq> set gs" if "(f, gs, cs) \<in> set (gate_rules p)" for f gs cs p
    using rules_critical_gates [of p] that by (auto simp: list_all_iff)
  then have "set (rule_critical orig) \<subseteq> set (rule_gates orig)"
    by (fastforce simp: rule_critical_def rule_gates_def)
  then show ?thesis by (simp add: path_critical_def path_gates_def)
qed

lemma facade_zig: "startswith path ''src/'' \<Longrightarrow> startswith (facade_path path) ''src/''"
  by (auto simp: facade_path_def facades_def startswith_def)

lemma facade_path_cases:
  "facade_path path = path \<or> endswith (facade_path path) ''.zig'' \<and> startswith (facade_path path) ''src/''"
  by (auto simp: facade_path_def facades_def startswith_def endswith_def)

text \<open>No source file slips through: every path under \<open>src/\<close> that ends in \<open>.zig\<close> selects at
  least one test gate, whatever other paths are given, and is planned by a command of its own.\<close>

theorem source_path_selects:
  assumes "startswith path ''src/''" "endswith path ''.zig''" "path \<in> set paths"
  shows "\<exists>g \<in> set (path_gates path). g \<in> set (fst (select paths)) \<and>
    ''zig build '' @ g \<in> set (gate_commands release paths)"
proof -
  have "falls_through path" if "rule_gates path = []"
    using facade_path_cases [of path] assms(1,2) that by (auto simp: falls_through_def)
  then have "path_gates path \<noteq> []" by (auto simp: path_gates_def)
  then obtain g where g: "g \<in> set (path_gates path)" by (cases "path_gates path") auto
  then have s: "g \<in> set (fst (select paths))" using assms(3) by (auto simp: select_def)
  then have "''zig build '' @ g \<in> set (gate_commands release paths)"
    by (auto simp: gate_commands_def select_def)
  with g s show ?thesis by blast
qed

theorem source_path_selects_witness:
  "startswith ''src/a.zig'' ''src/'' \<and>
   (\<exists>g. g \<in> set (path_gates ''src/a.zig'') \<and> g \<in> set (fst (select [''README'', ''src/a.zig''])) \<and>
     ''zig build '' @ g \<in> set (gate_commands False [''README'', ''src/a.zig'']))"
proof -
  have h: "startswith ''src/a.zig'' ''src/''" "endswith ''src/a.zig'' ''.zig''"
    "''src/a.zig'' \<in> set [''README'', ''src/a.zig'']"
    by (simp_all add: startswith_def endswith_def)
  show ?thesis using h(1) source_path_selects [OF h] by blast
qed

text \<open>Critical gates run twice: a gate is critical only if it is selected, and every critical gate
  of every given path is planned both in the default and in the safe mode.\<close>

theorem critical_gates_planned:
  assumes "path \<in> set paths" "g \<in> set (path_critical path)"
  shows "snd (select paths) \<subseteq> set (fst (select paths)) \<and>
    ''zig build '' @ g \<in> set (gate_commands release paths) \<and>
    ''zig build '' @ g @ '' -Doptimize=safe'' \<in> set (gate_commands release paths)"
proof -
  have sub: "snd (select paths) \<subseteq> set (fst (select paths))"
    using path_critical_gates by (fastforce simp: select_def)
  have "g \<in> snd (select paths)" using assms by (auto simp: select_def)
  moreover have "g \<in> set (fst (select paths))" using sub calculation by blast
  ultimately show ?thesis using sub by (cases "select paths") (auto simp: gate_commands_def)
qed

theorem critical_gates_planned_witness:
  "''src/main.zig'' \<in> set [''src/main.zig''] \<and>
   ''zig build test -Doptimize=safe'' \<in> set (gate_commands False [''src/main.zig''])"
proof -
  have h: "''src/main.zig'' \<in> set [''src/main.zig'']" "''test'' \<in> set (path_critical ''src/main.zig'')"
    by simp code_simp
  show ?thesis using h(1) critical_gates_planned [OF h, of False] by simp
qed

text \<open>The selection depends on the set of paths only, and it is monotone: a larger change never
  loses a gate.\<close>

theorem select_monotone:
  assumes "set paths \<subseteq> set paths'"
  shows "set (fst (select paths)) \<subseteq> set (fst (select paths')) \<and>
    snd (select paths) \<subseteq> snd (select paths') \<and>
    (set paths' \<subseteq> set paths \<longrightarrow> select paths = select paths')"
proof -
  have "select paths = select paths'" if "set paths = set paths'"
  proof -
    have "set (concat (map path_gates paths)) = set (concat (map path_gates paths'))"
      "set (concat (map path_critical paths)) = set (concat (map path_critical paths'))"
      using that by auto
    then show ?thesis unfolding select_def by (metis sorted_list_of_set_sort_remdups)
  qed
  then show ?thesis using assms by (auto simp: select_def)
qed

theorem select_monotone_witness:
  "set [''src/a.zig''] \<subseteq> set [''src/main.zig'', ''src/a.zig''] \<and>
   set (fst (select [''src/a.zig''])) \<subseteq> set (fst (select [''src/main.zig'', ''src/a.zig'']))"
proof -
  have h: "set [''src/a.zig''] \<subseteq> set [''src/main.zig'', ''src/a.zig'']" by simp
  show ?thesis by (rule conjI [OF h select_monotone [OF h, THEN conjunct1]])
qed

end
