(* ===== verification/Scram_Fixture.thy ===== *)
theory Scram_Fixture
  imports Text_Codecs "HOL-Library.Word"
begin

text \<open>
  \<open>src/tools/scram_fixture.py\<close>: the client side of a SCRAM exchange. Bytes are \<open>string\<close>; a
  \<open>ScramFailure\<close> is \<open>Inl\<close> of its message. PBKDF2, HMAC and the hash of a digest name are
  arguments (\<open>prims\<close>). \<open>server_accepts\<close> is the check of RFC 5802 on the server's side, which
  the proof has to satisfy.
\<close>

unbundle bit_operations_syntax

record prims =
  pbkdf2_hmac :: "string \<Rightarrow> string \<Rightarrow> string \<Rightarrow> nat \<Rightarrow> string"
  hmac_digest :: "string \<Rightarrow> string \<Rightarrow> string \<Rightarrow> string"
  hash_new :: "string \<Rightarrow> string \<Rightarrow> string"

section \<open>Messages\<close>

fun add_fields :: "(string \<times> string) list \<Rightarrow> string list \<Rightarrow> string + (string \<times> string) list" where
  "add_fields result [] = Inr result"
| "add_fields result (part # parts) =
     (case partition_sub part ''='' of (key, separator, value) \<Rightarrow>
        if separator \<noteq> [] \<and> length key = 1 \<and> key \<notin> fst ` set result
        then add_fields (result @ [(key, value)]) parts
        else Inl ''SCRAM attributes malformed'')"

definition scram_fields :: "string \<Rightarrow> string + (string \<times> string) list" where
  "scram_fields message =
     (if 0 < length message \<and> length message \<le> 2048 then add_fields [] (split_sub '','' message)
      else Inl ''SCRAM message exceeds fixture bounds'')"

definition decode :: "string \<Rightarrow> string + string" where
  "decode value = (case b64decode value of Some s \<Rightarrow> Inr s | None \<Rightarrow> Inl ''SCRAM base64 malformed'')"

definition xor_bytes :: "string \<Rightarrow> string \<Rightarrow> string" where
  "xor_bytes xs ys = map2 (\<lambda>a b. char_of ((of_char a :: nat) XOR of_char b)) xs ys"

definition nonce_char :: "char \<Rightarrow> bool" where
  "nonce_char c = (CHR 0x21 \<le> c \<and> c \<le> CHR 0x7E \<and> c \<noteq> CHR 0x2C)"

section \<open>The client\<close>

record client =
  cl_digest :: string
  cl_nonce :: string
  cl_bare :: string
  cl_first :: string
  cl_signature :: "string option"

definition Client :: "string \<Rightarrow> string \<Rightarrow> string \<Rightarrow> string + client" where
  "Client account nonce digest =
     (if digest \<notin> {''sha256'', ''sha512''} then Inl ''unsupported fixture digest''
      else if \<not> (0 < length account \<and> length account \<le> 32 \<and>
                list_all (\<lambda>c. c \<in> set ''abcdefghijklmnopqrstuvwxyz0123456789_-.'') account)
      then Inl ''fixture account must be canonical''
      else if \<not> (16 \<le> length nonce \<and> length nonce \<le> 128 \<and> list_all nonce_char nonce)
      then Inl ''fixture nonce malformed''
      else
        let bare = ''n='' @ account @ '',r='' @ nonce in
        Inr \<lparr> cl_digest = digest, cl_nonce = nonce, cl_bare = bare, cl_first = ''n,,'' @ bare,
              cl_signature = None \<rparr>)"

text \<open>The checks of \<open>respond\<close>: the server's nonce, the salt and the iteration count.\<close>

definition challenge :: "client \<Rightarrow> string \<Rightarrow> string + string \<times> string \<times> nat" where
  "challenge c server_first =
     (if cl_signature c \<noteq> None then Inl ''SCRAM fixture challenge already consumed''
      else case scram_fields server_first of
        Inl e \<Rightarrow> Inl e
      | Inr values \<Rightarrow>
          if fst ` set values \<noteq> {''r'', ''s'', ''i''} then Inl ''unsupported SCRAM attributes''
          else
            let nonce = the (map_of values ''r''); iterations = the (map_of values ''i'') in
            if \<not> (startswith nonce (cl_nonce c) \<and> length (cl_nonce c) < length nonce \<and> length nonce \<le> 256)
            then Inl ''SCRAM nonce mismatch''
            else if \<not> list_all nonce_char nonce then Inl ''SCRAM nonce malformed''
            else if \<not> (1 \<le> length iterations \<and> length iterations \<le> 7 \<and> list_all is_digit iterations)
            then Inl ''SCRAM iterations malformed''
            else
              let count = foldl (\<lambda>a d. 10 * a + (case digit_val d of Some v \<Rightarrow> v | None \<Rightarrow> 0)) 0 iterations in
              if \<not> (1 \<le> count \<and> count \<le> 1000000) then Inl ''SCRAM iterations exceed fixture bounds''
              else case decode (the (map_of values ''s'')) of
                Inl e \<Rightarrow> Inl e
              | Inr salt \<Rightarrow>
                  if \<not> (1 \<le> length salt \<and> length salt \<le> 64) then Inl ''SCRAM salt exceeds fixture bounds''
                  else Inr (nonce, salt, count))"

definition respond :: "prims \<Rightarrow> client \<Rightarrow> string \<Rightarrow> string \<Rightarrow> string + (client \<times> string)" where
  "respond pr c server_first password =
     (case challenge c server_first of
        Inl e \<Rightarrow> Inl e
      | Inr (nonce, salt, count) \<Rightarrow>
          let d = cl_digest c;
              salted = pbkdf2_hmac pr d password salt count;
              client_key = hmac_digest pr d salted ''Client Key'';
              stored_key = hash_new pr d client_key;
              final = ''c=biws,r='' @ nonce;
              auth = cl_bare c @ '','' @ server_first @ '','' @ final;
              client_signature = hmac_digest pr d stored_key auth;
              proof_bytes = xor_bytes client_key client_signature;
              server_key = hmac_digest pr d salted ''Server Key''
          in Inr (c\<lparr>cl_signature := Some (hmac_digest pr d server_key auth)\<rparr>,
                  final @ '',p='' @ b64encode proof_bytes))"

definition verify :: "client \<Rightarrow> string \<Rightarrow> string + unit" where
  "verify c server_final =
     (case cl_signature c of
        None \<Rightarrow> Inl ''SCRAM fixture has no expected server proof''
      | Some expected \<Rightarrow>
          (case scram_fields server_final of
             Inl e \<Rightarrow> Inl e
           | Inr values \<Rightarrow>
               if fst ` set values \<noteq> {''v''} then Inl ''SCRAM server proof missing''
               else case decode (the (map_of values ''v'')) of
                 Inl e \<Rightarrow> Inl e
               | Inr v \<Rightarrow> if v = expected then Inr () else Inl ''SCRAM server proof mismatch''))"

section \<open>The server's side\<close>

text \<open>A server that stores the salted password's keys: it splits off the proof, recovers the client
  key with the signature and compares its hash with the stored key.\<close>

definition stored_key_of :: "prims \<Rightarrow> string \<Rightarrow> string \<Rightarrow> string \<Rightarrow> nat \<Rightarrow> string" where
  "stored_key_of pr d password salt count =
     hash_new pr d (hmac_digest pr d (pbkdf2_hmac pr d password salt count) ''Client Key'')"

definition server_key_of :: "prims \<Rightarrow> string \<Rightarrow> string \<Rightarrow> string \<Rightarrow> nat \<Rightarrow> string" where
  "server_key_of pr d password salt count =
     hmac_digest pr d (pbkdf2_hmac pr d password salt count) ''Server Key''"


section \<open>Properties\<close>



lemma xor_bytes_length: "length (xor_bytes xs ys) = min (length xs) (length ys)"
  by (simp add: xor_bytes_def)

lemma b64_char_plain: "b64_char n \<noteq> CHR '',''"
proof (cases "n < 64")
  case True
  then show ?thesis using b64_val_char [of n] by (auto simp: b64_val_def)
qed (simp add: b64_char_def)

lemma b64_enc_plain: "CHR '','' \<notin> set (b64_enc bs)"
  using b64_char_plain by (induction bs rule: b64_enc.induct) (simp_all add: eq_commute [of "CHR '',''"])

lemma b64_enc_size: "3 * length (b64_enc bs) \<le> 4 * length bs + 8"
  by (simp add: b64_enc_length)

definition auth_message :: "client \<Rightarrow> string \<Rightarrow> string \<Rightarrow> string" where
  "auth_message c server_first nonce = cl_bare c @ '','' @ server_first @ '','' @ ''c=biws,r='' @ nonce"

lemma respond_eq:
  assumes "challenge c server_first = Inr (nonce, salt, count)"
  shows "respond pr c server_first password = Inr
    (c\<lparr>cl_signature := Some (hmac_digest pr (cl_digest c)
        (server_key_of pr (cl_digest c) password salt count) (auth_message c server_first nonce))\<rparr>,
     (''c=biws,r='' @ nonce) @ '',p='' @ b64encode (xor_bytes
        (hmac_digest pr (cl_digest c) (pbkdf2_hmac pr (cl_digest c) password salt count) ''Client Key'')
        (hmac_digest pr (cl_digest c) (stored_key_of pr (cl_digest c) password salt count)
          (auth_message c server_first nonce))))"
  using assms by (simp add: respond_def Let_def stored_key_of_def server_key_of_def auth_message_def)

lemma challenge_nonce:
  assumes "challenge c server_first = Inr (nonce, salt, count)"
  shows "list_all nonce_char nonce" "startswith nonce (cl_nonce c)" "length (cl_nonce c) < length nonce"
    "cl_signature c = None" "1 \<le> count" "count \<le> 1000000"
  using assms by (auto simp: challenge_def Let_def split: if_splits sum.splits)



lemma add_fields_distinct:
  "add_fields r parts = Inr vs \<Longrightarrow> distinct (map fst r) \<Longrightarrow> distinct (map fst vs)"
  by (induction parts arbitrary: r) (auto split: prod.splits if_splits)

lemma scram_fields_single:
  assumes "scram_fields m = Inr vs" "fst ` set vs = {k}"
  obtains v where "vs = [(k, v)]"
proof -
  have d: "distinct (map fst vs)"
    using assms(1) add_fields_distinct by (fastforce simp: scram_fields_def split: if_splits)
  then have "card (set (map fst vs)) = length vs" by (metis distinct_card length_map)
  then have "length vs = 1" using assms(2) by simp
  then obtain kv where "vs = [kv]" by (auto simp: length_Suc_conv)
  with assms(2) that show thesis by (cases kv) auto
qed

lemma scram_fields_value:
  assumes "CHR '','' \<notin> set v" "length v \<le> 2000"
  shows "scram_fields (''v='' @ v) = Inr [(''v'', v)]"
proof -
  have "find_sub (''v='' @ v) '','' = None" using assms(1)
    by (auto simp: find_sub_None_iff append_eq_Cons_conv startswith_def)
  then have "split_sub '','' (''v='' @ v) = [''v='' @ v]" by (rule split_sub_None)
  then show ?thesis using assms(2) by (simp add: scram_fields_def partition_sub_def startswith_def)
qed

text \<open>The server is authenticated: after a response the client accepts a final message of the
  server exactly when it consists of one verifier field that decodes to the signature under the
  server key; the honest server's message, for signatures of at most 64 bytes, is accepted.\<close>

theorem verify_decides:
  assumes "respond pr c server_first password = Inr (c', final)"
    and "challenge c server_first = Inr (nonce, salt, count)"
    and "\<And>k m. length (hmac_digest pr (cl_digest c) k m) \<le> 64"
  shows "(verify c' m = Inr () \<longleftrightarrow> (\<exists>v. scram_fields m = Inr [(''v'', v)] \<and>
      b64decode v = cl_signature c')) \<and>
    verify c' (''v='' @ b64encode (hmac_digest pr (cl_digest c)
      (server_key_of pr (cl_digest c) password salt count)
      (cl_bare c @ '','' @ server_first @ '','' @ ''c=biws,r='' @ nonce))) = Inr ()"
proof -
  let ?sig = "hmac_digest pr (cl_digest c) (server_key_of pr (cl_digest c) password salt count)
      (auth_message c server_first nonce)"
  have sig: "cl_signature c' = Some ?sig" using assms(1) unfolding respond_eq [OF assms(2)] by auto
  have iff: "verify c' m = Inr () \<longleftrightarrow> (\<exists>v. scram_fields m = Inr [(''v'', v)] \<and> b64decode v = Some ?sig)" for m
  proof (cases "scram_fields m")
    case (Inr vs)
    then show ?thesis
    proof (cases "fst ` set vs = {''v''}")
      case True
      obtain v where "vs = [(''v'', v)]" by (rule scram_fields_single [OF Inr True])
      then show ?thesis by (auto simp: verify_def sig Inr decode_def split: option.splits)
    qed (auto simp: verify_def sig Inr)
  qed (simp add: verify_def sig)
  have "length (b64encode ?sig) \<le> 2000"
    using b64_enc_size [of "map of_char ?sig"] assms(3) [of "server_key_of pr (cl_digest c) password salt count"
      "auth_message c server_first nonce"] by (simp add: b64encode_def)
  then have "scram_fields (''v='' @ b64encode ?sig) = Inr [(''v'', b64encode ?sig)]"
    using b64_enc_plain by (intro scram_fields_value) (simp_all add: b64encode_def)
  then have "verify c' (''v='' @ b64encode ?sig) = Inr ()"
    by (intro iff [THEN iffD2] exI conjI) (assumption, rule b64_decode_encode)
  then show ?thesis using iff [of m] unfolding sig auth_message_def [symmetric] by (rule conjI [rotated])
qed

text \<open>A client answers once and only its own exchange: a response is given at most once, and only to
  a challenge whose nonce strictly extends the client's own, with an iteration count from 1 to
  1000000.\<close>

theorem respond_once:
  assumes "respond pr c server_first password = Inr (c', final)"
  shows "respond pr c' sf pw = Inl ''SCRAM fixture challenge already consumed'' \<and>
    (\<exists>nonce salt count. challenge c server_first = Inr (nonce, salt, count) \<and>
      startswith nonce (cl_nonce c) \<and> length (cl_nonce c) < length nonce \<and> 1 \<le> count \<and> count \<le> 1000000)"
proof -
  obtain nonce salt count where ch: "challenge c server_first = Inr (nonce, salt, count)"
    using assms by (auto simp: respond_def split: sum.splits prod.splits)
  have "cl_signature c' \<noteq> None" using assms unfolding respond_eq [OF ch] by auto
  then show ?thesis using ch challenge_nonce [OF ch] by (auto simp: respond_def challenge_def)
qed

text \<open>Toy primitives for the witnesses: every output is one byte.\<close>

definition demo_prims :: prims where
  "demo_prims = \<lparr> pbkdf2_hmac = (\<lambda>_ pw _ _. pw), hmac_digest = (\<lambda>_ k m. [CHR ''k'']),
     hash_new = (\<lambda>_ m. m) \<rparr>"

definition demo_client :: client where
  "demo_client = \<lparr> cl_digest = ''sha256'', cl_nonce = ''abcdefghijklmnop'',
     cl_bare = ''n=a,r=abcdefghijklmnop'', cl_first = ''n,,n=a,r=abcdefghijklmnop'', cl_signature = None \<rparr>"

lemma demo_client_made: "Client ''a'' ''abcdefghijklmnop'' ''sha256'' = Inr demo_client"
  by code_simp

lemma demo_challenge:
  "challenge demo_client ''r=abcdefghijklmnopX,s=QQ==,i=4096'' = Inr (''abcdefghijklmnopX'', ''A'', 4096)"
  by code_simp

lemma demo_hmac_length: "length (hmac_digest demo_prims d k m) = 1"
  by (simp add: demo_prims_def)


theorem verify_decides_witness:
  "\<exists>c' final. respond demo_prims demo_client ''r=abcdefghijklmnopX,s=QQ==,i=4096'' ''pw'' = Inr (c', final) \<and>
     verify c' (''v='' @ b64encode (hmac_digest demo_prims (cl_digest demo_client)
       (server_key_of demo_prims (cl_digest demo_client) ''pw'' ''A'' 4096)
       (cl_bare demo_client @ '','' @ ''r=abcdefghijklmnopX,s=QQ==,i=4096'' @ '','' @ ''c=biws,r='' @
         ''abcdefghijklmnopX''))) = Inr ()"
proof -
  obtain c' final where r: "respond demo_prims demo_client ''r=abcdefghijklmnopX,s=QQ==,i=4096'' ''pw'' = Inr (c', final)"
    using respond_eq [OF demo_challenge] by blast
  show ?thesis
    by (intro exI conjI, rule r, rule verify_decides [OF r demo_challenge, THEN conjunct2])
      (simp add: demo_hmac_length)
qed

theorem respond_once_witness:
  "\<exists>c' final. respond demo_prims demo_client ''r=abcdefghijklmnopX,s=QQ==,i=4096'' ''pw'' = Inr (c', final) \<and>
     respond demo_prims c' [] [] = Inl ''SCRAM fixture challenge already consumed''"
proof -
  obtain c' final where r: "respond demo_prims demo_client ''r=abcdefghijklmnopX,s=QQ==,i=4096'' ''pw'' = Inr (c', final)"
    using respond_eq [OF demo_challenge] by blast
  show ?thesis by (intro exI conjI, rule r, rule respond_once [OF r, THEN conjunct1])
qed

end
