(* ===== verification/PyRegex.thy ===== *)
theory PyRegex
  imports Bot_Text "HOL-Library.Sublist"
begin

text \<open>
  Python's \<open>re\<close> as a backtracking matcher. \<open>rm r p s\<close> lists, in the order in which Python
  would try them, all ways to match \<open>r\<close> at the start of \<open>s\<close> when \<open>p\<close> is the character
  before: the groups, the last character consumed and the rest. So \<open>match\<close> is the first
  entry, \<open>fullmatch\<close> the first entry with nothing left, \<open>search\<close> the first entry of the
  first position that has one, and \<open>finditer\<close> the non-overlapping matches from the left.
  The element type is a parameter: the tools match \<open>bytes\<close> (\<open>char\<close>) and \<open>str\<close>
  (code points).
\<close>

datatype 'c re =
    Eps
  | Chr "'c \<Rightarrow> bool"
  | Seq "'c re" "'c re"
  | Alt "'c re" "'c re"
  | Star "'c re"
  | Cap nat "'c re"
  | Look "'c option \<Rightarrow> 'c list \<Rightarrow> bool"

type_synonym 'c groups = "(nat \<times> 'c list) list"

function rm :: "'c re \<Rightarrow> 'c option \<Rightarrow> 'c list \<Rightarrow> ('c groups \<times> 'c option \<times> 'c list) list" where
  "rm Eps p s = [([], p, s)]"
| "rm (Chr f) p s = (case s of [] \<Rightarrow> [] | c # t \<Rightarrow> if f c then [([], Some c, t)] else [])"
| "rm (Seq a b) p s =
     concat (map (\<lambda>(g, q, t). if length t \<le> length s then map (\<lambda>(h, x). (g @ h, x)) (rm b q t) else [])
       (rm a p s))"
| "rm (Alt a b) p s = rm a p s @ rm b p s"
| "rm (Star a) p s =
     concat (map (\<lambda>(g, q, t). if length t < length s then map (\<lambda>(h, x). (g @ h, x)) (rm (Star a) q t) else [])
       (rm a p s)) @ [([], p, s)]"
| "rm (Cap n a) p s = map (\<lambda>(g, q, t). (g @ [(n, take (length s - length t) s)], q, t)) (rm a p s)"
| "rm (Look f) p s = (if f p s then [([], p, s)] else [])"
  by pat_completeness auto
termination
  by (relation "measures [\<lambda>(r, p, s). length s, \<lambda>(r, p, s). size r]") auto

section \<open>Operators\<close>

fun lit :: "'c list \<Rightarrow> 'c re" where
  "lit [] = Eps"
| "lit (c # s) = Seq (Chr (\<lambda>d. d = c)) (lit s)"

definition opt :: "'c re \<Rightarrow> 'c re" where
  "opt a = Alt a Eps"

definition plus :: "'c re \<Rightarrow> 'c re" where
  "plus a = Seq a (Star a)"

fun upto_times :: "'c re \<Rightarrow> nat \<Rightarrow> 'c re" where
  "upto_times a n = (if n = 0 then Eps else opt (Seq a (upto_times a (n - 1))))"

fun times :: "'c re \<Rightarrow> nat \<Rightarrow> 'c re" where
  "times a n = (if n = 0 then Eps else Seq a (times a (n - 1)))"

declare upto_times.simps [simp del] times.simps [simp del]

definition rep_range :: "'c re \<Rightarrow> nat \<Rightarrow> nat \<Rightarrow> 'c re" where
  "rep_range a m n = Seq (times a m) (upto_times a (n - m))"

fun alts :: "'c re list \<Rightarrow> 'c re" where
  "alts [] = Look (\<lambda>_ _. False)"
| "alts (a # as') = (case as' of [] \<Rightarrow> a | _ \<Rightarrow> Alt a (alts as'))"

fun seqs :: "'c re list \<Rightarrow> 'c re" where
  "seqs [] = Eps"
| "seqs (a # as') = (case as' of [] \<Rightarrow> a | _ \<Rightarrow> Seq a (seqs as'))"

text \<open>\<open>^\<close> without and with \<open>re.M\<close>, \<open>\Z\<close>, \<open>$\<close>, and \<open>\b\<close> for a word predicate.\<close>

definition bol :: "'c re" where
  "bol = Look (\<lambda>p s. p = None)"

definition bol_m :: "'c \<Rightarrow> 'c re" where
  "bol_m nl = Look (\<lambda>p s. p = None \<or> p = Some nl)"

definition eos :: "'c re" where
  "eos = Look (\<lambda>p s. s = [])"

definition eol :: "'c \<Rightarrow> 'c re" where
  "eol nl = Look (\<lambda>p s. s = [] \<or> s = [nl])"

definition word_edge :: "('c \<Rightarrow> bool) \<Rightarrow> 'c re" where
  "word_edge w = Look (\<lambda>p s. (case p of None \<Rightarrow> False | Some c \<Rightarrow> w c) \<noteq>
     (case s of [] \<Rightarrow> False | c # _ \<Rightarrow> w c))"

text \<open>Character classes: a set, a complement, ASCII letters and digits as code points. Which code
  points above 127 are letters or decimal digits is the Unicode database, an argument.\<close>

definition one_of :: "'c list \<Rightarrow> 'c re" where
  "one_of cs = Chr (\<lambda>c. c \<in> set cs)"

definition none_of :: "'c list \<Rightarrow> 'c re" where
  "none_of cs = Chr (\<lambda>c. c \<notin> set cs)"

definition adigit :: "nat \<Rightarrow> bool" where
  "adigit c = (48 \<le> c \<and> c \<le> 57)"

definition aupper :: "nat \<Rightarrow> bool" where
  "aupper c = (65 \<le> c \<and> c \<le> 90)"

definition alower :: "nat \<Rightarrow> bool" where
  "alower c = (97 \<le> c \<and> c \<le> 122)"

record unicode_db =
  ud_alnum :: "nat \<Rightarrow> bool"
  ud_digit :: "nat \<Rightarrow> bool"

definition uword :: "unicode_db \<Rightarrow> nat \<Rightarrow> bool" where
  "uword db c = (if c < 128 then adigit c \<or> aupper c \<or> alower c \<or> c = 95 else ud_alnum db c)"

definition udecimal :: "unicode_db \<Rightarrow> nat \<Rightarrow> bool" where
  "udecimal db c = (if c < 128 then adigit c else ud_digit db c)"

text \<open>Literals and classes under \<open>re.IGNORECASE\<close>; the arguments are lower case.\<close>

fun lit_i :: "pystr \<Rightarrow> nat re" where
  "lit_i [] = Eps"
| "lit_i (c # s) = Seq (Chr (\<lambda>d. re_fold d = c)) (lit_i s)"

definition chr_i :: "(nat \<Rightarrow> bool) \<Rightarrow> nat re" where
  "chr_i f = Chr (\<lambda>c. f (re_fold c))"

section \<open>The functions of the module\<close>

definition re_match :: "'c re \<Rightarrow> 'c list \<Rightarrow> ('c groups \<times> 'c list) option" where
  "re_match r s = (case rm r None s of [] \<Rightarrow> None | (g, _, t) # _ \<Rightarrow> Some (g, t))"

definition re_fullmatch :: "'c re \<Rightarrow> 'c list \<Rightarrow> 'c groups option" where
  "re_fullmatch r s = map_option fst (find (\<lambda>(_, _, t). t = []) (rm r None s))"

fun re_search_from :: "'c re \<Rightarrow> 'c option \<Rightarrow> 'c list \<Rightarrow> 'c groups option" where
  "re_search_from r p [] = (case rm r p [] of [] \<Rightarrow> None | (g, _) # _ \<Rightarrow> Some g)"
| "re_search_from r p (c # s) =
     (case rm r p (c # s) of (g, _) # _ \<Rightarrow> Some g | [] \<Rightarrow> re_search_from r (Some c) s)"

definition re_search :: "'c re \<Rightarrow> 'c list \<Rightarrow> 'c groups option" where
  "re_search r s = re_search_from r None s"

text \<open>The matches with their offsets and texts; \<open>k\<close> characters still belong to the last match.\<close>

fun re_finditer_from ::
  "'c re \<Rightarrow> nat \<Rightarrow> nat \<Rightarrow> 'c option \<Rightarrow> 'c list \<Rightarrow> (nat \<times> 'c list \<times> 'c groups) list" where
  "re_finditer_from r i k p [] =
     (if k = 0 then (case rm r p [] of [] \<Rightarrow> [] | (g, _) # _ \<Rightarrow> [(i, [], g)]) else [])"
| "re_finditer_from r i k p (c # s) =
     (if k > 0 then re_finditer_from r (i + 1) (k - 1) (Some c) s
      else case rm r p (c # s) of
        [] \<Rightarrow> re_finditer_from r (i + 1) 0 (Some c) s
      | (g, _, t) # _ \<Rightarrow>
          (i, take (Suc (length s) - length t) (c # s), g) #
            re_finditer_from r (i + 1) (length s - length t) (Some c) s)"

definition re_finditer :: "'c re \<Rightarrow> 'c list \<Rightarrow> (nat \<times> 'c list \<times> 'c groups) list" where
  "re_finditer r s = re_finditer_from r 0 0 None s"

text \<open>\<open>re.split\<close> for a pattern without groups that matches no empty text.\<close>

fun split_pieces :: "nat \<Rightarrow> 'c list \<Rightarrow> (nat \<times> 'c list \<times> 'c groups) list \<Rightarrow> 'c list list" where
  "split_pieces k s [] = [drop k s]"
| "split_pieces k s ((i, m, g) # ms) = take (i - k) (drop k s) # split_pieces (i + length m) s ms"

definition re_split :: "'c re \<Rightarrow> 'c list \<Rightarrow> 'c list list" where
  "re_split r s = split_pieces 0 s (re_finditer r s)"

text \<open>\<open>m[n]\<close>; an unmatched group is \<open>None\<close>.\<close>

definition group :: "'c groups \<Rightarrow> nat \<Rightarrow> 'c list option" where
  "group g n = map_of (rev g) n"

definition grp :: "'c groups \<Rightarrow> nat \<Rightarrow> 'c list" where
  "grp g n = (case group g n of Some s \<Rightarrow> s | None \<Rightarrow> [])"

section \<open>Facts\<close>

lemma rm_Seq_iff:
  "(g, q, t) \<in> set (rm (Seq a b) p s) \<longleftrightarrow>
   (\<exists>g' q' t' h. (g', q', t') \<in> set (rm a p s) \<and> length t' \<le> length s \<and>
      (h, q, t) \<in> set (rm b q' t') \<and> g = g' @ h)"
proof
  assume "(g, q, t) \<in> set (rm (Seq a b) p s)"
  then obtain x where x: "x \<in> set (rm a p s)"
    "(g, q, t) \<in> set (case x of (g, q, t) \<Rightarrow> if length t \<le> length s
       then map (\<lambda>(h, x). (g @ h, x)) (rm b q t) else [])"
    unfolding rm.simps set_concat set_map by blast
  obtain g' q' t' where e: "x = (g', q', t')" by (cases x)
  have "length t' \<le> length s" using x(2) by (simp add: e split: if_splits)
  moreover from this obtain h where "(h, q, t) \<in> set (rm b q' t')" "g = g' @ h"
    using x(2) by (auto simp: e)
  ultimately show "\<exists>g' q' t' h. (g', q', t') \<in> set (rm a p s) \<and> length t' \<le> length s \<and>
      (h, q, t) \<in> set (rm b q' t') \<and> g = g' @ h" using x(1) e by blast
next
  assume "\<exists>g' q' t' h. (g', q', t') \<in> set (rm a p s) \<and> length t' \<le> length s \<and>
      (h, q, t) \<in> set (rm b q' t') \<and> g = g' @ h"
  then obtain g' q' t' h where m: "(g', q', t') \<in> set (rm a p s)" "length t' \<le> length s"
      "(h, q, t) \<in> set (rm b q' t')" "g = g' @ h" by blast
  then have "(g, q, t) \<in> set (map (\<lambda>(h, x). (g' @ h, x)) (rm b q' t'))" by force
  with m(1,2) show "(g, q, t) \<in> set (rm (Seq a b) p s)"
    by (simp add: bexI [of _ "(g', q', t')"])
qed

declare rm.simps(3,5) [simp del]

lemma rm_Star_iff:
  "(g, q, t) \<in> set (rm (Star a) p s) \<longleftrightarrow> g = [] \<and> q = p \<and> t = s \<or>
   (\<exists>g' q' t' h. (g', q', t') \<in> set (rm a p s) \<and> length t' < length s \<and>
      (h, q, t) \<in> set (rm (Star a) q' t') \<and> g = g' @ h)"
  (is "?l \<longleftrightarrow> ?z \<or> ?r")
proof
  assume ?l
  then consider "(g, q, t) = ([], p, s)" | x where "x \<in> set (rm a p s)"
    "(g, q, t) \<in> set (case x of (g, q, t) \<Rightarrow> if length t < length s
       then map (\<lambda>(h, x). (g @ h, x)) (rm (Star a) q t) else [])"
    unfolding rm.simps(5) [of a p s] set_append set_concat set_map Un_iff Union_iff
    by (elim disjE bexE imageE) (simp_all only: list.set insert_iff empty_iff simp_thms)
  then show "?z \<or> ?r"
  proof cases
    case (2 x)
    obtain g' q' t' where e: "x = (g', q', t')" by (cases x)
    have "length t' < length s" using 2(2) by (simp add: e del: rm.simps split: if_splits)
    moreover from this obtain h where "(h, q, t) \<in> set (rm (Star a) q' t')" "g = g' @ h"
      using 2(2) by (auto simp: e simp del: rm.simps)
    ultimately have ?r using 2(1) e by blast
    then show ?thesis ..
  qed simp
next
  assume "?z \<or> ?r"
  then show ?l
  proof
    assume ?r
    then obtain g' q' t' h where m: "(g', q', t') \<in> set (rm a p s)" "length t' < length s"
      "(h, q, t) \<in> set (rm (Star a) q' t')" "g = g' @ h" by blast
    then have "(g, q, t) \<in> set (map (\<lambda>(h, x). (g' @ h, x)) (rm (Star a) q' t'))" by force
    with m(1,2) show ?l
      unfolding rm.simps(5) [of a p s]
      by (simp del: rm.simps add: bexI [of _ "(g', q', t')"])
  qed (subst rm.simps(5), simp)
qed

lemma rm_Cap_iff:
  "(g, q, t) \<in> set (rm (Cap n a) p s) \<longleftrightarrow>
   (\<exists>g'. (g', q, t) \<in> set (rm a p s) \<and> g = g' @ [(n, take (length s - length t) s)])"
  by force

declare rm.simps(6) [simp del]

lemma rm_suffix: "(g, q, t) \<in> set (rm r p s) \<Longrightarrow> suffix t s"
proof (induction r p s arbitrary: g q t rule: rm.induct)
  case (2 f p s)
  then show ?case by (cases s) (auto split: if_splits intro: suffix_ConsI)
next
  case (3 a b p s)
  then obtain g' q' t' h where m: "(g', q', t') \<in> set (rm a p s)" "length t' \<le> length s"
    "(h, q, t) \<in> set (rm b q' t')"
    unfolding rm_Seq_iff by blast
  show ?case using "3.IH"(1) [OF m(1)] "3.IH"(2) [OF m(1) refl refl m(2,3)]
    by (rule suffix_order.trans [rotated])
next
  case (5 a p s)
  then consider "t = s" | g' q' t' h where "(g', q', t') \<in> set (rm a p s)" "length t' < length s"
    "(h, q, t) \<in> set (rm (Star a) q' t')"
    using rm_Star_iff [of g q t a p s] by blast
  then show ?case
  proof cases
    case 2
    show ?thesis using "5.IH"(1) [OF 2(1)] "5.IH"(2) [OF 2(1) refl refl 2(2,3)]
      by (rule suffix_order.trans [rotated])
  qed simp
next
  case (6 n a p s)
  then show ?case unfolding rm_Cap_iff by blast
next
  case (7 f p s)
  then show ?case by (simp split: if_splits)
qed auto

lemma rm_SeqE:
  assumes "(g, q, t) \<in> set (rm (Seq a b) p s)"
  obtains g' q' t' h where "(g', q', t') \<in> set (rm a p s)" "suffix t' s" "(h, q, t) \<in> set (rm b q' t')"
proof -
  from assms obtain g' q' t' h where m: "(g', q', t') \<in> set (rm a p s)" "(h, q, t) \<in> set (rm b q' t')"
    unfolding rm_Seq_iff by blast
  show ?thesis by (rule that [OF m(1) rm_suffix [OF m(1)] m(2)])
qed

lemma rm_length: "(g, q, t) \<in> set (rm r p s) \<Longrightarrow> length t \<le> length s"
  by (rule suffix_length_le [OF rm_suffix])

text \<open>The texts a pattern without assertions matches, as a set.\<close>

inductive in_lang :: "'c re \<Rightarrow> 'c list \<Rightarrow> bool" where
  Eps: "in_lang Eps []"
| Chr: "f c \<Longrightarrow> in_lang (Chr f) [c]"
| Seq: "in_lang a x \<Longrightarrow> in_lang b v \<Longrightarrow> in_lang (Seq a b) (x @ v)"
| AltL: "in_lang a x \<Longrightarrow> in_lang (Alt a b) x"
| AltR: "in_lang b x \<Longrightarrow> in_lang (Alt a b) x"
| Star0: "in_lang (Star a) []"
| StarN: "in_lang a x \<Longrightarrow> x \<noteq> [] \<Longrightarrow> in_lang (Star a) v \<Longrightarrow> in_lang (Star a) (x @ v)"
| Cap: "in_lang a x \<Longrightarrow> in_lang (Cap n a) x"

fun plain :: "'c re \<Rightarrow> bool" where
  "plain (Look _) = False"
| "plain (Seq a b) = (plain a \<and> plain b)"
| "plain (Alt a b) = (plain a \<and> plain b)"
| "plain (Star a) = plain a"
| "plain (Cap _ a) = plain a"
| "plain _ = True"

lemma rm_in_lang: "(g, q, t) \<in> set (rm r p s) \<Longrightarrow> plain r \<Longrightarrow> \<exists>x. s = x @ t \<and> in_lang r x"
proof (induction r p s arbitrary: g q t rule: rm.induct)
  case (1 p s)
  then show ?case by (auto intro: in_lang.intros)
next
  case (2 f p s)
  then show ?case by (cases s) (auto split: if_splits intro: in_lang.intros)
next
  case (3 a b p s)
  then obtain g' q' t' h where m: "(g', q', t') \<in> set (rm a p s)" "length t' \<le> length s"
    "(h, q, t) \<in> set (rm b q' t')"
    unfolding rm_Seq_iff by blast
  from "3.IH"(1) [OF m(1)] "3.IH"(2) [OF m(1) refl refl m(2,3)] "3.prems"(2)
  obtain x v where "s = x @ t'" "in_lang a x" "t' = v @ t" "in_lang b v" by auto
  then show ?case using in_lang.Seq [of a x b v] by (intro exI [of _ "x @ v"]) simp
next
  case (4 a b p s)
  then consider "(g, q, t) \<in> set (rm a p s)" | "(g, q, t) \<in> set (rm b p s)" by auto
  then show ?case
  proof cases
    case 1
    from "4.IH"(1) [OF this] "4.prems"(2) obtain x where "s = x @ t" "in_lang a x" by auto
    then show ?thesis using in_lang.AltL [of a x b] by blast
  next
    case 2
    from "4.IH"(2) [OF this] "4.prems"(2) obtain x where "s = x @ t" "in_lang b x" by auto
    then show ?thesis using in_lang.AltR [of b x a] by blast
  qed
next
  case (5 a p s)
  consider "t = s" | g' q' t' h where "(g', q', t') \<in> set (rm a p s)" "length t' < length s"
    "(h, q, t) \<in> set (rm (Star a) q' t')"
    using "5.prems"(1) rm_Star_iff [of g q t a p s] by blast
  then show ?case
  proof cases
    case 1
    then show ?thesis using in_lang.Star0 [of a] by simp
  next
    case 2
    from "5.IH"(1) [OF 2(1)] "5.IH"(2) [OF 2(1) refl refl 2(2,3)] "5.prems"(2)
    obtain x v where xv: "s = x @ t'" "in_lang a x" "t' = v @ t" "in_lang (Star a) v" by auto
    have "x \<noteq> []" using 2(2) xv(1) by auto
    then show ?thesis using xv in_lang.StarN [of a x v] by (intro exI [of _ "x @ v"]) simp
  qed
next
  case (6 n a p s)
  then obtain h where "(h, q, t) \<in> set (rm a p s)" unfolding rm_Cap_iff by blast
  from "6.IH" [OF this] "6.prems"(2) obtain x where "s = x @ t" "in_lang a x" by auto
  then show ?case using in_lang.Cap [of a x n] by blast
qed simp

lemma in_lang_rm:
  "in_lang r x \<Longrightarrow> plain r \<Longrightarrow> \<exists>g q. (g, q, t) \<in> set (rm r p (x @ t))"
proof (induction arbitrary: p t rule: in_lang.induct)
  case (Seq a x b v)
  obtain g q where m: "(g, q, v @ t) \<in> set (rm a p (x @ v @ t))" using Seq by fastforce
  obtain h q' where n: "(h, q', t) \<in> set (rm b q (v @ t))" using Seq by fastforce
  have "(g @ h, q', t) \<in> set (rm (Seq a b) p (x @ v @ t))"
    unfolding rm_Seq_iff using m n rm_length [OF m] by blast
  then show ?case by auto
next
  case (StarN a x v)
  obtain g q where m: "(g, q, v @ t) \<in> set (rm a p (x @ v @ t))" using StarN by fastforce
  obtain h q' where n: "(h, q', t) \<in> set (rm (Star a) q (v @ t))" using StarN by fastforce
  have "length (v @ t) < length (x @ v @ t)" using StarN.hyps(2) by simp
  then have "(g @ h, q', t) \<in> set (rm (Star a) p (x @ v @ t))"
    using rm_Star_iff [of "g @ h" q' t a p "x @ v @ t"] m n by blast
  then show ?case by auto
next
  case (Cap a x n)
  then obtain g q where "(g, q, t) \<in> set (rm a p (x @ t))" by fastforce
  then show ?case unfolding rm_Cap_iff by blast
next
  case (Star0 a)
  then show ?case using rm_Star_iff [of "[]" p t a p t] by auto
next
  case (AltL a x b)
  then show ?case by (auto, blast)
next
  case (AltR b x a)
  then show ?case by (auto, blast)
qed auto

text \<open>\<open>fullmatch\<close> decides the language.\<close>

lemma re_fullmatch_iff: "plain r \<Longrightarrow> re_fullmatch r s \<noteq> None \<longleftrightarrow> in_lang r s"
proof -
  assume r: "plain r"
  have "re_fullmatch r s \<noteq> None \<longleftrightarrow> (\<exists>g q. (g, q, []) \<in> set (rm r None s))"
    by (auto simp: re_fullmatch_def find_None_iff)
  also have "\<dots> \<longleftrightarrow> in_lang r s"
    using rm_in_lang [of _ _ "[]" r None s] in_lang_rm [of r s "[]" None] r by fastforce
  finally show ?thesis .
qed

text \<open>\<open>search\<close> finds a text of the language anywhere.\<close>

lemma re_search_from_iff:
  "re_search_from r p s \<noteq> None \<longleftrightarrow>
     (\<exists>x v. s = x @ v \<and> rm r (if x = [] then p else Some (last x)) v \<noteq> [])"
proof (induction s arbitrary: p)
  case Nil
  then show ?case by (auto split: list.splits)
next
  case (Cons c s)
  have "(\<exists>x v. c # s = x @ v \<and> rm r (if x = [] then p else Some (last x)) v \<noteq> []) \<longleftrightarrow>
      rm r p (c # s) \<noteq> [] \<or>
      (\<exists>x v. s = x @ v \<and> rm r (if x = [] then Some c else Some (last x)) v \<noteq> [])"
    (is "?l \<longleftrightarrow> ?r")
  proof
    assume ?l
    then obtain x v where x: "c # s = x @ v" "rm r (if x = [] then p else Some (last x)) v \<noteq> []" by blast
    show ?r
    proof (cases x)
      case (Cons d y)
      then show ?thesis using x by (intro disjI2 exI [of _ y] exI [of _ v]) (auto split: if_splits)
    qed (use x in auto)
  next
    assume ?r
    then consider "rm r p (c # s) \<noteq> []" |
      x v where "s = x @ v" "rm r (if x = [] then Some c else Some (last x)) v \<noteq> []" by blast
    then show ?l
    proof cases
      case 1
      then show ?thesis by (intro exI [of _ "[]"] exI [of _ "c # s"]) simp
    next
      case (2 x v)
      then show ?thesis by (intro exI [of _ "c # x"] exI [of _ v]) auto
    qed
  qed
  then show ?case using Cons.IH [of "Some c"] by (auto split: list.splits)
qed

lemma re_search_iff:
  assumes "plain r"
  shows "re_search r s \<noteq> None \<longleftrightarrow> (\<exists>x m v. s = x @ m @ v \<and> in_lang r m)"
proof -
  have "rm r p v \<noteq> [] \<longleftrightarrow> (\<exists>m w. v = m @ w \<and> in_lang r m)" for p v
  proof
    assume "rm r p v \<noteq> []"
    then obtain g q t where "(g, q, t) \<in> set (rm r p v)" by (cases "rm r p v") auto
    then show "\<exists>m w. v = m @ w \<and> in_lang r m" using rm_in_lang assms by blast
  next
    assume "\<exists>m w. v = m @ w \<and> in_lang r m"
    then show "rm r p v \<noteq> []" using in_lang_rm assms by (metis empty_iff empty_set)
  qed
  then have "re_search r s \<noteq> None \<longleftrightarrow> (\<exists>x v. s = x @ v \<and> (\<exists>m w. v = m @ w \<and> in_lang r m))"
    unfolding re_search_def re_search_from_iff by (simp only:)
  then show ?thesis by blast
qed

inductive_simps in_lang_simps [simp]:
  "in_lang Eps x" "in_lang (Chr f) x" "in_lang (Seq a b) x" "in_lang (Alt a b) x"
  "in_lang (Cap n a) x" "in_lang (Look f) x"

lemma in_lang_lit [simp]: "in_lang (lit s) x \<longleftrightarrow> x = s"
  by (induction s arbitrary: x) auto

lemma plain_lit [simp]: "plain (lit s)"
  by (induction s) auto

lemma in_lang_star_chr [simp]: "in_lang (Star (Chr f)) x \<longleftrightarrow> list_all f x"
proof
  show "in_lang (Star (Chr f)) x \<Longrightarrow> list_all f x"
    by (induction "Star (Chr f)" x rule: in_lang.induct) auto
  show "list_all f x \<Longrightarrow> in_lang (Star (Chr f)) x"
  proof (induction x)
    case (Cons c x)
    then show ?case using in_lang.StarN [of "Chr f" "[c]" x] by auto
  qed (simp add: in_lang.Star0)
qed

end
