(* ===== verification/Toolkit.thy ===== *)
theory Toolkit
  imports PyRegex PyText
begin

text \<open>
  \<open>validate_toolkit.py\<close>: the validator of the project's skills and agent definitions. The model
  covers the front-matter parser, the authority markers, the three validators and \<open>main\<close>. The
  directories are a \<open>toolkit\<close> record: names and file contents as the globs list them, before
  sorting. Text is a list of code points, a message is a value of \<open>failure\<close>, and
  \<open>tk_toml\<close> is \<open>tomllib.loads\<close> (\<open>None\<close> when it raises).
\<close>

section \<open>Tables\<close>

definition TOOLKIT_NAME :: "nat re" where
  "TOOLKIT_NAME = seqs [bol, plus (Chr (\<lambda>c. alower c \<or> adigit c \<or> c = 45)), eol 10]"

definition REQUIRED_SHARED :: "string list" where
  "REQUIRED_SHARED = [''zig-coder'', ''onyx-session'', ''onyx-server-integrator'', ''onyx-server-dst'',
     ''onyx-reviewer'', ''onyx-release-gate'', ''onyx-server-deploy'', ''onyx-docs'',
     ''onyx-agent-architect'']"

definition CODEX_SANDBOX :: "(string \<times> string) list" where
  "CODEX_SANDBOX = [
     (''onyx-agent-architect'', ''read-only''), (''onyx-reviewer'', ''read-only''),
     (''onyx-server-deploy'', ''danger-full-access''), (''onyx-docs'', ''workspace-write''),
     (''onyx-server-dst'', ''workspace-write''), (''onyx-release-gate'', ''read-only''),
     (''onyx-server-integrator'', ''workspace-write''), (''onyx-session'', ''workspace-write''),
     (''zig-coder'', ''workspace-write'')]"

definition CODEX_EFFORT :: "(string \<times> string) list" where
  "CODEX_EFFORT = [
     (''zig-coder'', ''high''), (''onyx-release-gate'', ''high''), (''onyx-docs'', ''high''),
     (''onyx-session'', ''xhigh''), (''onyx-server-integrator'', ''xhigh''),
     (''onyx-server-dst'', ''xhigh''), (''onyx-reviewer'', ''xhigh''),
     (''onyx-server-deploy'', ''xhigh''), (''onyx-agent-architect'', ''xhigh'')]"

definition CLAUDE_TOOLS :: "(string \<times> string list) list" where
  "CLAUDE_TOOLS = [
     (''onyx-agent-architect'', [''Read'', ''Grep'', ''Glob'', ''Skill'']),
     (''onyx-reviewer'', [''Read'']), (''onyx-fast-auditor'', [''Read'']),
     (''onyx-integration-reviewer'', [''Read'']), (''onyx-security-reviewer'', [''Read'']),
     (''onyx-release-gate'', [''Read'', ''Grep'', ''Glob'', ''Bash'', ''Skill'']),
     (''onyx-server-deploy-authorized'', [''Read'', ''Grep'', ''Glob'', ''Bash'', ''Skill'']),
     (''onyx-docs'', [''Read'', ''Grep'', ''Glob'', ''Bash'', ''Write'', ''Edit'', ''Skill'']),
     (''onyx-server-dst-leaf'', [''Read'', ''Grep'', ''Glob'', ''Bash'', ''Write'', ''Edit'', ''Skill'']),
     (''onyx-server-integrator'', [''Read'', ''Grep'', ''Glob'', ''Bash'', ''Write'', ''Edit'', ''Skill'']),
     (''onyx-session'', [''Read'', ''Grep'', ''Glob'', ''Bash'', ''Write'', ''Edit'', ''Skill'']),
     (''zig-coder-leaf'', [''Read'', ''Grep'', ''Glob'', ''Bash'', ''Write'', ''Edit'', ''Skill''])]"

definition CODEX_SERVER_EXCLUDED_WRITERS :: "string list" where
  "CODEX_SERVER_EXCLUDED_WRITERS =
     map fst (filter (\<lambda>(name, sandbox). sandbox \<noteq> ''read-only'' \<and> name \<noteq> ''onyx-server-integrator'')
       CODEX_SANDBOX)"

definition CLAUDE_MODEL_EFFORT :: "(string \<times> string \<times> string) list" where
  "CLAUDE_MODEL_EFFORT = [
     (''onyx-fast-auditor'', ''claude-sonnet-5'', ''low''),
     (''onyx-integration-reviewer'', ''claude-sonnet-5'', ''medium''),
     (''onyx-security-reviewer'', ''claude-sonnet-5'', ''high''),
     (''onyx-release-gate'', ''claude-sonnet-5'', ''medium''),
     (''onyx-docs'', ''claude-sonnet-5'', ''medium'')]"

section \<open>Authority over server.zig\<close>

definition unticked :: "pystr \<Rightarrow> pystr" where
  "unticked t = filter (\<lambda>c. c \<noteq> 96) t"

datatype role = Owner | Excluded | NoRole

definition server_zig_role :: "pystr \<Rightarrow> role" where
  "server_zig_role t =
     (case remdups (filter (\<lambda>m. startswith m (u ''server_zig_role:''))
         (map (\<lambda>l. str_lower (str_strip l)) (str_splitlines (unticked t)))) of
        [marker] \<Rightarrow>
          if marker = u ''server_zig_role: owner'' then Owner
          else if marker = u ''server_zig_role: excluded'' then Excluded else NoRole
      | _ \<Rightarrow> NoRole)"

definition server_exclusion_consistent :: "pystr \<Rightarrow> bool" where
  "server_exclusion_consistent t =
     (let normalized = str_lower (unticked t) in
      contains_sub normalized (u ''never edit src/daemon/server.zig'') \<and>
      count_sub normalized (u ''server.zig'') = 1)"

definition clause_break :: "nat re" where
  "clause_break = alts [lit (u '';''), lit [10], Seq (Look (\<lambda>p s. p = Some 46)) (plus (Chr uspace))]"

definition server_owner_consistent :: "pystr \<Rightarrow> bool" where
  "server_owner_consistent t =
     (let normalized = str_lower (unticked t) in
      count_sub normalized (u ''server.zig'') = 1 \<and>
      list_ex (\<lambda>c. startswith (str_strip c)
          (u ''hold the permanent named-role reservation on src/daemon/server.zig''))
        (re_split clause_break normalized))"

section \<open>Failures and files\<close>

datatype failure =
    NoFrontmatter string
  | UnterminatedFrontmatter string
  | InvalidSkillName string
  | MissingSkillDescription string
  | DuplicateSkill string
  | IntegrationSkillNoOwnership
  | SessionSkillNoHandoff
  | StaleUi string
  | NoSkills
  | InvalidCodexName string
  | IncompleteCodex string
  | DuplicateCodex string
  | CodexSandbox string string
  | CodexNoEditContract string
  | CodexEffort string string
  | CodexModel string
  | CodexNotExcluded string
  | CodexIntegratorNotOwner
  | CodexCannotOwn string
  | CodexMissingSkill string pystr
  | InvalidClaudeName string
  | MissingClaudeDescription string
  | ClaudeTools string
  | ClaudeNotExcluded string
  | ClaudeIntegratorNotOwner
  | ClaudeCannotOwn string
  | ClaudeModelEffort string
  | ClaudeMissingSkill string
  | DuplicateClaude string
  | SkillsLink
  | CodexRoster
  | ClaudeRoster
  | Raised py_error
  | AssertionFailed

record toolkit =
  tk_skills :: "(string \<times> string) list"
  tk_ui :: "string \<Rightarrow> string option"
  tk_skill_file :: "pystr \<Rightarrow> bool"
  tk_codex :: "(string \<times> string) list"
  tk_claude :: "(string \<times> string) list"
  tk_link :: "path option"
  tk_skills_dir :: path
  tk_toml :: "pystr \<Rightarrow> json option"

definition read_file :: "string \<Rightarrow> failure + pystr" where
  "read_file raw = (case text_of raw of None \<Rightarrow> Inl (Raised (ValueError [])) | Some t \<Rightarrow> Inr t)"

section \<open>Front matter\<close>

datatype meta_value = MStr pystr | MList "pystr list"

type_synonym meta = "pystr \<rightharpoonup> meta_value"

definition strip_quotes :: "pystr \<Rightarrow> pystr" where
  "strip_quotes s = strip_by (\<lambda>c. c = 34) (str_strip s)"

definition meta_line :: "meta \<times> pystr option \<Rightarrow> pystr \<Rightarrow> failure + (meta \<times> pystr option)" where
  "meta_line st line =
     (case st of (values, current) \<Rightarrow>
      case (startswith line (u ''  - ''), current) of
        (True, Some key) \<Rightarrow>
          (case values key of
             Some (MList xs) \<Rightarrow> Inr (values(key \<mapsto> MList (xs @ [strip_quotes (drop 4 line)])), current)
           | _ \<Rightarrow> Inl AssertionFailed)
      | _ \<Rightarrow>
          if line = [] \<or> uspace (hd line) then Inr (values, None)
          else (case split1 (u '':'') line of
             [k, v] \<Rightarrow>
               let key = str_strip k; value = strip_quotes v in
               if value \<noteq> [] then Inr (values(key \<mapsto> MStr value), None)
               else Inr (values(key \<mapsto> MList []), Some key)
           | _ \<Rightarrow> Inr (values, None)))"

fun meta_lines :: "meta \<times> pystr option \<Rightarrow> pystr list \<Rightarrow> failure + (meta \<times> pystr option)" where
  "meta_lines st [] = Inr st"
| "meta_lines st (l # ls) = bind_res (meta_line st l) (\<lambda>st'. meta_lines st' ls)"

definition frontmatter :: "string \<Rightarrow> pystr \<Rightarrow> failure + meta" where
  "frontmatter path t =
     (if \<not> startswith t (u ''---'' @ [10]) then Inl (NoFrontmatter path)
      else case split2 (u ''---'' @ [10]) t of
        [_, raw, _] \<Rightarrow> bind_res (meta_lines (Map.empty, None) (str_splitlines raw)) (\<lambda>st. Inr (fst st))
      | _ \<Rightarrow> Inl (UnterminatedFrontmatter path))"

definition meta_scalar :: "meta \<Rightarrow> string \<Rightarrow> pystr" where
  "meta_scalar m key = (case m (u key) of Some (MStr s) \<Rightarrow> s | _ \<Rightarrow> [])"

text \<open>A set, as the list of its elements.\<close>

definition meta_csv :: "meta \<Rightarrow> string \<Rightarrow> pystr list" where
  "meta_csv m key =
     (case m (u key) of
        Some (MList xs) \<Rightarrow> remdups xs
      | Some (MStr s) \<Rightarrow> remdups (filter (\<lambda>i. i \<noteq> []) (map str_strip (split_sub (u '','') s)))
      | None \<Rightarrow> [])"

section \<open>Skills\<close>

definition validate_skill :: "toolkit \<Rightarrow> pystr set \<Rightarrow> string \<times> string \<Rightarrow> failure + pystr set" where
  "validate_skill tk names entry =
     (case entry of (dir, raw) \<Rightarrow>
      bind_res (read_file raw) (\<lambda>t.
      bind_res (frontmatter dir t) (\<lambda>meta.
      let name = meta_scalar meta ''name''; normalized = str_lower (unticked t) in
      bind_res (require_res (re_fullmatch TOOLKIT_NAME name \<noteq> None \<and> name = utf8_decode dir) (InvalidSkillName dir)) (\<lambda>_.
      bind_res (require_res (meta_scalar meta ''description'' \<noteq> []) (MissingSkillDescription dir)) (\<lambda>_.
      bind_res (require_res (name \<notin> names) (DuplicateSkill dir)) (\<lambda>_.
      bind_res (require_res (\<not> (name = u ''onyx-server-integration'' \<and>
          (\<not> contains_sub normalized (u ''permanent named-role reservation on src/daemon/server.zig'') \<or>
           \<not> contains_sub normalized (u ''onyx-server-integrator'')))) IntegrationSkillNoOwnership) (\<lambda>_.
      bind_res (require_res (\<not> (name = u ''onyx-session-mesh'' \<and>
          (\<not> contains_sub normalized (u ''never edit src/daemon/server.zig'') \<or>
           \<not> contains_sub normalized (u ''onyx-server-integrator'')))) SessionSkillNoHandoff) (\<lambda>_.
      (case tk_ui tk dir of
         None \<Rightarrow> Inl (StaleUi dir)
       | Some yaml \<Rightarrow>
           bind_res (read_file yaml) (\<lambda>y.
           bind_res (require_res (contains_sub y (36 # name)) (StaleUi dir)) (\<lambda>_.
           Inr (insert name names))))))))))))"

text \<open>The loops over the sorted files, threading the set of names.\<close>

fun validate_all :: "(pystr set \<Rightarrow> 'f \<Rightarrow> failure + pystr set) \<Rightarrow> pystr set \<Rightarrow> 'f list \<Rightarrow> failure + pystr set" where
  "validate_all step names [] = Inr names"
| "validate_all step names (f # fs) = bind_res (step names f) (\<lambda>ns. validate_all step ns fs)"

definition validate_skills :: "toolkit \<Rightarrow> failure + pystr set" where
  "validate_skills tk =
     bind_res (validate_all (validate_skill tk) {} (sort_key fst (tk_skills tk))) (\<lambda>names.
     if names = {} then Inl NoSkills else Inr names)"

section \<open>Codex agents\<close>

definition lowered :: "json \<Rightarrow> failure + pystr" where
  "lowered v = (case v of JStr s \<Rightarrow> Inr (str_lower (utf8_decode s)) | _ \<Rightarrow> Inl (Raised AttributeError))"

definition no_edit_contract :: "json \<Rightarrow> failure + bool" where
  "no_edit_contract data =
     bind_res (lowered (json_get data ''description'')) (\<lambda>d.
     if contains_sub d (u ''without editing source'') then Inr True
     else bind_res (lowered (json_get data ''developer_instructions'')) (\<lambda>i.
       Inr (contains_sub i (u ''remain read-only''))))"

definition instructions :: "json \<Rightarrow> failure + pystr" where
  "instructions data =
     (case json_get data ''developer_instructions'' of JStr s \<Rightarrow> Inr (utf8_decode s)
      | _ \<Rightarrow> Inl (Raised AttributeError))"

definition skill_refs :: "pystr \<Rightarrow> pystr list" where
  "skill_refs t =
     map (\<lambda>(i, m, g). grp g 1)
       (re_finditer (Seq (lit (u ''$'')) (Cap 1 (Seq (lit (u ''onyx-''))
          (plus (Chr (\<lambda>c. alower c \<or> adigit c \<or> c = 45)))))) t)"

definition table_ok :: "(string \<times> string) list \<Rightarrow> string \<Rightarrow> json \<Rightarrow> bool" where
  "table_ok tab name v = (case map_of tab name of None \<Rightarrow> True | Some e \<Rightarrow> v = JStr e)"

text \<open>The checks of one agent's authority.\<close>

definition codex_authority :: "string \<Rightarrow> pystr \<Rightarrow> failure + unit" where
  "codex_authority name t =
     (let role = server_zig_role t in
      bind_res (require_res (\<not> (name \<in> set CODEX_SERVER_EXCLUDED_WRITERS \<and>
          (role \<noteq> Excluded \<or> \<not> server_exclusion_consistent t))) (CodexNotExcluded name)) (\<lambda>_.
      bind_res (require_res (\<not> (name = ''onyx-server-integrator'' \<and>
          (role \<noteq> Owner \<or> \<not> server_owner_consistent t))) CodexIntegratorNotOwner) (\<lambda>_.
      require_res (\<not> (name \<noteq> ''onyx-server-integrator'' \<and> role = Owner)) (CodexCannotOwn name))))"

definition validate_codex_agent :: "toolkit \<Rightarrow> pystr set \<Rightarrow> string \<times> string \<Rightarrow> failure + pystr set" where
  "validate_codex_agent tk names entry =
     (case entry of (stem, raw) \<Rightarrow>
      bind_res (read_file raw) (\<lambda>t.
      bind_res (case tk_toml tk t of None \<Rightarrow> Inl (Raised (ValueError [])) | Some d \<Rightarrow> Inr d) (\<lambda>data.
      bind_res (require_res (json_get data ''name'' = JStr stem \<and>
          re_fullmatch TOOLKIT_NAME (utf8_decode stem) \<noteq> None) (InvalidCodexName stem)) (\<lambda>_.
      bind_res (require_res (truthy (json_get data ''description'') \<and>
          truthy (json_get data ''developer_instructions'')) (IncompleteCodex stem)) (\<lambda>_.
      bind_res (require_res (utf8_decode stem \<notin> names) (DuplicateCodex stem)) (\<lambda>_.
      bind_res (require_res (table_ok CODEX_SANDBOX stem (json_get data ''sandbox_mode''))
          (CodexSandbox stem (the (map_of CODEX_SANDBOX stem)))) (\<lambda>_.
      bind_res (no_edit_contract data) (\<lambda>no_edit.
      bind_res (require_res (\<not> (no_edit \<and> json_get data ''sandbox_mode'' \<noteq> JStr ''read-only''))
          (CodexNoEditContract stem)) (\<lambda>_.
      bind_res (require_res (table_ok CODEX_EFFORT stem (json_get data ''model_reasoning_effort''))
          (CodexEffort stem (the (map_of CODEX_EFFORT stem)))) (\<lambda>_.
      bind_res (require_res (\<not> json_has data ''model'') (CodexModel stem)) (\<lambda>_.
      bind_res (instructions data) (\<lambda>ins.
      bind_res (codex_authority stem ins) (\<lambda>_.
      (case find (\<lambda>s. \<not> tk_skill_file tk s) (skill_refs ins) of
         Some s \<Rightarrow> Inl (CodexMissingSkill stem s)
       | None \<Rightarrow> Inr (insert (utf8_decode stem) names)))))))))))))))"

definition validate_codex :: "toolkit \<Rightarrow> failure + pystr set" where
  "validate_codex tk = validate_all (validate_codex_agent tk) {} (sort_key (\<lambda>f. fst f @ ''.toml'') (tk_codex tk))"

section \<open>Claude agents\<close>

definition same_set :: "'a list \<Rightarrow> 'a list \<Rightarrow> bool" where
  "same_set xs ys = (set xs = set ys)"

definition claude_writer :: "pystr list \<Rightarrow> bool" where
  "claude_writer tools = list_ex (\<lambda>t. u t \<in> set tools) [''Write'', ''Edit'', ''Bash'']"

definition claude_authority :: "string \<Rightarrow> pystr list \<Rightarrow> pystr \<Rightarrow> failure + unit" where
  "claude_authority name tools body =
     (let role = server_zig_role body in
      bind_res (require_res (\<not> (name \<noteq> ''onyx-server-integrator'' \<and> claude_writer tools \<and>
          (role \<noteq> Excluded \<or> \<not> server_exclusion_consistent body))) (ClaudeNotExcluded name)) (\<lambda>_.
      bind_res (require_res (\<not> (name = ''onyx-server-integrator'' \<and>
          (role \<noteq> Owner \<or> \<not> server_owner_consistent body))) ClaudeIntegratorNotOwner) (\<lambda>_.
      require_res (\<not> (name \<noteq> ''onyx-server-integrator'' \<and> role = Owner)) (ClaudeCannotOwn name))))"

definition expected_model_effort :: "string \<Rightarrow> string \<times> string" where
  "expected_model_effort name =
     (case map_of CLAUDE_MODEL_EFFORT name of Some me \<Rightarrow> me | None \<Rightarrow> (''claude-sonnet-5'', ''high''))"

definition validate_claude_agent ::
  "pystr set \<Rightarrow> pystr set \<Rightarrow> string \<times> string \<Rightarrow> failure + pystr set" where
  "validate_claude_agent skill_names names entry =
     (case entry of (stem, raw) \<Rightarrow>
      bind_res (read_file raw) (\<lambda>t.
      bind_res (frontmatter stem t) (\<lambda>meta.
      let name = meta_scalar meta ''name''; tools = meta_csv meta ''tools'';
          body = split2 (u ''---'' @ [10]) t ! 2 in
      bind_res (require_res (name = utf8_decode stem \<and> re_fullmatch TOOLKIT_NAME name \<noteq> None) (InvalidClaudeName stem)) (\<lambda>_.
      bind_res (require_res (meta_scalar meta ''description'' \<noteq> []) (MissingClaudeDescription stem)) (\<lambda>_.
      bind_res (require_res (case map_of CLAUDE_TOOLS stem of None \<Rightarrow> False | Some e \<Rightarrow> same_set tools (map u e))
          (ClaudeTools stem)) (\<lambda>_.
      bind_res (claude_authority stem tools body) (\<lambda>_.
      bind_res (require_res (meta_scalar meta ''model'' = u (fst (expected_model_effort stem)) \<and>
          meta_scalar meta ''effort'' = u (snd (expected_model_effort stem))) (ClaudeModelEffort stem)) (\<lambda>_.
      bind_res (require_res (list_all (\<lambda>s. s \<in> skill_names) (meta_csv meta ''skills'')) (ClaudeMissingSkill stem)) (\<lambda>_.
      bind_res (require_res (name \<notin> names) (DuplicateClaude stem)) (\<lambda>_.
      Inr (insert name names)))))))))))"

definition validate_claude :: "toolkit \<Rightarrow> pystr set \<Rightarrow> failure + pystr set" where
  "validate_claude tk skill_names =
     validate_all (validate_claude_agent skill_names) {} (sort_key (\<lambda>f. fst f @ ''.md'') (tk_claude tk))"

section \<open>The program\<close>

definition toolkit_main :: "toolkit \<Rightarrow> failure + (nat \<times> nat \<times> nat)" where
  "toolkit_main tk =
     bind_res (validate_skills tk) (\<lambda>skills.
     bind_res (validate_codex tk) (\<lambda>codex.
     bind_res (validate_claude tk skills) (\<lambda>claude.
     bind_res (require_res (tk_link tk = Some (tk_skills_dir tk)) SkillsLink) (\<lambda>_.
     bind_res (require_res (codex = set (map u REQUIRED_SHARED)) CodexRoster) (\<lambda>_.
     bind_res (require_res (claude = set (map (u \<circ> fst) CLAUDE_TOOLS)) ClaudeRoster) (\<lambda>_.
     Inr (card skills, card codex, card claude)))))))"

section \<open>Facts\<close>

text \<open>A loop that adds each file's name to the names, and refuses a name it has.\<close>

locale roster =
  fixes step :: "pystr set \<Rightarrow> string \<times> string \<Rightarrow> failure + pystr set"
  assumes step_adds: "step names f = Inr ns \<Longrightarrow>
    ns = insert (utf8_decode (fst f)) names \<and> utf8_decode (fst f) \<notin> names"
begin

lemma all_names:
  "validate_all step names fs = Inr ns \<Longrightarrow>
    ns = names \<union> (utf8_decode \<circ> fst) ` set fs \<and> distinct (map (utf8_decode \<circ> fst) fs) \<and>
    names \<inter> (utf8_decode \<circ> fst) ` set fs = {}"
proof (induction fs arbitrary: names)
  case (Cons f fs)
  then obtain ms where m: "step names f = Inr ms" "validate_all step ms fs = Inr ns" by auto
  with Cons.IH [OF m(2)] step_adds [OF m(1)] show ?case by auto
qed simp

lemma each_step: "validate_all step names fs = Inr ns \<Longrightarrow> f \<in> set fs \<Longrightarrow> \<exists>a b. step a f = Inr b"
  by (induction fs arbitrary: names) auto

end

interpretation skills: roster "validate_skill tk" for tk
  by unfold_locales (auto simp: validate_skill_def Let_def split: option.splits)

interpretation codex: roster "validate_codex_agent tk" for tk
  by unfold_locales (auto simp: validate_codex_agent_def Let_def split: option.splits)

interpretation claude: roster "validate_claude_agent skill_names" for skill_names
  by unfold_locales (auto simp: validate_claude_agent_def Let_def split: option.splits)

lemma codex_authority_ok:
  "codex_authority name t = Inr x \<Longrightarrow>
    (server_zig_role t = Owner \<longleftrightarrow> name = ''onyx-server-integrator'') \<and>
    (name \<in> set CODEX_SERVER_EXCLUDED_WRITERS \<longrightarrow>
       server_zig_role t = Excluded \<and> server_exclusion_consistent t)"
  by (auto simp: codex_authority_def Let_def)

lemma claude_authority_ok:
  "claude_authority name tools t = Inr x \<Longrightarrow>
    (server_zig_role t = Owner \<longleftrightarrow> name = ''onyx-server-integrator'') \<and>
    (name \<noteq> ''onyx-server-integrator'' \<and> claude_writer tools \<longrightarrow>
       server_zig_role t = Excluded \<and> server_exclusion_consistent t)"
  by (auto simp: claude_authority_def Let_def)

lemma codex_agent_ok:
  assumes "validate_codex_agent tk names (stem, raw) = Inr ns"
  shows "\<exists>t data ins. text_of raw = Some t \<and> tk_toml tk t = Some data \<and> instructions data = Inr ins \<and>
    codex_authority stem ins = Inr () \<and> table_ok CODEX_SANDBOX stem (json_get data ''sandbox_mode'')"
  using assms
  by (auto simp: validate_codex_agent_def read_file_def split: option.splits)

lemma claude_agent_ok:
  assumes "validate_claude_agent skill_names names (stem, raw) = Inr ns"
  shows "\<exists>t meta. text_of raw = Some t \<and> frontmatter stem t = Inr meta \<and>
    (\<exists>e. map_of CLAUDE_TOOLS stem = Some e \<and> set (meta_csv meta ''tools'') = set (map u e)) \<and>
    claude_authority stem (meta_csv meta ''tools'') (split2 (u ''---'' @ [10]) t ! 2) = Inr ()"
  using assms
  by (auto simp: validate_claude_agent_def read_file_def Let_def same_set_def split: option.splits)

text \<open>In validated toolkits \<open>src/daemon/server.zig\<close> has one owner. Among the Codex agents only the
  server integrator declares itself owner, and every other writer of the sandbox table is
  excluded and names the file exactly once, in the prohibition. Among the Claude agents the same
  holds for all agents whose tools include \<open>Write\<close>, \<open>Edit\<close> or \<open>Bash\<close>, and the tools are
  those of the table. No two agents share a name.\<close>

theorem server_zig_one_owner:
  assumes "validate_codex tk = Inr codex" "validate_claude tk skills = Inr claude"
  shows "(\<forall>(stem, raw) \<in> set (tk_codex tk). \<exists>t data ins.
      text_of raw = Some t \<and> tk_toml tk t = Some data \<and> instructions data = Inr ins \<and>
      (server_zig_role ins = Owner \<longleftrightarrow> stem = ''onyx-server-integrator'') \<and>
      (stem \<in> set CODEX_SERVER_EXCLUDED_WRITERS \<longrightarrow>
         server_zig_role ins = Excluded \<and> server_exclusion_consistent ins)) \<and>
    (\<forall>(stem, raw) \<in> set (tk_claude tk). \<exists>t meta e body.
      text_of raw = Some t \<and> frontmatter stem t = Inr meta \<and> body = split2 (u ''---'' @ [10]) t ! 2 \<and>
      map_of CLAUDE_TOOLS stem = Some e \<and> set (meta_csv meta ''tools'') = set (map u e) \<and>
      (server_zig_role body = Owner \<longleftrightarrow> stem = ''onyx-server-integrator'') \<and>
      (stem \<noteq> ''onyx-server-integrator'' \<and> claude_writer (meta_csv meta ''tools'') \<longrightarrow>
         server_zig_role body = Excluded \<and> server_exclusion_consistent body)) \<and>
    codex = (utf8_decode \<circ> fst) ` set (tk_codex tk) \<and>
    claude = (utf8_decode \<circ> fst) ` set (tk_claude tk)"
proof (intro conjI)
  show "\<forall>(stem, raw) \<in> set (tk_codex tk). \<exists>t data ins.
      text_of raw = Some t \<and> tk_toml tk t = Some data \<and> instructions data = Inr ins \<and>
      (server_zig_role ins = Owner \<longleftrightarrow> stem = ''onyx-server-integrator'') \<and>
      (stem \<in> set CODEX_SERVER_EXCLUDED_WRITERS \<longrightarrow>
         server_zig_role ins = Excluded \<and> server_exclusion_consistent ins)"
  proof (intro ballI, clarify)
    fix stem raw assume "(stem, raw) \<in> set (tk_codex tk)"
    then obtain a b where "validate_codex_agent tk a (stem, raw) = Inr b"
      using codex.each_step [OF assms(1) [unfolded validate_codex_def], of "(stem, raw)"] by auto
    from codex_agent_ok [OF this] codex_authority_ok [of stem]
    show "\<exists>t data ins. text_of raw = Some t \<and> tk_toml tk t = Some data \<and> instructions data = Inr ins \<and>
      (server_zig_role ins = Owner \<longleftrightarrow> stem = ''onyx-server-integrator'') \<and>
      (stem \<in> set CODEX_SERVER_EXCLUDED_WRITERS \<longrightarrow>
         server_zig_role ins = Excluded \<and> server_exclusion_consistent ins)" by blast
  qed
  show "\<forall>(stem, raw) \<in> set (tk_claude tk). \<exists>t meta e body.
      text_of raw = Some t \<and> frontmatter stem t = Inr meta \<and> body = split2 (u ''---'' @ [10]) t ! 2 \<and>
      map_of CLAUDE_TOOLS stem = Some e \<and> set (meta_csv meta ''tools'') = set (map u e) \<and>
      (server_zig_role body = Owner \<longleftrightarrow> stem = ''onyx-server-integrator'') \<and>
      (stem \<noteq> ''onyx-server-integrator'' \<and> claude_writer (meta_csv meta ''tools'') \<longrightarrow>
         server_zig_role body = Excluded \<and> server_exclusion_consistent body)"
  proof (intro ballI, clarify)
    fix stem raw assume "(stem, raw) \<in> set (tk_claude tk)"
    then obtain a b where "validate_claude_agent skills a (stem, raw) = Inr b"
      using claude.each_step [OF assms(2) [unfolded validate_claude_def], of "(stem, raw)"] by auto
    from claude_agent_ok [OF this] claude_authority_ok [of stem]
    show "\<exists>t meta e body. text_of raw = Some t \<and> frontmatter stem t = Inr meta \<and>
      body = split2 (u ''---'' @ [10]) t ! 2 \<and>
      map_of CLAUDE_TOOLS stem = Some e \<and> set (meta_csv meta ''tools'') = set (map u e) \<and>
      (server_zig_role body = Owner \<longleftrightarrow> stem = ''onyx-server-integrator'') \<and>
      (stem \<noteq> ''onyx-server-integrator'' \<and> claude_writer (meta_csv meta ''tools'') \<longrightarrow>
         server_zig_role body = Excluded \<and> server_exclusion_consistent body)" by blast
  qed
  show "codex = (utf8_decode \<circ> fst) ` set (tk_codex tk)"
    using codex.all_names [OF assms(1) [unfolded validate_codex_def]] by simp
  show "claude = (utf8_decode \<circ> fst) ` set (tk_claude tk)"
    using claude.all_names [OF assms(2) [unfolded validate_claude_def]] by simp
qed

text \<open>Agents that pass.\<close>

definition owner_text :: string where
  "owner_text = ''server_zig_role: owner'' @ [CHR 0x0A] @
     ''Hold the permanent named-role reservation on src/daemon/server.zig.''"

definition excluded_text :: string where
  "excluded_text = ''server_zig_role: excluded'' @ [CHR 0x0A] @ ''Never edit `src/daemon/server.zig`.''"

definition claude_text :: "string \<Rightarrow> string \<Rightarrow> string \<Rightarrow> string" where
  "claude_text name effort body =
     join [CHR 0x0A] [''---'', ''name: '' @ name, ''description: x'', ''tools: Read'',
       ''model: claude-sonnet-5'', ''effort: '' @ effort, ''skills:'', ''  - zig'', ''---'', body]"

definition sample_toolkit :: toolkit where
  "sample_toolkit =
     \<lparr>tk_skills = [], tk_ui = (\<lambda>_. None), tk_skill_file = (\<lambda>_. True),
      tk_codex = [(''onyx-server-integrator'', ''I''), (''onyx-docs'', ''D'')],
      tk_claude = [(''onyx-reviewer'', claude_text ''onyx-reviewer'' ''high'' ''Review.'')],
      tk_link = None, tk_skills_dir = path_of ''/s'',
      tk_toml = (\<lambda>t.
        let dev = (t = u ''I''); name = (if dev then ''onyx-server-integrator'' else ''onyx-docs'') in
        Some (JObj [(''name'', JStr name), (''description'', JStr ''x''),
          (''sandbox_mode'', JStr ''workspace-write''),
          (''model_reasoning_effort'', JStr (if dev then ''xhigh'' else ''high'')),
          (''developer_instructions'', JStr (if dev then owner_text else excluded_text))]))\<rparr>"

lemma sample_codex: "validate_codex sample_toolkit = Inr {u ''onyx-docs'', u ''onyx-server-integrator''}"
  by code_simp

lemma sample_claude:
  "validate_claude sample_toolkit {u ''zig''} = Inr {u ''onyx-reviewer''}"
  by code_simp

theorem server_zig_one_owner_witness:
  "validate_codex sample_toolkit = Inr {u ''onyx-docs'', u ''onyx-server-integrator''} \<and>
   (\<exists>t data ins. text_of ''D'' = Some t \<and> tk_toml sample_toolkit t = Some data \<and> instructions data = Inr ins \<and>
      server_zig_role ins = Excluded)"
proof -
  have "(''onyx-docs'', ''D'') \<in> set (tk_codex sample_toolkit)"
    by (simp add: sample_toolkit_def)
  moreover have "''onyx-docs'' \<in> set CODEX_SERVER_EXCLUDED_WRITERS" by code_simp
  ultimately show ?thesis
    using server_zig_one_owner [OF sample_codex sample_claude] sample_codex by fast
qed

lemma meta_line_lists:
  assumes "meta_line (values, current) line = Inr (values', current')"
    and "\<And>k. current = Some k \<Longrightarrow> \<exists>xs. values k = Some (MList xs)"
  shows "current' = Some k \<Longrightarrow> \<exists>xs. values' k = Some (MList xs)"
  using assms
  by (auto simp: meta_line_def Let_def split: if_splits option.splits list.splits bool.splits meta_value.splits)

lemma meta_line_no_assertion:
  assumes "\<And>k. current = Some k \<Longrightarrow> \<exists>xs. values k = Some (MList xs)"
  shows "meta_line (values, current) line \<noteq> Inl e"
  using assms
  by (auto simp: meta_line_def Let_def split: if_splits option.splits list.splits bool.splits meta_value.splits)

lemma meta_lines_total:
  assumes "\<And>k. current = Some k \<Longrightarrow> \<exists>xs. values k = Some (MList xs)"
  shows "\<exists>st. meta_lines (values, current) ls = Inr st"
  using assms
proof (induction ls arbitrary: "values" current)
  case (Cons l ls)
  obtain v c where m: "meta_line (values, current) l = Inr (v, c)"
    using meta_line_no_assertion [OF Cons.prems, where line = l]
    by (cases "meta_line (values, current) l") auto
  from Cons.IH [of c v] meta_line_lists [OF m Cons.prems] obtain st where "meta_lines (v, c) ls = Inr st"
    by blast
  with m show ?case by auto
qed simp

text \<open>C37: The parser's assertion never fails: whenever an item line is read under a key, the value of that
  key is a list. So the front matter of every text that starts with a marker line and has a
  second one is parsed, and the parser's only failures are the two missing markers.\<close>

theorem frontmatter_total:
  "((\<exists>m. frontmatter path t = Inr m) \<longleftrightarrow>
      startswith t (u ''---'' @ [10]) \<and> length (split2 (u ''---'' @ [10]) t) = 3) \<and>
   (frontmatter path t = Inl e \<longleftrightarrow>
      (if startswith t (u ''---'' @ [10])
       then length (split2 (u ''---'' @ [10]) t) \<noteq> 3 \<and> e = UnterminatedFrontmatter path
       else e = NoFrontmatter path))"
proof -
  have "\<forall>raw. \<exists>x. meta_lines (Map.empty, None) (str_splitlines raw) = Inr x"
    using meta_lines_total [of None Map.empty] by simp
  then obtain st where st: "meta_lines (Map.empty, None) (str_splitlines raw) = Inr (st raw)" for raw
    by metis
  show ?thesis by (auto simp: frontmatter_def st bind_res_def split: list.splits)
qed

end
