(* ===== verification/Bench_Live.thy ===== *)
theory Bench_Live
  imports Machines PyText
begin

text \<open>
  The retained delivery profile of \<open>tools/bench_live.py\<close>: the bounded line framer, the ledger of
  exact deliveries, the benchmark client, the checks of the CPU snapshots and the generated
  configuration. \<open>bytes\<close> and ASCII \<open>str\<close> are strings; a clock reading is an argument of the
  operation that takes it. \<open>PhaseFailure\<close> carries the message of the exception.
\<close>

datatype bench_error = PhaseFailure string | RuntimeFailure string | MissingKey

definition CRLF :: string where
  "CRLF = [CHR 0x0D, CHR 0x0A]"

definition CHANNEL :: string where
  "CHANNEL = ''#bench''"

section \<open>LineFramer\<close>

text \<open>\<open>feed\<close>: the new pending bytes and the lines.\<close>

definition line_feed :: "string \<Rightarrow> string \<Rightarrow> bench_error + (string \<times> string list)" where
  "line_feed pending chunk =
     (if length (pending @ chunk) > 65536 then Inl (PhaseFailure ''receive buffer exceeded bound'')
      else
        let ls = split_sub CRLF (pending @ chunk) in
        if list_ex (\<lambda>l. length l > 16384) (butlast ls) \<or> length (last ls) > 16384
        then Inl (PhaseFailure ''IRC line exceeded bound'')
        else Inr (last ls, butlast ls))"

section \<open>DeliveryLedger\<close>

type_synonym stream = "string \<times> nat \<times> nat"

record delivery =
  dl_run :: string
  dl_clients :: nat
  dl_counts :: "string \<rightharpoonup> nat"
  dl_next :: "stream \<rightharpoonup> nat"
  dl_sent :: "stream \<rightharpoonup> int"
  dl_received :: "string \<Rightarrow> nat"
  dl_latencies :: "string \<Rightarrow> int list"
  dl_changed :: bool


definition ljust :: "nat \<Rightarrow> char \<Rightarrow> string \<Rightarrow> string" where
  "ljust n c s = s @ replicate (n - length s) c"

definition phase_payload :: "string \<Rightarrow> string \<Rightarrow> nat \<Rightarrow> nat \<Rightarrow> string" where
  "phase_payload run_id phase sender sequence =
     ljust 128 (CHR ''x'') (''onyxbench:'' @ run_id @ '':'' @ phase @ '':'' @ show_nat sender @ '':'' @
       show_nat sequence @ '':'')"




definition is_ascii :: "string \<Rightarrow> bool" where
  "is_ascii s = list_all (\<lambda>c. of_char c < (128 :: nat)) s"

text \<open>The identity in a payload: magic, run, phase, sender, sequence.\<close>

definition message_identity :: "string \<Rightarrow> (string \<times> string \<times> string \<times> int \<times> int) option" where
  "message_identity payload =
     (case splitn 5 '':'' payload of
        [magic, run_id, phase, sender, sequence, _] \<Rightarrow>
          (if is_ascii phase
           then (case (byte_int sender, byte_int sequence) of
                   (Some s, Some q) \<Rightarrow> Some (magic, run_id, phase, s, q)
                 | _ \<Rightarrow> None)
           else None)
      | _ \<Rightarrow> None)"

definition drop_tags :: "string \<Rightarrow> string" where
  "drop_tags line = (if startswith line ''@'' then snd (snd (partition_sub line '' '')) else line)"

definition accept_delivery ::
  "delivery \<Rightarrow> nat \<Rightarrow> string \<Rightarrow> string \<Rightarrow> string \<times> string \<times> string \<times> int \<times> int \<Rightarrow> int \<Rightarrow> bench_error + (bool \<times> delivery)" where
  "accept_delivery d recipient prefix payload ident now =
     (case ident of (magic, run_id, phase, sender', sequence') \<Rightarrow>
      case dl_counts d phase of
        None \<Rightarrow> Inl (PhaseFailure ''unknown run or phase'')
      | Some count \<Rightarrow>
          if magic \<noteq> ''onyxbench'' \<or> run_id \<noteq> dl_run d then Inl (PhaseFailure ''unknown run or phase'')
          else if \<not> (0 \<le> sender' \<and> sender' < int (dl_clients d)) \<or> sender' = int recipient \<or>
              \<not> (0 \<le> sequence' \<and> sequence' < int count)
          then Inl (PhaseFailure ''unexpected sender/recipient/sequence'')
          else
            let sender = nat sender'; sequence = nat sequence'; key = (phase, sender, recipient) in
            if hd (split1 ''!'' prefix) \<noteq> '':lb'' @ show_nat sender
            then Inl (PhaseFailure ''prefix does not match sender identity'')
            else if payload \<noteq> phase_payload (dl_run d) phase sender sequence
            then Inl (PhaseFailure ''payload changed'')
            else case dl_next d key of
              None \<Rightarrow> Inl MissingKey
            | Some expected \<Rightarrow>
                if sequence \<noteq> expected then Inl (PhaseFailure ''duplicate or reordered delivery'')
                else case dl_sent d (phase, sender, sequence) of
                  None \<Rightarrow> Inl (PhaseFailure ''delivery was not authored'')
                | Some stamp \<Rightarrow>
                    Inr (True, d\<lparr>dl_next := (dl_next d)(key \<mapsto> expected + 1),
                       dl_received := (dl_received d)(phase := dl_received d phase + 1),
                       dl_latencies := (dl_latencies d)(phase := dl_latencies d phase @ [now - stamp]),
                       dl_changed := True\<rparr>))"

definition receive :: "delivery \<Rightarrow> nat \<Rightarrow> string \<Rightarrow> int \<Rightarrow> bench_error + (bool \<times> delivery)" where
  "receive d recipient raw now =
     (let line = drop_tags raw;
          parts = splitn 3 '' '' line;
          command = (if startswith line '':'' \<and> length parts > 1 then parts ! 1 else parts ! 0) in
      if map byte_upper command \<noteq> ''PRIVMSG'' then Inr (False, d)
      else if \<not> startswith line '':'' \<or> length parts \<noteq> 4 \<or> parts ! 2 \<noteq> CHANNEL \<or>
          \<not> startswith (parts ! 3) '':''
      then Inl (PhaseFailure ''unexpected PRIVMSG target/framing'')
      else
        let payload = tl (parts ! 3) in
        case message_identity payload of
          None \<Rightarrow> Inl (PhaseFailure ''malformed message identity'')
        | Some ident \<Rightarrow> accept_delivery d recipient (parts ! 0) payload ident now)"


fun credit_from :: "delivery \<Rightarrow> string \<Rightarrow> nat \<Rightarrow> int \<Rightarrow> nat list \<Rightarrow> bench_error + bool" where
  "credit_from d phase sender bound [] = Inr True"
| "credit_from d phase sender bound (r # rs) =
     (if r = sender then credit_from d phase sender bound rs
      else case dl_next d (phase, sender, r) of
        None \<Rightarrow> Inl MissingKey
      | Some n \<Rightarrow> if int n > bound then credit_from d phase sender bound rs else Inr False)"

definition credit :: "delivery \<Rightarrow> string \<Rightarrow> nat \<Rightarrow> nat \<Rightarrow> nat \<Rightarrow> bench_error + bool" where
  "credit d phase sender sequence window =
     credit_from d phase sender (int sequence - int window) [0..<dl_clients d]"

section \<open>PhaseClient\<close>

record phase_client =
  pc_index :: nat
  pc_pending :: string
  pc_welcome :: bool
  pc_joined :: bool
  pc_pongs :: "string \<rightharpoonup> bool"
  pc_lines_sent :: nat
  pc_written :: string

definition new_client :: "nat \<Rightarrow> phase_client" where
  "new_client index =
     \<lparr>pc_index = index, pc_pending = [], pc_welcome = False, pc_joined = False, pc_pongs = Map.empty,
      pc_lines_sent = 0, pc_written = []\<rparr>"

definition client_send :: "phase_client \<Rightarrow> string \<Rightarrow> bench_error + phase_client" where
  "client_send c line =
     (if CHR 0x0D \<in> set line \<or> CHR 0x0A \<in> set line \<or> length line > 510
      then Inl (PhaseFailure ''invalid outgoing IRC line'')
      else Inr (c\<lparr>pc_written := pc_written c @ line @ CRLF, pc_lines_sent := pc_lines_sent c + 1\<rparr>))"

definition line_command :: "string \<Rightarrow> string" where
  "line_command line =
     (let fs = split_sub '' '' line in
      map byte_upper (if startswith line '':'' \<and> length fs > 1 then fs ! 1 else fs ! 0))"

definition protocol_error :: "string \<Rightarrow> bool" where
  "protocol_error command =
     (command = ''ERROR'' \<or>
      command \<noteq> [] \<and> list_all is_digit command \<and> nat_of_digits command \<ge> 400 \<and> command \<noteq> ''422'')"

text \<open>The text after the last \<open>" :"\<close> (the whole line when there is none).\<close>

definition pong_marker :: "string \<Rightarrow> string" where
  "pong_marker line = (case rfind_sub line '' :'' of None \<Rightarrow> line | Some i \<Rightarrow> drop (i + 2) line)"

text \<open>A pending pong is \<open>True\<close> once its future is done without an answer (cancelled).\<close>

definition client_line ::
  "phase_client \<times> delivery \<Rightarrow> string \<Rightarrow> int \<Rightarrow> bench_error + (phase_client \<times> delivery)" where
  "client_line st line now =
     (case st of (c, d) \<Rightarrow>
      if map byte_upper (hd (split1 '' '' line)) = ''PING'' then
        (case split1 '' '' line of
           [_, arg] \<Rightarrow> bind_res (client_send c (''PONG '' @ arg)) (\<lambda>c'. Inr (c', d))
         | _ \<Rightarrow> Inl (PhaseFailure ''malformed PING''))
      else
        let command = line_command line in
        if protocol_error command then Inl (PhaseFailure ''daemon returned protocol error'')
        else if command = ''001'' then Inr (c\<lparr>pc_welcome := True\<rparr>, d)
        else if command = ''366'' \<and> CHANNEL \<in> set (split_sub '' '' line) then Inr (c\<lparr>pc_joined := True\<rparr>, d)
        else if command = ''PONG'' then
          (case pc_pongs c (pong_marker line) of
             Some False \<Rightarrow> Inr (c\<lparr>pc_pongs := (pc_pongs c)(pong_marker line := None)\<rparr>, d)
           | _ \<Rightarrow> Inl (PhaseFailure ''unexpected or duplicated PONG barrier''))
        else bind_res (receive d (pc_index c) line now) (\<lambda>r. Inr (c, snd r)))"

fun client_lines ::
  "phase_client \<times> delivery \<Rightarrow> (string \<times> int) list \<Rightarrow> bench_error + (phase_client \<times> delivery)" where
  "client_lines st [] = Inr st"
| "client_lines st ((line, now) # ls) = bind_res (client_line st line now) (\<lambda>st'. client_lines st' ls)"

text \<open>One turn of the read loop; \<open>clock\<close> gives the time at each line.\<close>

definition client_read ::
  "phase_client \<times> delivery \<Rightarrow> string \<Rightarrow> (nat \<Rightarrow> int) \<Rightarrow> bench_error + (phase_client \<times> delivery)" where
  "client_read st chunk clock =
     (if chunk = [] then Inl (PhaseFailure ''persistent client disconnected'')
      else bind_res (line_feed (pc_pending (fst st)) chunk) (\<lambda>(pending, ls).
        client_lines ((fst st)\<lparr>pc_pending := pending\<rparr>, snd st) (zip ls (map clock [0..<length ls]))))"

definition barrier :: "phase_client \<Rightarrow> string \<Rightarrow> bench_error + phase_client" where
  "barrier c marker =
     (if pc_pongs c marker \<noteq> None then Inl (PhaseFailure ''barrier reused'')
      else client_send (c\<lparr>pc_pongs := (pc_pongs c)(marker \<mapsto> False)\<rparr>) (''PING :'' @ marker))"

section \<open>TLS observations and CPU snapshots\<close>

record tls_observation =
  to_client :: nat
  to_version :: "string option"
  to_cipher :: "string option"

definition phase_tls_observation :: "nat \<Rightarrow> (string option \<times> string option) option \<Rightarrow> tls_observation" where
  "phase_tls_observation index tls =
     \<lparr>to_client = index, to_version = (case tls of Some (v, _) \<Rightarrow> v | None \<Rightarrow> None),
      to_cipher = (case tls of Some (_, c) \<Rightarrow> c | None \<Rightarrow> None)\<rparr>"

record tls_summary =
  ts_status :: string
  ts_values :: "string list"
  ts_unknown :: int

definition summarize :: "nat \<Rightarrow> string option list \<Rightarrow> tls_summary" where
  "summarize expected_clients vs =
     (let known = sort (remdups (List.map_filter id vs));
          unknown = int expected_clients - int (length vs) + int (count_list vs None)
      in \<lparr>ts_status = (if known = [] then ''unknown'' else if length known > 1 then ''mixed''
                       else if unknown \<noteq> 0 then ''partial'' else ''uniform''),
          ts_values = known, ts_unknown = unknown\<rparr>)"

definition phase_tls_summary ::
  "nat \<Rightarrow> tls_observation list \<Rightarrow> tls_observation list \<times> tls_summary \<times> tls_summary" where
  "phase_tls_summary expected_clients obs =
     (obs, summarize expected_clients (map to_version obs), summarize expected_clients (map to_cipher obs))"

record task_info =
  ti_name :: string
  ti_ticks :: nat
  ti_start :: nat

text \<open>\<open>snap\<close> is what \<open>bench_sqpoll.snapshot\<close> returns: the tasks by thread id.\<close>

definition phase_cpu_snapshot :: "nat \<Rightarrow> nat \<Rightarrow> (nat \<times> task_info) list \<Rightarrow> bench_error + (nat \<times> task_info) list" where
  "phase_cpu_snapshot pid mode snap =
     (let workers = filter (\<lambda>v. startswith (ti_name v) ''iou-sqp-'') (map snd snap);
          expected = (if mode \<noteq> 0 then 1 else 0 :: nat) in
      if length workers \<noteq> expected \<or> list_ex (\<lambda>v. ti_name v \<noteq> ''iou-sqp-'' @ show_nat pid) workers
      then Inl (PhaseFailure ''SQPOLL mode does not match observed worker custody'')
      else Inr snap)"

definition same_tasks :: "(nat \<times> task_info) list \<Rightarrow> (nat \<times> task_info) list \<Rightarrow> bool" where
  "same_tasks xs ys =
     (set (map fst xs) = set (map fst ys) \<and>
      list_all (\<lambda>(t, v). case map_of xs t of Some w \<Rightarrow> ti_start w = ti_start v \<and> ti_name w = ti_name v
                          | None \<Rightarrow> False) ys)"

definition phase_verify_cpu_discovery ::
  "nat \<Rightarrow> nat \<Rightarrow> (nat \<times> task_info) list \<Rightarrow> (nat \<times> task_info) list \<Rightarrow> bench_error + unit" where
  "phase_verify_cpu_discovery pid mode snap timed =
     bind_res (phase_cpu_snapshot pid mode snap) (\<lambda>fresh.
       if same_tasks fresh timed then Inr ()
       else Inl (PhaseFailure ''fresh discovery changed CPU task custody''))"

text \<open>The comparison of the snapshots around a phase and the ticks of each task.\<close>

definition phase_cpu_tasks ::
  "(nat \<times> task_info) list \<Rightarrow> (nat \<times> task_info) list \<Rightarrow> bench_error + (nat \<times> string \<times> nat) list" where
  "phase_cpu_tasks before after =
     (if \<not> same_tasks before after \<or>
         list_ex (\<lambda>(t, v). case map_of after t of Some w \<Rightarrow> ti_ticks w < ti_ticks v | None \<Rightarrow> False) before
      then Inl (PhaseFailure ''daemon CPU task coverage changed'')
      else Inr (map (\<lambda>(t, v). let w = the (map_of after t) in (t, ti_name w, ti_ticks w - ti_ticks v)) before))"

section \<open>Metrics\<close>

definition metric_names :: "string list" where
  "metric_names = [''onyx_messages_in_total'', ''onyx_bytes_in_total'', ''onyx_bytes_out_total'',
     ''onyx_connections_active'', ''onyx_errors_total'']"

text \<open>The wanted values of one response, in text form; \<open>None\<close> is the \<open>ValueError\<close> of a value
  that is no integer. Later lines win.\<close>

fun metric_values :: "(string \<rightharpoonup> int) \<Rightarrow> string list \<Rightarrow> (string \<rightharpoonup> int) option" where
  "metric_values m [] = Some m"
| "metric_values m (l # ls) =
     (case (startswith l ''#'', split_ws byte_space l) of
        (False, [name, value]) \<Rightarrow>
          if name \<in> set metric_names
          then (case byte_int value of None \<Rightarrow> None | Some v \<Rightarrow> metric_values (m(name \<mapsto> v)) ls)
          else metric_values m ls
      | _ \<Rightarrow> metric_values m ls)"

definition metrics_fresh :: "int \<Rightarrow> (string \<rightharpoonup> int) \<Rightarrow> bool" where
  "metrics_fresh target vs =
     ((case vs ''onyx_messages_in_total'' of Some v \<Rightarrow> v | None \<Rightarrow> -1) \<ge> target \<and>
      vs ''onyx_connections_active'' = Some 4)"

section \<open>Configuration\<close>

definition nl :: string where
  "nl = [CHR 0x0A]"

definition replace1 :: "string \<Rightarrow> string \<Rightarrow> string \<Rightarrow> string" where
  "replace1 old new s =
     (case find_sub s old of None \<Rightarrow> s | Some i \<Rightarrow> take i s @ new @ drop (i + length old) s)"

definition quoted :: "string \<Rightarrow> string" where
  "quoted s = [CHR 0x22] @ s @ [CHR 0x22]"

definition phase_sections :: "nat \<Rightarrow> nat \<Rightarrow> string" where
  "phase_sections mode metrics_port =
     nl @ concat (map (\<lambda>l. l @ nl)
       [''[io]'', ''ring_entries = 512'', ''cqe_batch = 256'',
        ''sqpoll = '' @ (if mode \<noteq> 0 then ''true'' else ''false''),
        ''sqpoll_idle_ms = '' @ show_nat (if mode \<noteq> 0 then mode else 10),
        ''[metrics]'', ''listen = '' @ show_nat metrics_port, ''bind = '' @ quoted ''127.0.0.1'',
        ''[stats]'', ''interval = '' @ quoted ''1s'',
        ''[class.benchmark]'', ''match = ['' @ quoted ''127.0.0.1/32'' @ '']'',
        ''sendq = '' @ quoted ''1M'', ''recvq = '' @ quoted ''16K'', ''flood_exempt = true''])"

definition phase_config :: "string \<Rightarrow> nat \<Rightarrow> nat \<Rightarrow> bench_error + string" where
  "phase_config base mode metrics_port =
     (if count_sub base (''[limits]'' @ nl) \<noteq> 1 \<or>
         list_ex (contains_sub base) [''[io]'', ''[metrics]'', ''[stats]'', ''[class.'']
      then Inl (PhaseFailure ''generated bundle shape changed'')
      else if count_sub base (''[tls]'' @ nl) \<noteq> 1 \<or> contains_sub base ''ktls =''
      then Inl (PhaseFailure ''generated TLS template shape changed'')
      else
        let tls = replace1 (''[tls]'' @ nl) (''[tls]'' @ nl @ ''ktls = '' @ quoted ''off'' @ nl) base in
        Inr (replace1 (''[limits]'' @ nl)
               (''[limits]'' @ nl @ ''num_shards = 1'' @ nl @ ''sweep_interval = '' @ quoted ''2s'' @ nl) tls @
             phase_sections mode metrics_port))"

record cell =
  ce_tls :: string
  ce_shards :: nat
  ce_ring :: nat
  ce_cqe :: nat
  ce_sqpoll :: bool

definition write_config :: "nat \<Rightarrow> nat \<Rightarrow> cell \<Rightarrow> string" where
  "write_config irc_port tls_port ce =
     concat (map (\<lambda>l. l @ nl)
       ([''[node]'', ''id = 1'', ''[listen]'', ''host = '' @ quoted ''127.0.0.1'',
         ''irc = '' @ show_nat irc_port] @
        (if ce_tls ce \<noteq> ''off''
         then [''[tls]'', ''enabled = true'', ''port = '' @ show_nat tls_port,
               ''dns_name = '' @ quoted ''localhost'',
               ''ktls = '' @ quoted (if ce_tls ce = ''ktls'' then ''txrx'' else ''off'')]
         else []) @
        [''[limits]'', ''num_shards = '' @ show_nat (ce_shards ce), ''[io]'',
         ''ring_entries = '' @ show_nat (ce_ring ce), ''cqe_batch = '' @ show_nat (ce_cqe ce),
         ''sqpoll = '' @ (if ce_sqpoll ce then ''true'' else ''false'')]))"

section \<open>The legacy cells\<close>

text \<open>A reply is one result of \<open>recv\<close>: \<open>None\<close> for a timeout, the empty chunk at the end.\<close>

fun recv_until :: "string \<Rightarrow> string \<Rightarrow> string option list \<Rightarrow> string" where
  "recv_until buf needle [] = buf"
| "recv_until buf needle (r # rs) =
     (case r of
        None \<Rightarrow> buf
      | Some chunk \<Rightarrow>
          if chunk = [] then buf
          else if contains_sub (buf @ chunk) needle then buf @ chunk
          else recv_until (buf @ chunk) needle rs)"

text \<open>The lines \<open>register\<close> sends; the error drops the excerpt of the replies.\<close>

definition register_lines :: "string \<Rightarrow> string" where
  "register_lines nick = ''NICK '' @ nick @ CRLF @ ''USER '' @ nick @ '' 0 * :bench'' @ CRLF"

definition register :: "string \<Rightarrow> string option list \<Rightarrow> bench_error + string" where
  "register nick replies =
     (if contains_sub (recv_until [] '' 001 '' replies) '' 001 '' then Inr (register_lines nick)
      else Inl (RuntimeFailure (''no 001 for '' @ nick)))"

definition FORBIDDEN_PORTS :: "nat list" where
  "FORBIDDEN_PORTS = [6667, 6680, 6697, 8080]"

definition free_port :: "nat \<Rightarrow> bench_error + nat" where
  "free_port assigned =
     (if assigned \<in> set FORBIDDEN_PORTS
      then Inl (RuntimeFailure (''kernel handed forbidden port '' @ show_nat assigned))
      else Inr assigned)"

definition ktls_note :: "string option \<Rightarrow> string \<Rightarrow> string" where
  "ktls_note daemon_log tls_mode =
     (if tls_mode \<noteq> ''ktls'' then []
      else case daemon_log of
        None \<Rightarrow> []
      | Some t \<Rightarrow>
          if contains_sub t ''kTLS TX+RX offload ACTIVE'' \<or> contains_sub t ''kTLS TX offload ACTIVE''
          then ''ktls-active''
          else if contains_sub t ''no TLS ULP'' then ''ktls-fallback-userspace'' else ''ktls-unknown'')"

text \<open>\<open>/proc/<pid>/status\<close>: the lines of the file, \<open>None\<close> when it cannot be read. The result
  \<open>Inl\<close> is the exception of a malformed line.\<close>

fun rss_lines :: "string list \<Rightarrow> py_error + int option" where
  "rss_lines [] = Inr None"
| "rss_lines (l # ls) =
     (if startswith l ''VmRSS:''
      then (case split_ws byte_space l of
              _ # v # _ \<Rightarrow> (case byte_int v of Some n \<Rightarrow> Inr (Some n) | None \<Rightarrow> Inl (ValueError v))
            | _ \<Rightarrow> Inl IndexError)
      else rss_lines ls)"

definition rss_kib :: "string list option \<Rightarrow> py_error + int option" where
  "rss_kib status = (case status of None \<Rightarrow> Inr None | Some ls \<Rightarrow> rss_lines ls)"

definition keep_freebsd_section :: "string option \<Rightarrow> string \<Rightarrow> string" where
  "keep_freebsd_section old t =
     (case old of
        None \<Rightarrow> t
      | Some o' \<Rightarrow>
          (case find_sub o' (nl @ ''## FreeBSD'') of
             None \<Rightarrow> t
           | Some i \<Rightarrow> utf8 (str_rstrip (utf8_decode t)) @ nl @ drop (i + 1) o'))"

definition mk_cell :: "string \<Rightarrow> nat \<Rightarrow> nat \<Rightarrow> nat \<Rightarrow> bool \<Rightarrow> cell" where
  "mk_cell tls shards ring cqe sqpoll =
     \<lparr>ce_tls = tls, ce_shards = shards, ce_ring = ring, ce_cqe = cqe, ce_sqpoll = sqpoll\<rparr>"

record bench_args =
  ba_quick :: bool
  ba_gap_x4 :: bool
  ba_clients :: int
  ba_samples :: int
  ba_sqpoll_phases :: bool
  ba_phase_json :: "string option"
  ba_sha256 :: "string option"
  ba_pilot :: bool
  ba_repetitions :: int
  ba_modes :: "int list"

datatype bench_run = Matrix "cell list" int int | Phases | Exit nat

definition given :: "string option \<Rightarrow> bool" where
  "given x = (case x of Some s \<Rightarrow> s \<noteq> [] | None \<Rightarrow> False)"

definition gap_x4_cells :: "cell list" where
  "gap_x4_cells =
     concat (map (\<lambda>sqpoll. concat (map (\<lambda>tls. map (\<lambda>shards. mk_cell tls shards 32 256 sqpoll) [1, 4])
       [''off'', ''userspace''])) [False, True])"

definition default_cells :: "cell list" where
  "default_cells =
     [mk_cell ''off'' 1 32 256 False, mk_cell ''off'' 2 32 256 False, mk_cell ''off'' 1 128 256 False,
      mk_cell ''off'' 1 32 512 False, mk_cell ''userspace'' 1 32 256 False, mk_cell ''ktls'' 1 32 256 False]"

definition or_default :: "int \<Rightarrow> int \<Rightarrow> int" where
  "or_default n d = (if n \<noteq> 0 then n else d)"

text \<open>What \<open>main\<close> runs: the phases, or a matrix of cells with its clients and samples.\<close>

definition bench_plan :: "bool \<Rightarrow> bench_args \<Rightarrow> bench_error + bench_run" where
  "bench_plan binary_exists a =
     (if \<not> binary_exists then Inr (Exit 2)
      else if ba_sqpoll_phases a then
        (if ba_quick a \<or> ba_gap_x4 a
         then Inl (PhaseFailure ''retained phases and legacy benchmark matrices are separate profiles'')
         else Inr Phases)
      else if ba_pilot a \<or> given (ba_phase_json a) \<or> given (ba_sha256 a)
      then Inl (PhaseFailure ''phase options require --sqpoll-phases'')
      else if ba_quick a \<and> ba_gap_x4 a then Inr (Exit 2)
      else if ba_gap_x4 a then Inr (Matrix gap_x4_cells (or_default (ba_clients a) 4) (or_default (ba_samples a) 16))
      else if ba_quick a then
        Inr (Matrix [mk_cell ''off'' 1 32 256 False] (or_default (ba_clients a) 4) (or_default (ba_samples a) 8))
      else Inr (Matrix default_cells (or_default (ba_clients a) 8) (or_default (ba_samples a) 16)))"

text \<open>The exit code: \<open>rs\<close> has the TLS mode and the error text of each cell.\<close>

definition bench_exit :: "bool \<Rightarrow> (string \<times> string option) list \<Rightarrow> nat" where
  "bench_exit gap_x4 rs =
     (if list_ex (\<lambda>(tls, e). (gap_x4 \<or> tls = ''off'') \<and> given e) rs then 1 else 0)"

section \<open>The phase matrix\<close>

definition matrix_args_ok :: "string \<Rightarrow> bench_args \<Rightarrow> bench_error + unit" where
  "matrix_args_ok artifact a =
     (if \<not> given (ba_sha256 a) \<or> ba_sha256 a \<noteq> Some artifact
      then Inl (PhaseFailure ''explicit captured artifact SHA-256 mismatch'')
      else if \<not> given (ba_phase_json a) \<or> ba_repetitions a < 1 \<or> ba_modes a = [] \<or>
          \<not> distinct (ba_modes a) \<or> list_ex (\<lambda>m. m \<notin> {0, 10, 1000}) (ba_modes a)
      then Inl (PhaseFailure ''phase JSON, positive repetitions and valid modes required'')
      else Inr ())"

text \<open>The records of the measured cells: \<open>ok\<close> tells whether the cell of that repetition and mode
  succeeds. The first failure ends both loops.\<close>

fun modes_records :: "(int \<Rightarrow> bool) \<Rightarrow> int list \<Rightarrow> (int \<times> bool) list" where
  "modes_records ok [] = []"
| "modes_records ok (m # ms) = (m, ok m) # (if ok m then modes_records ok ms else [])"

fun matrix_records :: "(nat \<Rightarrow> int \<Rightarrow> bool) \<Rightarrow> int list \<Rightarrow> nat list \<Rightarrow> (nat \<times> int \<times> bool) list" where
  "matrix_records ok modes [] = []"
| "matrix_records ok modes (r # rs) =
     (let recs = modes_records (ok r) (if even r then modes else rev modes) in
      map (Pair r) recs @ (if list_all snd recs then matrix_records ok modes rs else []))"

text \<open>\<open>unchanged\<close>: the artifact and the credentials still have their digests at the end.\<close>

definition matrix_exit :: "(nat \<Rightarrow> int \<Rightarrow> bool) \<Rightarrow> bool \<Rightarrow> bench_args \<Rightarrow> bench_error + nat" where
  "matrix_exit ok unchanged a =
     (let recs = matrix_records ok (ba_modes a) [0..<nat (ba_repetitions a)] in
      if \<not> unchanged then Inl (PhaseFailure ''captured artifact or private credentials changed'')
      else if int (length recs) = ba_repetitions a * int (length (ba_modes a)) \<and> list_all (\<lambda>(_, _, b). b) recs
      then Inr 0 else Inr 1)"

section \<open>What the ledger guarantees\<close>























section \<open>What the framer guarantees\<close>

interpretation bench_lines: stream_framer "frame CRLF" "\<lambda>b. \<not> contains_sub b CRLF"
  by unfold_locales (use frame_laws [of CRLF] in \<open>simp_all add: CRLF_def\<close>)

fun line_feeds :: "string \<Rightarrow> string list \<Rightarrow> bench_error + (string \<times> string list)" where
  "line_feeds b [] = Inr (b, [])"
| "line_feeds b (x # xs) =
     bind_res (line_feed b x) (\<lambda>(b', ls). bind_res (line_feeds b' xs) (\<lambda>(b'', ls'). Inr (b'', ls @ ls')))"

lemma line_feed_frame:
  "line_feed b x = Inr (p, ls) \<Longrightarrow>
    frame CRLF b x = (p, ls) \<and> length p \<le> 16384 \<and> list_all (\<lambda>l. length l \<le> 16384) ls"
  by (auto simp: line_feed_def frame_def Let_def list_ex_iff list_all_iff not_less split: if_splits)

lemma line_feeds_frame:
  "line_feeds b xs = Inr (p, ls) \<Longrightarrow> length b \<le> 16384 \<Longrightarrow>
    feed_all (frame CRLF) b xs = (p, ls) \<and> length p \<le> 16384 \<and> list_all (\<lambda>l. length l \<le> 16384) ls"
proof (induction xs arbitrary: b ls)
  case (Cons x xs)
  then obtain b' l l' where l: "line_feed b x = Inr (b', l)" "line_feeds b' xs = Inr (p, l')" "ls = l @ l'"
    by auto
  from line_feed_frame [OF l(1)] Cons.IH [OF l(2)] l(3) show ?case by simp
qed auto

text \<open>When a client's input is framed without an error, the lines are the pieces of the whole input
  between line ends however the network cut it into chunks, joining them gives the input back,
  and no line is longer than 16384 bytes.\<close>

theorem framer_exact:
  assumes "line_feeds [] chunks = Inr (pending, ls)"
  shows "ls @ [pending] = split_sub CRLF (concat chunks) \<and> join CRLF (ls @ [pending]) = concat chunks \<and>
    list_all (\<lambda>l. length l \<le> 16384) (ls @ [pending])"
proof -
  have f: "feed_all (frame CRLF) [] chunks = (pending, ls)" "length pending \<le> 16384"
      "list_all (\<lambda>l. length l \<le> 16384) ls"
    using line_feeds_frame [OF assms] by auto
  have "\<not> contains_sub [] CRLF" by (simp add: contains_sub_def CRLF_def)
  from bench_lines.feed_all_concat [OF this, of chunks] f
  have "frame CRLF [] (concat chunks) = (pending, ls)" by simp
  then have s: "ls @ [pending] = split_sub CRLF (concat chunks)"
    by (auto simp: frame_def Let_def)
  moreover have "join CRLF (ls @ [pending]) = concat chunks"
    unfolding s by (rule join_split_sub) (simp add: CRLF_def)
  moreover have "list_all (\<lambda>l. length l \<le> 16384) (ls @ [pending])" using f by simp
  ultimately show ?thesis by blast
qed

theorem framer_exact_witness:
  "line_feeds [] [''PING'' @ [CHR 0x0D], CHR 0x0A # ''PO''] = Inr (''PO'', [''PING'']) \<and>
   [''PING''] @ [''PO''] = split_sub CRLF (concat [''PING'' @ [CHR 0x0D], CHR 0x0A # ''PO''])"
proof -
  have "line_feeds [] [''PING'' @ [CHR 0x0D], CHR 0x0A # ''PO''] = Inr (''PO'', [''PING''])" by code_simp
  with framer_exact [OF this] show ?thesis by blast
qed

section \<open>What the matrix guarantees\<close>

lemma modes_records_ok:
  "list_all snd (modes_records ok ms) \<longleftrightarrow> (\<forall>m \<in> set ms. ok m)"
  "list_all snd (modes_records ok ms) \<Longrightarrow> length (modes_records ok ms) = length ms"
  by (induction ms) auto

lemma matrix_records_ok:
  "(list_all (\<lambda>(_, _, b). b) (matrix_records ok ms rs) \<longleftrightarrow> (\<forall>r \<in> set rs. \<forall>m \<in> set ms. ok r m)) \<and>
   (list_all (\<lambda>(_, _, b). b) (matrix_records ok ms rs) \<longrightarrow> length (matrix_records ok ms rs) = length rs * length ms)"
proof (induction rs)
  case (Cons r rs)
  define recs where "recs = modes_records (ok r) (if even r then ms else rev ms)"
  have a: "list_all (\<lambda>(_, _, b). b) (map (Pair r) recs) \<longleftrightarrow> list_all snd recs"
    by (simp add: list_all_iff split_beta)
  have b: "list_all snd recs \<longleftrightarrow> (\<forall>m \<in> set ms. ok r m)"
    and c: "list_all snd recs \<Longrightarrow> length recs = length ms"
    using modes_records_ok [of "ok r" "if even r then ms else rev ms"] by (auto simp: recs_def)
  have e: "matrix_records ok ms (r # rs) =
      map (Pair r) recs @ (if list_all snd recs then matrix_records ok ms rs else [])"
    by (simp add: recs_def Let_def)
  show ?case
  proof (cases "list_all snd recs")
    case True
    then show ?thesis using Cons.IH a b c by (simp add: e del: matrix_records.simps)
  next
    case False
    then show ?thesis using a b by (auto simp: e simp del: matrix_records.simps)
  qed
qed simp

text \<open>With accepted arguments the phase matrix exits with 0 exactly when every mode succeeded in every
  repetition and the artifact and the credentials are unchanged. A failing cell ends the
  measurement, and a shortened run never counts as a success.\<close>

theorem matrix_exit_zero:
  assumes "matrix_args_ok artifact a = Inr ()"
  shows "matrix_exit ok unchanged a = Inr 0 \<longleftrightarrow>
    unchanged \<and> (\<forall>r < nat (ba_repetitions a). \<forall>m \<in> set (ba_modes a). ok r m)"
proof -
  have "ba_repetitions a \<ge> 1" using assms by (auto simp: matrix_args_ok_def split: if_splits)
  with matrix_records_ok [of ok "ba_modes a" "[0..<nat (ba_repetitions a)]"]
  show ?thesis by (auto simp: matrix_exit_def Let_def)
qed

definition sample_bench_args :: bench_args where
  "sample_bench_args =
     \<lparr>ba_quick = False, ba_gap_x4 = False, ba_clients = 0, ba_samples = 0, ba_sqpoll_phases = True,
      ba_phase_json = Some ''p.json'', ba_sha256 = Some ''ab'', ba_pilot = True, ba_repetitions = 2,
      ba_modes = [0, 10]\<rparr>"

theorem matrix_exit_zero_witness:
  "matrix_args_ok ''ab'' sample_bench_args = Inr () \<and>
   matrix_exit (\<lambda>_ _. True) True sample_bench_args = Inr 0 \<and>
   matrix_exit (\<lambda>r m. r = 0 \<or> m = 0) True sample_bench_args \<noteq> Inr 0"
proof -
  have a: "matrix_args_ok ''ab'' sample_bench_args = Inr ()" by code_simp
  have "\<not> (\<forall>r < nat (ba_repetitions sample_bench_args). \<forall>m \<in> set (ba_modes sample_bench_args). r = 0 \<or> m = 0)"
    by (auto simp: sample_bench_args_def intro!: exI [of _ 1])
  with a matrix_exit_zero [OF a] show ?thesis by simp
qed

end
