(* ===== verification/Alpine_Driver.thy ===== *)
theory Alpine_Driver
  imports PyRegex PyText
begin

text \<open>
  \<open>tools/alpine_package/driver.py\<close>: what the host accepts from the disposable Alpine guest. The
  model covers the receipts on the serial console (captured logs, diagnostics, Helix
  observations, profiles), the correspondence between them, and the console loop as a function
  from the guest state and a chunk of output. A receipt is a line of words separated by single
  spaces; a field's pattern is a predicate on the word. \<open>sha256\<close> (hex) is an argument, the
  capture directory is a map from file names to contents.
\<close>

section \<open>Words and fields\<close>

datatype driver_error = Guest string | HostError

definition drop_cr :: "string \<Rightarrow> string" where
  "drop_cr s = (if s \<noteq> [] \<and> last s = CHR 0x0D then butlast s else s)"

definition fields_of :: "(string \<Rightarrow> bool) list \<Rightarrow> string \<Rightarrow> string list option" where
  "fields_of ps line =
     (let fs = split_sub '' '' line in
      if length fs = length ps \<and> list_all (\<lambda>(P, f). P f) (zip ps fs) then Some fs else None)"

definition word_in :: "string list \<Rightarrow> string \<Rightarrow> bool" where
  "word_in ws w = (w \<in> set ws)"


definition b64_field :: "nat \<Rightarrow> string \<Rightarrow> bool" where
  "b64_field n w = (length w \<le> n \<and> list_all (\<lambda>c. b64_val c \<noteq> None \<or> c = CHR ''='') w)"


definition phases :: "string list" where
  "phases = [''runtime_denied'', ''initial'', ''missing_before'', ''missing_after'', ''postupgrade'',
     ''mode_file'', ''mode_inline'', ''mode_env'', ''mode_ref'', ''cleanup'']"


section \<open>Files\<close>

record file_info =
  fi_regular :: bool
  fi_nlink :: nat
  fi_size :: nat
  fi_uid :: nat

definition MAX_SIZE :: nat where
  "MAX_SIZE = 512 * 1024 * 1024"

definition regular :: "nat option \<Rightarrow> nat \<Rightarrow> file_info \<Rightarrow> driver_error + file_info" where
  "regular owner bound info =
     (if \<not> fi_regular info \<or> fi_nlink info \<noteq> 1 \<or> fi_size info = 0 \<or> fi_size info > bound
      then Inl (Guest ''invalid_regular_file'')
      else case owner of
        Some uid \<Rightarrow> if fi_uid info \<noteq> uid then Inl (Guest ''invalid_file_owner'') else Inr info
      | None \<Rightarrow> Inr info)"

section \<open>Captured logs\<close>

record capture =
  cp_bytes :: nat
  cp_sha256 :: string
  cp_identity :: "string option"

definition STRICT_IDENTITY_BANNER :: string where
  "STRICT_IDENTITY_BANNER = ''onyx-server: strict service identity source: existing_keyfile''"

definition classify_identity :: "string \<Rightarrow> string" where
  "classify_identity data =
     (if contains_sub data ''node identity generated + persisted to '' then ''generated''
      else if count_list (byte_splitlines data) STRICT_IDENTITY_BANNER = 1 then ''strict_validated'' else ''other'')"

definition service_frame :: "string \<Rightarrow> (string \<times> string \<times> string) option" where
  "service_frame line =
     (case fields_of [\<lambda>w. w = ''ONYX_PRIVATE_SERVICE'', word_in (phases @ [''identity'']),
         word_in [''start'', ''status'', ''stop'', ''probe''], b64_field 87384] (drop_cr line) of
        Some [_, phase, operation, encoded] \<Rightarrow> Some (phase, operation, encoded)
      | _ \<Rightarrow> None)"


text \<open>The transferred bytes: canonical base64 of at most 65536 bytes.\<close>

definition transfer :: "string \<Rightarrow> driver_error + string" where
  "transfer encoded =
     (case b64decode encoded of
        None \<Rightarrow> Inl (Guest ''service_transfer_invalid'')
      | Some data \<Rightarrow>
          if length data > 65536 \<or> b64encode data \<noteq> encoded then Inl (Guest ''service_transfer_invalid'')
          else Inr data)"

text \<open>\<open>O_CREAT | O_EXCL\<close>: a name that exists is an error of the host. The file it creates is a
  regular file of the caller with one link.\<close>

definition create_file :: "(string \<rightharpoonup> string) \<Rightarrow> string \<Rightarrow> string \<Rightarrow> driver_error + (string \<rightharpoonup> string)" where
  "create_file dir name data = (if dir name \<noteq> None then Inl HostError else Inr (dir(name \<mapsto> data)))"

type_synonym service_captures = "((string \<times> string) \<times> capture) list"

definition capture_service ::
  "(string \<Rightarrow> string) \<Rightarrow> string \<Rightarrow> (string \<rightharpoonup> string) \<times> service_captures \<Rightarrow>
     driver_error + ((string \<rightharpoonup> string) \<times> service_captures)" where
  "capture_service sha256 line st =
     (case st of (dir, captures) \<Rightarrow>
      case service_frame line of
        None \<Rightarrow> Inl (Guest ''service_transfer_invalid'')
      | Some (phase, operation, encoded) \<Rightarrow>
          if (phase = ''identity'') \<noteq> (operation = ''probe'') then Inl (Guest ''service_transfer_invalid'')
          else if (phase, operation) \<in> fst ` set captures \<or> length captures \<ge> 32
          then Inl (Guest ''service_transfer_invalid'')
          else
            bind_res (transfer encoded) (\<lambda>data.
            bind_res (create_file dir (phase @ ''.'' @ operation @ ''.log'') data) (\<lambda>dir'.
            Inr (dir', captures @ [((phase, operation),
              \<lparr>cp_bytes = length data, cp_sha256 = sha256 data,
               cp_identity = (if phase = ''identity'' then Some (classify_identity data) else None)\<rparr>)]))))"


section \<open>Helix observations\<close>







section \<open>Diagnostics\<close>


















section \<open>The console\<close>




























text \<open>The result after the cleanup: \<open>inputs_ok\<close> when all input digests are still the pinned ones.\<close>

definition final_result :: "bool \<Rightarrow> bool \<Rightarrow> string \<Rightarrow> string" where
  "final_result inputs_ok cleanup_ok r =
     (if \<not> cleanup_ok then ''cleanup_failed'' else if \<not> inputs_ok then ''input_changed'' else r)"

section \<open>Accepted runs\<close>
























section \<open>Transferred logs\<close>

lemma b64_enc_chars:
  "\<forall>b \<in> set bs. b < 256 \<Longrightarrow> c \<in> set (b64_enc bs) \<Longrightarrow> b64_val c \<noteq> None \<or> c = CHR ''=''"
  by (induction bs rule: b64_enc.induct) (auto simp: b64_val_char)

lemma b64_field_encode: "length data \<le> 65536 \<Longrightarrow> b64_field 87384 (b64encode data)"
proof -
  assume "length data \<le> 65536"
  then have "length (b64encode data) \<le> 87384" by (simp add: b64encode_def b64_enc_length)
  moreover have "\<forall>b \<in> set (map of_char data). b < (256 :: nat)" by simp
  ultimately show ?thesis
    using b64_enc_chars [of "map of_char data"] by (auto simp: b64_field_def b64encode_def list_all_iff)
qed

lemma b64_field_word: "b64_field n w \<Longrightarrow> CHR '' '' \<notin> set w \<and> CHR 0x0D \<notin> set w"
  by (auto simp: b64_field_def list_all_iff b64_val_def)

lemma transfer_encode: "length data \<le> 65536 \<Longrightarrow> transfer (b64encode data) = Inr data"
  by (simp add: transfer_def b64_decode_encode)

lemma phase_word: "phase \<in> set (phases @ [''identity'']) \<Longrightarrow> CHR '' '' \<notin> set phase"
  by (auto simp: phases_def)

definition send_service :: "string \<Rightarrow> string \<Rightarrow> string \<Rightarrow> string" where
  "send_service phase operation data =
     join '' '' [''ONYX_PRIVATE_SERVICE'', phase, operation, b64encode data] @ [CHR 0x0D]"

lemma service_frame_send:
  assumes "phase \<in> set (phases @ [''identity''])" "operation \<in> set [''start'', ''status'', ''stop'', ''probe'']"
    "length data \<le> 65536"
  shows "service_frame (send_service phase operation data) = Some (phase, operation, b64encode data)"
proof -
  have "split_sub '' '' (join '' '' [''ONYX_PRIVATE_SERVICE'', phase, operation, b64encode data]) =
      [''ONYX_PRIVATE_SERVICE'', phase, operation, b64encode data]"
    using assms(2) phase_word [OF assms(1)] b64_field_word [OF b64_field_encode [OF assms(3)]]
    by (intro split_sub_join_char) auto
  then show ?thesis
    using assms b64_field_encode [OF assms(3)]
    by (simp add: service_frame_def send_service_def drop_cr_def fields_of_def word_in_def del: join.simps)
qed

text \<open>Every log of at most 65536 bytes survives the transfer: the frame that carries it as base64 is
  accepted, the file has exactly its bytes, and the capture records its size and digest. The
  bound of 87384 characters in the frame's pattern is enough for all of them.\<close>

theorem service_log_roundtrip:
  assumes "phase \<in> set (phases @ [''identity''])" "operation \<in> set [''start'', ''status'', ''stop'', ''probe'']"
    "phase = ''identity'' \<longleftrightarrow> operation = ''probe''" "length data \<le> 65536"
    "(phase, operation) \<notin> fst ` set captures" "length captures < 32" "dir (phase @ ''.'' @ operation @ ''.log'') = None"
  shows "\<exists>c. capture_service sha256 (send_service phase operation data) (dir, captures) =
      Inr (dir(phase @ ''.'' @ operation @ ''.log'' \<mapsto> data), captures @ [((phase, operation), c)]) \<and>
    cp_bytes c = length data \<and> cp_sha256 c = sha256 data"
  using assms service_frame_send [OF assms(1,2,4)] transfer_encode [OF assms(4)]
  by (simp add: capture_service_def create_file_def bind_res_def)

theorem service_log_roundtrip_witness:
  "\<exists>c. capture_service (\<lambda>_. ''00'') (send_service ''initial'' ''start'' ''ok'') (Map.empty, []) =
      Inr (Map.empty(''initial.start.log'' \<mapsto> ''ok''), [((''initial'', ''start''), c)]) \<and>
    cp_bytes c = length ''ok'' \<and> cp_sha256 c = ''00''"
  using service_log_roundtrip [of "''initial''" "''start''" "''ok''" "[]" Map.empty "\<lambda>_. ''00''"]
  by (simp add: phases_def)

end
