(* ===== verification/Review_Stub.thy ===== *)
theory Review_Stub
  imports PyRegex PyText
begin

text \<open>
  \<open>claude_review_stub.py\<close>: the stand-in for the reviewer's command line that the snapshot
  regression test runs. It checks the launcher's arguments and the manifest, and answers with one
  anchor per scoped file. What it reads is a \<open>stub_world\<close>; \<open>sw_released\<close> says that the hold
  file is gone in time, \<open>sw_dumps\<close> is \<open>json.dumps\<close>. The ready file it writes is left out.
\<close>

datatype stub_error = SystemExit string | Py py_error

definition REQUIRED_SWITCHES :: "string list" where
  "REQUIRED_SWITCHES = [''--strict-mcp-config'', ''--disable-slash-commands'', ''--no-chrome'',
     ''--no-session-persistence'']"

definition EXPECTED_OPTIONS :: "(string \<times> string) list" where
  "EXPECTED_OPTIONS = [
     (''--agent'', ''onyx-fast-auditor''), (''--model'', ''claude-haiku-4-5-20251001''), (''--effort'', ''low''),
     (''--max-budget-usd'', ''0.75''), (''--setting-sources'', ''project,local''), (''--output-format'', ''json'')]"

definition REQUIRED_SCHEMA_KEYS :: "string list" where
  "REQUIRED_SCHEMA_KEYS = [''review_nonce'', ''verdict'', ''summary'', ''reviewed_files'', ''findings'']"

fun option_value :: "string list \<Rightarrow> string \<Rightarrow> stub_error + string" where
  "option_value [] option = Inl (Py (ValueError (''missing option '' @ option)))"
| "option_value (a # args) option =
     (if a = option then (case args of [] \<Rightarrow> Inl (Py IndexError) | v # _ \<Rightarrow> Inr v)
      else if startswith a (option @ ''='') then Inr (drop (length option + 1) a)
      else option_value args option)"

text \<open>\<open>set(v)\<close> of a JSON value: unhashable elements raise \<open>TypeError\<close>.\<close>

definition json_set :: "json \<Rightarrow> stub_error + json set" where
  "json_set v =
     (case py_iter v of
        Inl e \<Rightarrow> Inl (Py e)
      | Inr xs \<Rightarrow> if list_ex (\<lambda>x. is_list x \<or> is_obj x) xs then Inl (Py TypeError) else Inr (set xs))"

definition stub_get :: "json \<Rightarrow> string \<Rightarrow> json \<Rightarrow> stub_error + json" where
  "stub_get v k d = (case py_get v k d of Inl e \<Rightarrow> Inl (Py e) | Inr x \<Rightarrow> Inr x)"

definition load_option :: "(string \<Rightarrow> json option) \<Rightarrow> string list \<Rightarrow> string \<Rightarrow> stub_error + json" where
  "load_option loads args option =
     bind_res (option_value args option) (\<lambda>t.
     case loads t of None \<Rightarrow> Inl (Py (ValueError t)) | Some j \<Rightarrow> Inr j)"

fun check_options :: "string list \<Rightarrow> (string \<times> string) list \<Rightarrow> stub_error + unit" where
  "check_options args [] = Inr ()"
| "check_options args ((option, expected) # os) =
     bind_res (option_value args option) (\<lambda>v.
     if v \<noteq> expected then Inl (SystemExit (''unexpected '' @ option @ '' value'')) else check_options args os)"

definition tools_after :: "string list \<Rightarrow> stub_error + string list" where
  "tools_after args =
     (case dropWhile (\<lambda>a. a \<noteq> ''--tools'') args of
        [] \<Rightarrow> Inl (Py (ValueError ''--tools''))
      | _ # ts \<Rightarrow> Inr ts)"

definition schema_ok :: "json \<Rightarrow> stub_error + bool" where
  "schema_ok schema =
     bind_res (stub_get schema ''additionalProperties'' JNull) (\<lambda>additional.
     if additional \<noteq> JBool False then Inr False
     else bind_res (stub_get schema ''required'' (JList [])) (\<lambda>required.
       bind_res (json_set required) (\<lambda>keys. Inr (keys = set (map JStr REQUIRED_SCHEMA_KEYS)))))"

definition validate_launcher_args :: "(string \<Rightarrow> json option) \<Rightarrow> string list \<Rightarrow> stub_error + unit" where
  "validate_launcher_args loads args =
     bind_res (option_value args ''--permission-mode'') (\<lambda>mode.
     bind_res (require_res (mode = ''dontAsk'') (SystemExit ''launcher did not select dontAsk'')) (\<lambda>_.
     bind_res (tools_after args) (\<lambda>tools.
     bind_res (require_res (set tools = {''Read'', ''StructuredOutput''})
         (SystemExit ''launcher exposed tools other than Read and StructuredOutput'')) (\<lambda>_.
     bind_res (require_res (set REQUIRED_SWITCHES \<subseteq> set args)
         (SystemExit ''launcher omitted a safety-critical switch'')) (\<lambda>_.
     bind_res (check_options args EXPECTED_OPTIONS) (\<lambda>_.
     bind_res (load_option loads args ''--mcp-config'') (\<lambda>mcp.
     bind_res (require_res (json_eq mcp (JObj [(''mcpServers'', JObj [])]))
         (SystemExit ''launcher did not disable MCP servers'')) (\<lambda>_.
     bind_res (load_option loads args ''--json-schema'') (\<lambda>schema.
     bind_res (schema_ok schema) (\<lambda>ok.
     require_res ok (SystemExit ''launcher JSON schema is missing mandatory structure'')))))))))))"

section \<open>The manifest\<close>

definition str_path :: "path \<Rightarrow> string" where
  "str_path p = (if pt_root p = [] \<and> pt_parts p = [] then ''.'' else pt_root p @ join ''/'' (pt_parts p))"

definition nonce_of :: "string \<Rightarrow> string option" where
  "nonce_of prompt =
     map_option (\<lambda>g. grp g 1)
       (re_search (Seq (lit ''Review nonce: '') (Cap 1 (times (Chr is_hex_lower) 64))) prompt)"

definition scope_marker :: string where
  "scope_marker = ''Exact review scope (path, snapshot line count, snapshot SHA-256):'' @ [CHR 0x0A]"

definition manifest_lines :: "string \<Rightarrow> stub_error + string list" where
  "manifest_lines prompt =
     (case split1 scope_marker prompt of
        [_, rest] \<Rightarrow> Inr (str_lines (hd (split1 [CHR 0x0A, CHR 0x0A] rest)))
      | _ \<Rightarrow> Inl (Py IndexError))"

definition manifest_file :: "string \<Rightarrow> string" where
  "manifest_file line = hd (split1 [CHR 0x09] line)"

text \<open>The fields after the file name; one without an equals sign raises \<open>ValueError\<close>.\<close>

fun manifest_fields :: "(string \<rightharpoonup> string) \<Rightarrow> string list \<Rightarrow> stub_error + (string \<rightharpoonup> string)" where
  "manifest_fields m [] = Inr m"
| "manifest_fields m (f # fs) =
     (case split1 ''='' f of
        [k, v] \<Rightarrow> manifest_fields (m(k \<mapsto> v)) fs
      | _ \<Rightarrow> Inl (Py (ValueError f)))"

fun check_manifest :: "path \<Rightarrow> string list \<Rightarrow> stub_error + unit" where
  "check_manifest cwd [] = Inr ()"
| "check_manifest cwd (l # ls) =
     bind_res (manifest_fields Map.empty (tl (split_sub [CHR 0x09] l))) (\<lambda>m.
     if m ''read_path'' \<noteq> Some (str_path (path_div cwd (path_of (manifest_file l))))
     then Inl (SystemExit ''manifest read_path does not name the snapshot file'')
     else check_manifest cwd ls)"

definition read_rules :: "path \<Rightarrow> string list \<Rightarrow> string list" where
  "read_rules cwd files =
     [''StructuredOutput''] @ map (\<lambda>f. ''Read(/'' @ f @ '')'') files @
     map (\<lambda>f. ''Read(/'' @ str_path cwd @ ''/'' @ f @ '')'') files"

definition check_settings :: "path \<Rightarrow> string list \<Rightarrow> json \<Rightarrow> stub_error + unit" where
  "check_settings cwd files settings =
     bind_res (stub_get settings ''permissions'' (JObj [])) (\<lambda>perms.
     bind_res (stub_get perms ''defaultMode'' JNull) (\<lambda>mode.
     bind_res (require_res (mode = JStr ''dontAsk'')
         (SystemExit ''settings did not lock the default permission mode'')) (\<lambda>_.
     bind_res (stub_get perms ''allow'' (JList [])) (\<lambda>allow.
     bind_res (json_set allow) (\<lambda>allowed.
     require_res (allowed = set (map JStr (read_rules cwd files))) (SystemExit ''unexpected Read rules''))))))"

section \<open>The review\<close>

record stub_world =
  sw_cwd :: path
  sw_loads :: "string \<Rightarrow> json option"
  sw_dumps :: "json \<Rightarrow> string"
  sw_env :: "string \<rightharpoonup> string"
  sw_released :: bool
  sw_agents :: "(string \<times> string) list"
  sw_read :: "string \<Rightarrow> string option"

definition read_source :: "stub_world \<Rightarrow> string \<Rightarrow> stub_error + pystr" where
  "read_source w f =
     (case sw_read w f of
        None \<Rightarrow> Inl (Py (OSError f))
      | Some raw \<Rightarrow> (case text_of raw of None \<Rightarrow> Inl (Py (ValueError f)) | Some t \<Rightarrow> Inr t))"

text \<open>The first line with text: its number, and the line.\<close>

definition first_anchor :: "pystr list \<Rightarrow> (nat \<times> pystr) option" where
  "first_anchor ls = find (\<lambda>(n, l). str_strip l \<noteq> []) (enumerate 1 ls)"

record reviewed =
  rv_file :: string
  rv_line :: nat
  rv_anchor :: pystr

fun review_files :: "stub_world \<Rightarrow> string list \<Rightarrow> stub_error + (reviewed \<times> string) list" where
  "review_files w [] = Inr []"
| "review_files w (f # fs) =
     bind_res (read_source w f) (\<lambda>t.
     case first_anchor (str_splitlines t) of
       None \<Rightarrow> Inl (SystemExit (''scoped file has no anchor: '' @ f))
     | Some (n, l) \<Rightarrow>
         bind_res (review_files w fs) (\<lambda>rs.
         Inr ((\<lparr>rv_file = f, rv_line = n, rv_anchor = take 160 (str_strip l)\<rparr>, f @ ''='' @ utf8 l) # rs)))"

fun agent_lines :: "(string \<times> string) list \<Rightarrow> stub_error + string list" where
  "agent_lines [] = Inr []"
| "agent_lines ((f, raw) # fs) =
     (case text_of raw of
        None \<Rightarrow> Inl (Py (ValueError f))
      | Some t \<Rightarrow>
          bind_res (agent_lines fs) (\<lambda>ls.
          Inr ((''agent='' @ utf8 (map (\<lambda>c. if c = 10 then 124 else c) t)) # ls)))"

definition reviewed_json :: "reviewed \<Rightarrow> json" where
  "reviewed_json r =
     JObj [(''file'', JStr (rv_file r)), (''line'', JInt (int (rv_line r))), (''anchor'', JStr (utf8 (rv_anchor r)))]"

definition structured :: "string \<Rightarrow> reviewed list \<Rightarrow> json" where
  "structured nonce rs =
     JObj [(''review_nonce'', JStr nonce), (''verdict'', JStr ''pass''),
       (''summary'', JStr ''Snapshot-isolated stub review completed successfully.''),
       (''reviewed_files'', JList (map reviewed_json rs)), (''findings'', JList [])]"

record stub_output =
  so_observed :: string
  so_result :: json
  so_reviewed :: "reviewed list"

definition stub_env :: "stub_world \<Rightarrow> stub_error + unit" where
  "stub_env w =
     (case find (\<lambda>k. sw_env w k = None) [''CLAUDE_STUB_READY'', ''CLAUDE_STUB_HOLD'', ''CLAUDE_STUB_OBSERVED''] of
        Some k \<Rightarrow> Inl (Py (KeyError k))
      | None \<Rightarrow> Inr ())"

definition stub_result :: "stub_world \<Rightarrow> string \<Rightarrow> reviewed list \<Rightarrow> json" where
  "stub_result w nonce rs =
     (if sw_env w ''CLAUDE_STUB_RESULT_MODE'' = Some ''fenced''
      then JObj [(''is_error'', JBool False), (''structured_output'', JNull),
        (''result'', JStr (''```json'' @ [CHR 0x0A] @ sw_dumps w (structured nonce rs) @ [CHR 0x0A] @ ''```''))]
      else JObj [(''is_error'', JBool False), (''structured_output'', structured nonce rs)])"

definition stub_main :: "stub_world \<Rightarrow> string list \<Rightarrow> stub_error + stub_output" where
  "stub_main w args =
     bind_res (validate_launcher_args (sw_loads w) args) (\<lambda>_.
     bind_res (option_value args ''-p'') (\<lambda>prompt.
     case nonce_of prompt of
       None \<Rightarrow> Inl (SystemExit ''review nonce missing'')
     | Some nonce \<Rightarrow>
         bind_res (manifest_lines prompt) (\<lambda>ls.
         let files = map manifest_file ls in
         bind_res (check_manifest (sw_cwd w) ls) (\<lambda>_.
         bind_res (load_option (sw_loads w) args ''--settings'') (\<lambda>settings.
         bind_res (check_settings (sw_cwd w) files settings) (\<lambda>_.
         bind_res (stub_env w) (\<lambda>_.
         bind_res (require_res (sw_released w) (SystemExit ''test did not release stub'')) (\<lambda>_.
         bind_res (agent_lines (sort_key fst (sw_agents w))) (\<lambda>agents.
         bind_res (review_files w files) (\<lambda>rs.
         Inr \<lparr>so_observed = join [CHR 0x0A] ([''cwd='' @ str_path (sw_cwd w)] @ agents @ map snd rs) @ [CHR 0x0A],
              so_result = stub_result w nonce (map fst rs), so_reviewed = map fst rs\<rparr>))))))))))"

section \<open>What an answer means\<close>

definition anchored :: "stub_world \<Rightarrow> reviewed \<Rightarrow> bool" where
  "anchored w r \<longleftrightarrow>
     (\<exists>t i. read_source w (rv_file r) = Inr t \<and> rv_line r = i + 1 \<and> i < length (str_splitlines t) \<and>
        rv_anchor r = take 160 (str_strip (str_splitlines t ! i)) \<and> rv_anchor r \<noteq> [] \<and>
        (\<forall>j < i. str_strip (str_splitlines t ! j) = []))"

lemma first_anchor_Some:
  assumes "first_anchor ls = Some (n, l)"
  shows "\<exists>i. n = i + 1 \<and> i < length ls \<and> l = ls ! i \<and> str_strip l \<noteq> [] \<and> (\<forall>j < i. str_strip (ls ! j) = [])"
proof -
  from assms obtain i where i: "i < length (enumerate 1 ls)" "(n, l) = enumerate 1 ls ! i" "str_strip l \<noteq> []"
    "\<forall>j < i. \<not> (case enumerate 1 ls ! j of (n, l) \<Rightarrow> str_strip l \<noteq> [])"
    unfolding first_anchor_def find_Some_iff by auto
  then show ?thesis by (intro exI [of _ i]) (auto simp: nth_enumerate_eq)
qed

lemma review_files_ok:
  "review_files w fs = Inr rs \<Longrightarrow> map (rv_file \<circ> fst) rs = fs \<and> (\<forall>x \<in> set rs. anchored w (fst x))"
proof (induction fs arbitrary: rs)
  case (Cons f fs)
  then obtain t where t: "read_source w f = Inr t" by auto
  then obtain n l where a: "first_anchor (str_splitlines t) = Some (n, l)"
    using Cons.prems by (cases "first_anchor (str_splitlines t)") auto
  with Cons.prems t obtain rs' where r: "review_files w fs = Inr rs'"
    "rs = (\<lparr>rv_file = f, rv_line = n, rv_anchor = take 160 (str_strip l)\<rparr>, f @ ''='' @ utf8 l) # rs'"
    by auto
  from first_anchor_Some [OF a] t
  have "anchored w \<lparr>rv_file = f, rv_line = n, rv_anchor = take 160 (str_strip l)\<rparr>"
    by (auto simp: anchored_def)
  with Cons.IH [OF r(1)] r(2) show ?case by simp
qed simp

text \<open>The stub answers only when the launcher locked the review down: the permission mode is
  \<open>dontAsk\<close>, the tools are exactly \<open>Read\<close> and \<open>StructuredOutput\<close>, and the allowed rules
  are exactly the reads of the manifest's files. Its answer has one entry per file of the
  manifest, in order, and each entry's line is the file's first line with text and its anchor the
  beginning of that line.\<close>

theorem stub_answer_sound:
  assumes "stub_main w args = Inr out"
  shows "option_value args ''--permission-mode'' = Inr ''dontAsk'' \<and>
    (\<exists>tools. tools_after args = Inr tools \<and> set tools = {''Read'', ''StructuredOutput''}) \<and>
    (\<exists>prompt ls settings perms allow. option_value args ''-p'' = Inr prompt \<and> manifest_lines prompt = Inr ls \<and>
       load_option (sw_loads w) args ''--settings'' = Inr settings \<and>
       stub_get settings ''permissions'' (JObj []) = Inr perms \<and> stub_get perms ''allow'' (JList []) = Inr allow \<and>
       json_set allow = Inr (set (map JStr (read_rules (sw_cwd w) (map manifest_file ls)))) \<and>
       map rv_file (so_reviewed out) = map manifest_file ls) \<and>
    list_all (anchored w) (so_reviewed out)"
proof -
  have v: "validate_launcher_args (sw_loads w) args = Inr ()"
    using assms by (auto simp: stub_main_def)
  obtain prompt nonce where p: "option_value args ''-p'' = Inr prompt" "nonce_of prompt = Some nonce"
    using assms by (auto simp: stub_main_def split: option.splits)
  obtain ls settings rs where m: "manifest_lines prompt = Inr ls"
    "load_option (sw_loads w) args ''--settings'' = Inr settings"
    "check_settings (sw_cwd w) (map manifest_file ls) settings = Inr ()"
    "review_files w (map manifest_file ls) = Inr rs" "so_reviewed out = map fst rs"
    using assms p v by (auto simp: stub_main_def Let_def)
  have "map rv_file (so_reviewed out) = map manifest_file ls" "list_all (anchored w) (so_reviewed out)"
    using review_files_ok [OF m(4)] m(5) by (auto simp: list_all_iff)
  moreover have "option_value args ''--permission-mode'' = Inr ''dontAsk''"
    and "\<exists>tools. tools_after args = Inr tools \<and> set tools = {''Read'', ''StructuredOutput''}"
    using v by (auto simp: validate_launcher_args_def)
  ultimately show ?thesis
    using p(1) m(1,2,3) by (auto simp: check_settings_def)
qed

definition stub_sample_args :: "string list" where
  "stub_sample_args =
     [''-p'', ''Review nonce: '' @ replicate 64 (CHR ''a'') @ [CHR 0x0A] @ scope_marker @ ''a.zig'' @ [CHR 0x09] @
        ''read_path=/w/a.zig'' @ [CHR 0x0A, CHR 0x0A],
      ''--permission-mode=dontAsk'', ''--settings=S'', ''--mcp-config=M'', ''--json-schema=J''] @
     map (\<lambda>(k, v). k @ ''='' @ v) EXPECTED_OPTIONS @ REQUIRED_SWITCHES @ [''--tools'', ''Read'', ''StructuredOutput'']"

definition stub_sample_world :: stub_world where
  "stub_sample_world =
     \<lparr>sw_cwd = path_of ''/w'',
      sw_loads = (\<lambda>t.
        if t = ''M'' then Some (JObj [(''mcpServers'', JObj [])])
        else if t = ''J'' then Some (JObj [(''additionalProperties'', JBool False),
          (''required'', JList (map JStr REQUIRED_SCHEMA_KEYS))])
        else if t = ''S'' then Some (JObj [(''permissions'', JObj [(''defaultMode'', JStr ''dontAsk''),
          (''allow'', JList (map JStr [''StructuredOutput'', ''Read(/a.zig)'', ''Read(//w/a.zig)'']))])])
        else None),
      sw_dumps = (\<lambda>_. []),
      sw_env = [''CLAUDE_STUB_READY'' \<mapsto> ''r'', ''CLAUDE_STUB_HOLD'' \<mapsto> ''h'', ''CLAUDE_STUB_OBSERVED'' \<mapsto> ''o''],
      sw_released = True, sw_agents = [], sw_read = (\<lambda>f. if f = ''a.zig'' then Some ([CHR 0x0A] @ ''const x;'') else None)\<rparr>"

lemma stub_sample: "case stub_main stub_sample_world stub_sample_args of
    Inr out \<Rightarrow> so_reviewed out = [\<lparr>rv_file = ''a.zig'', rv_line = 2, rv_anchor = u ''const x;''\<rparr>] | Inl _ \<Rightarrow> False"
  by code_simp

theorem stub_answer_sound_witness:
  "\<exists>out. stub_main stub_sample_world stub_sample_args = Inr out \<and>
     so_reviewed out = [\<lparr>rv_file = ''a.zig'', rv_line = 2, rv_anchor = u ''const x;''\<rparr>] \<and>
     list_all (anchored stub_sample_world) (so_reviewed out)"
proof -
  obtain out where o: "stub_main stub_sample_world stub_sample_args = Inr out"
      "so_reviewed out = [\<lparr>rv_file = ''a.zig'', rv_line = 2, rv_anchor = u ''const x;''\<rparr>]"
    using stub_sample by (cases "stub_main stub_sample_world stub_sample_args") auto
  from stub_answer_sound [OF o(1)] o show ?thesis by blast
qed

end
