(* ===== verification/Mesh_Chat.thy ===== *)
theory Mesh_Chat
  imports Bot_Core
begin

text \<open>
  The dual-node chat smoke test, \<open>src/tools/mesh_chat_smoke.py\<close>: two IRC clients register on
  two nodes of the mesh, join one channel and exchange a message in each direction.

  A client (class \<open>IrcClient\<close>) is the record \<open>chat\<close>; \<open>ch_wire\<close> collects the lines its socket
  accepted. Sending and handling may raise, so the operations return
  \<open>(chat_error \<times> chat) + chat\<close>: the exception with the client as it was left, or the client.
  What the outside does is an argument: \<open>ok c line\<close> says whether \<open>sendall\<close> accepts a line in
  state \<open>c\<close>, \<open>dial\<close> whether a connection (with TLS and certificate checks as asked) comes up, and a list of \<open>turn\<close>s gives, for each
  iteration of the select loop, the clock reading and what \<open>recv\<close> returns on the readable
  sockets. The list ends where the clock passes the deadline. Times are in milliseconds.

  The record \<open>unicode_tables\<close> holds what Python reads from its Unicode tables for code points
  above 127. Diagnostics printed on the way are not modelled; every exit code and every
  uncaught exception is.
\<close>

section \<open>Environment\<close>

record unicode_tables =
  ut_lower :: "pystr \<Rightarrow> pystr"
  ut_digit :: "nat \<Rightarrow> bool"
  ut_decimal :: "nat \<Rightarrow> nat option"

definition py_lower :: "unicode_tables \<Rightarrow> pystr \<Rightarrow> pystr" where
  "py_lower ut s =
     (if list_all (\<lambda>c. c < 128) s then map (\<lambda>c. if 65 \<le> c \<and> c \<le> 90 then c + 32 else c) s
      else ut_lower ut s)"

definition py_isdigit :: "unicode_tables \<Rightarrow> pystr \<Rightarrow> bool" where
  "py_isdigit ut s =
     (s \<noteq> [] \<and> list_all (\<lambda>c. if c < 128 then 48 \<le> c \<and> c \<le> 57 else ut_digit ut c) s)"

definition py_int :: "unicode_tables \<Rightarrow> pystr \<Rightarrow> int option" where
  "py_int ut = int_of (\<lambda>c. if c < 128 then udigit c else ut_decimal ut c) 95 43 45 uspace"

fun env_first :: "(pystr \<rightharpoonup> pystr) \<Rightarrow> pystr list \<Rightarrow> pystr \<Rightarrow> pystr" where
  "env_first env [] d = d"
| "env_first env (n # ns) d =
     (case env n of
        Some v \<Rightarrow> if v \<noteq> [] then v else env_first env ns d
      | None \<Rightarrow> env_first env ns d)"

definition env_truthy :: "(pystr \<rightharpoonup> pystr) \<Rightarrow> pystr \<Rightarrow> bool \<Rightarrow> bool" where
  "env_truthy env n d =
     (case env n of
        None \<Rightarrow> d
      | Some raw \<Rightarrow>
          if raw = [] then d
          else str_lower (str_strip raw) \<notin> {u ''0'', u ''false'', u ''no'', u ''off''})"

record chat_config =
  cc_channel :: pystr
  cc_timeout :: int
  cc_insecure_tls :: bool
  cc_sasl_user :: pystr
  cc_sasl_pass :: pystr
  cc_allow_guest :: bool
  cc_require_sasl :: bool

text \<open>The constants read at import; \<open>to_float\<close> is \<open>float\<close> of the timeout, in milliseconds.\<close>

definition load_chat :: "(pystr \<Rightarrow> int option) \<Rightarrow> (pystr \<rightharpoonup> pystr) \<Rightarrow> chat_config option" where
  "load_chat to_float env =
     (case to_float (env_first env [u ''MESH_SMOKE_TIMEOUT''] (u ''45'')) of
        None \<Rightarrow> None
      | Some t \<Rightarrow> Some \<lparr>
          cc_channel = env_first env [u ''MESH_SMOKE_CHANNEL''] (u ''#root''),
          cc_timeout = t,
          cc_insecure_tls = env_truthy env (u ''MESH_SMOKE_INSECURE_TLS'') True,
          cc_sasl_user = env_first env [u ''MESH_SMOKE_SASL_USER'', u ''ANNOUNCE_SASL_USER''] [],
          cc_sasl_pass = env_first env [u ''MESH_SMOKE_SASL_PASS'', u ''ANNOUNCE_SASL_PASS''] [],
          cc_allow_guest = env_truthy env (u ''MESH_SMOKE_ALLOW_GUEST'') False,
          cc_require_sasl = env_truthy env (u ''MESH_SMOKE_REQUIRE_SASL'') False\<rparr>)"

section \<open>Endpoints\<close>

datatype endpoint_error = EndpointUsage | EndpointValue

text \<open>\<open>s.rpartition(":")\<close> around the last colon.\<close>

definition rpartition_colon :: "pystr \<Rightarrow> pystr \<times> pystr" where
  "rpartition_colon s =
     (case rfind_sub s [58] of None \<Rightarrow> ([], s) | Some i \<Rightarrow> (take i s, drop (i + 1) s))"

definition with_port :: "unicode_tables \<Rightarrow> pystr \<Rightarrow> pystr \<Rightarrow> endpoint_error + (pystr \<times> int)" where
  "with_port ut host port_s =
     (case py_int ut port_s of None \<Rightarrow> Inl EndpointValue | Some p \<Rightarrow> Inr (host, p))"

definition parse_endpoint :: "unicode_tables \<Rightarrow> pystr \<Rightarrow> endpoint_error + (pystr \<times> int)" where
  "parse_endpoint ut spec0 =
     (let spec = str_strip spec0 in
      if spec = [] then Inl EndpointValue
      else if startswith spec (u ''['')
      then (case partition_sub (tl spec) (u '']:'') of (host, _, port_s) \<Rightarrow>
              if port_s = [] then Inl EndpointValue else with_port ut host port_s)
      else if contains_sub spec (u '':'')
      then (case rpartition_colon spec of (host, port_s) \<Rightarrow> with_port ut host port_s)
      else Inl EndpointValue)"

type_synonym endpoint = "pystr \<times> int \<times> bool"

definition resolve_endpoints ::
  "unicode_tables \<Rightarrow> (pystr \<rightharpoonup> pystr) \<Rightarrow> pystr list \<Rightarrow> endpoint_error + (endpoint \<times> endpoint)" where
  "resolve_endpoints ut env argv =
     (let a_env = env_first env [u ''MESH_SMOKE_A''] (u ''127.0.0.1:6667'');
          b_env = env_first env [u ''MESH_SMOKE_B''] [];
          a_tls = env_truthy env (u ''MESH_SMOKE_A_TLS'') False;
          b_tls = env_truthy env (u ''MESH_SMOKE_B_TLS'') True;
          args = tl argv
      in
      bind_res
        (case args of
           a # b # _ \<Rightarrow> Inr (a, b)
         | [b] \<Rightarrow> Inr (a_env, b)
         | [] \<Rightarrow> if b_env = [] then Inl EndpointUsage else Inr (a_env, b_env))
        (\<lambda>(a_spec, b_spec).
          bind_res (parse_endpoint ut a_spec) (\<lambda>(ah, ap).
          bind_res (parse_endpoint ut b_spec) (\<lambda>(bh, bp).
          Inr ((ah, ap, a_tls), (bh, bp, b_tls))))))"

text \<open>Whether to use SASL, and whether to give up because SASL is required and not configured.\<close>

definition resolve_auth_mode :: "chat_config \<Rightarrow> bool \<times> bool" where
  "resolve_auth_mode cfg =
     (if cc_sasl_user cfg \<noteq> [] \<and> cc_sasl_pass cfg \<noteq> [] then (True, False)
      else (False, cc_require_sasl cfg))"

section \<open>The client\<close>

record chat =
  ch_label :: pystr
  ch_host :: pystr
  ch_port :: int
  ch_use_tls :: bool
  ch_nick :: pystr
  ch_sasl_user :: pystr
  ch_sasl_pass :: pystr
  ch_use_sasl :: bool
  ch_sock :: bool
  ch_buf :: string
  ch_registered :: bool
  ch_joined :: bool
  ch_sasl_ok :: bool
  ch_cap_ended :: bool
  ch_cap_ls :: "pystr set"
  ch_seen_privmsgs :: "pystr list"
  ch_last_err :: "pystr option"
  ch_reg_numerics :: "pystr list"
  ch_wire :: "pystr list"

definition IrcClient :: "pystr \<Rightarrow> endpoint \<Rightarrow> pystr \<Rightarrow> pystr \<Rightarrow> pystr \<Rightarrow> bool \<Rightarrow> chat" where
  "IrcClient label ep nick user pass use_sasl =
     (case ep of (host, port, tls) \<Rightarrow>
      \<lparr>ch_label = label, ch_host = host, ch_port = port, ch_use_tls = tls, ch_nick = nick,
       ch_sasl_user = user, ch_sasl_pass = pass, ch_use_sasl = use_sasl, ch_sock = False,
       ch_buf = [], ch_registered = False, ch_joined = False, ch_sasl_ok = False,
       ch_cap_ended = False, ch_cap_ls = {}, ch_seen_privmsgs = [], ch_last_err = None,
       ch_reg_numerics = [], ch_wire = []\<rparr>)"

datatype chat_error = ChatOs | ChatIndex | ChatAssert | ChatOther

type_synonym chat_res = "(chat_error \<times> chat) + chat"

definition chat_send :: "(chat \<Rightarrow> pystr \<Rightarrow> bool) \<Rightarrow> chat \<Rightarrow> pystr \<Rightarrow> chat_res" where
  "chat_send ok c line =
     (if \<not> ch_sock c then Inl (ChatAssert, c)
      else if ok c line then Inr (c\<lparr>ch_wire := ch_wire c @ [line]\<rparr>)
      else Inl (ChatOs, c))"

datatype dial = DialUp | DialOs | DialOther

definition chat_connect ::
  "chat_config \<Rightarrow> (pystr \<Rightarrow> int \<Rightarrow> bool \<Rightarrow> bool \<Rightarrow> dial) \<Rightarrow> (chat \<Rightarrow> pystr \<Rightarrow> bool) \<Rightarrow> chat \<Rightarrow> chat_res" where
  "chat_connect cfg dial ok c =
     (case dial (ch_host c) (ch_port c) (ch_use_tls c) (cc_insecure_tls cfg) of
        DialOs \<Rightarrow> Inl (ChatOs, c)
      | DialOther \<Rightarrow> Inl (ChatOther, c)
      | DialUp \<Rightarrow>
          bind_res (chat_send ok (c\<lparr>ch_sock := True\<rparr>) (u ''CAP LS 302'')) (\<lambda>c.
          bind_res (chat_send ok c (u ''NICK '' @ ch_nick c)) (\<lambda>c.
          chat_send ok c (u ''USER '' @ ch_nick c @ u '' 0 * :mesh-chat-smoke '' @ ch_label c))))"

definition chat_close :: "(chat \<Rightarrow> pystr \<Rightarrow> bool) \<Rightarrow> chat \<Rightarrow> chat" where
  "chat_close ok c =
     (if \<not> ch_sock c then c
      else case chat_send ok c (u ''QUIT :mesh-chat-smoke done'') of
             Inl (_, c') \<Rightarrow> c'\<lparr>ch_sock := False\<rparr>
           | Inr c' \<Rightarrow> c'\<lparr>ch_sock := False\<rparr>)"

definition chat_cap_end :: "(chat \<Rightarrow> pystr \<Rightarrow> bool) \<Rightarrow> chat \<Rightarrow> chat_res" where
  "chat_cap_end ok c =
     (if ch_cap_ended c then Inr c
      else chat_send ok (c\<lparr>ch_cap_ended := True\<rparr>) (u ''CAP END''))"

definition cap_name :: "pystr \<Rightarrow> pystr" where
  "cap_name c = hd (split_sub (u ''='') c)"

definition chat_handle_cap ::
  "(chat \<Rightarrow> pystr \<Rightarrow> bool) \<Rightarrow> chat \<Rightarrow> pystr \<Rightarrow> pystr list \<Rightarrow> chat_res" where
  "chat_handle_cap ok c line parts =
     (let sub = (if length parts > 3 then parts ! 3 else []);
          offered = cap_offered line
      in
      if sub = u ''LS'' then
        let more = (length parts > 4 \<and> parts ! 4 = u ''*'');
            c1 = c\<lparr>ch_cap_ls := ch_cap_ls c \<union> set (map cap_name offered)\<rparr>
        in if more then Inr c1
           else if ch_use_sasl c1
           then (if u ''sasl'' \<in> ch_cap_ls c1 then chat_send ok c1 (u ''CAP REQ :sasl'')
                 else chat_cap_end ok (c1\<lparr>ch_last_err := Some (u ''server did not offer sasl'')\<rparr>))
           else chat_cap_end ok c1
      else if sub = u ''ACK'' then
        if \<not> ch_use_sasl c then chat_cap_end ok c
        else if list_ex (\<lambda>o'. cap_name o' = u ''sasl'') offered
        then chat_send ok c (u ''AUTHENTICATE PLAIN'')
        else chat_cap_end ok (c\<lparr>ch_last_err := Some (u ''sasl not ACKed'')\<rparr>)
      else if sub = u ''NAK'' then
        chat_cap_end ok (if ch_use_sasl c then c\<lparr>ch_last_err := Some (u ''CAP REQ NAK'')\<rparr> else c)
      else Inr c)"

text \<open>The start of \<open>_handle\<close>; \<open>None\<close> is the \<open>IndexError\<close> of \<open>split(" ", 1)[1]\<close>.\<close>

definition chat_work :: "pystr \<Rightarrow> pystr option" where
  "chat_work line =
     (let work = (if startswith line (u ''@'') \<and> contains_sub line (u '' '') then drop 1 line else line)
      in if startswith work (u ''@'')
         then (case split1 (u '' '') work of [_, r] \<Rightarrow> Some r | _ \<Rightarrow> None)
         else Some work)"

definition chat_plain :: "chat \<Rightarrow> pystr" where
  "chat_plain c =
     u (b64encode (utf8 (ch_sasl_user c @ [0] @ ch_sasl_user c @ [0] @ ch_sasl_pass c)))"

definition chat_numeric ::
  "chat_config \<Rightarrow> (chat \<Rightarrow> pystr \<Rightarrow> bool) \<Rightarrow> chat \<Rightarrow> pystr \<Rightarrow> chat_res" where
  "chat_numeric cfg ok c0 code =
     (let c = (if code \<in> set (ch_reg_numerics c0) then c0
               else c0\<lparr>ch_reg_numerics := ch_reg_numerics c0 @ [code]\<rparr>)
      in
      if code = u ''903'' then chat_cap_end ok (c\<lparr>ch_sasl_ok := True\<rparr>)
      else if code \<in> {u ''902'', u ''904'', u ''905'', u ''906'', u ''907''}
      then chat_cap_end ok
             (if ch_use_sasl c then c\<lparr>ch_last_err := Some (u ''sasl failed ('' @ code @ u '')'')\<rparr> else c)
      else if code = u ''001''
      then chat_send ok (c\<lparr>ch_registered := True\<rparr>) (u ''JOIN '' @ cc_channel cfg)
      else if code \<in> {u ''433'', u ''436''}
      then chat_send ok (c\<lparr>ch_nick := ch_nick c @ u ''_''\<rparr>) (u ''NICK '' @ ch_nick c @ u ''_'')
      else if code \<in> {u ''464'', u ''465''}
      then Inr (c\<lparr>ch_last_err := Some (u ''register rejected ('' @ code @ u '', '' @
             (if \<not> ch_use_sasl c then u ''guest'' else u ''auth'') @ u '')'')\<rparr>)
      else Inr c)"

definition drop_colon :: "pystr \<Rightarrow> pystr" where
  "drop_colon s = (if startswith s (u '':'') then drop 1 s else s)"

text \<open>Whether a \<open>JOIN\<close> line is the echo for \<open>nick\<close> in the configured channel.\<close>

definition join_echo :: "unicode_tables \<Rightarrow> chat_config \<Rightarrow> pystr \<Rightarrow> pystr list \<Rightarrow> bool" where
  "join_echo ut cfg nick parts =
     (let join_nick = hd (split1 (u ''!'') (drop_colon (parts ! 0))); chan = drop_colon (parts ! 2)
      in py_lower ut join_nick = py_lower ut nick \<and> py_lower ut chan = py_lower ut (cc_channel cfg))"

definition privmsg_text :: "pystr \<Rightarrow> pystr" where
  "privmsg_text work = (case split1 (u '' :'') work of [_, t] \<Rightarrow> t | _ \<Rightarrow> [])"

definition chat_handle ::
  "unicode_tables \<Rightarrow> chat_config \<Rightarrow> (chat \<Rightarrow> pystr \<Rightarrow> bool) \<Rightarrow> chat \<Rightarrow> pystr \<Rightarrow> chat_res" where
  "chat_handle ut cfg ok c line =
     (if line = [] then Inr c
      else case chat_work line of
        None \<Rightarrow> Inl (ChatIndex, c)
      | Some work \<Rightarrow>
          let parts = str_split work; n = length parts in
          if parts = [] then Inr c
          else if parts ! 0 = u ''PING'' \<or> n > 1 \<and> parts ! 1 = u ''PING''
          then chat_send ok c (u ''PONG :'' @ ping_token work)
          else if parts ! 0 = u ''AUTHENTICATE'' \<and> n \<ge> 2 \<and> parts ! 1 = u ''+''
          then (if \<not> ch_use_sasl c then Inr c else chat_send ok c (u ''AUTHENTICATE '' @ chat_plain c))
          else if n \<ge> 4 \<and> parts ! 1 = u ''CAP'' then chat_handle_cap ok c work parts
          else if n \<ge> 2 \<and> py_isdigit ut (parts ! 1) then chat_numeric cfg ok c (parts ! 1)
          else if n \<ge> 3 \<and> parts ! 1 = u ''JOIN''
          then Inr (if join_echo ut cfg (ch_nick c) parts then c\<lparr>ch_joined := True\<rparr> else c)
          else if n \<ge> 4 \<and> parts ! 1 = u ''PRIVMSG''
          then Inr (c\<lparr>ch_seen_privmsgs := ch_seen_privmsgs c @ [privmsg_text work]\<rparr>)
          else Inr c)"

text \<open>The \<open>while\<close> loop of \<open>pump\<close>.\<close>

function chat_drain ::
  "unicode_tables \<Rightarrow> chat_config \<Rightarrow> (chat \<Rightarrow> pystr \<Rightarrow> bool) \<Rightarrow> chat \<Rightarrow> string \<Rightarrow> chat_res" where
  "chat_drain ut cfg ok c buf =
     (case find_sub buf crlf of
        None \<Rightarrow> Inr (c\<lparr>ch_buf := buf\<rparr>)
      | Some i \<Rightarrow>
          let rest = drop (i + length crlf) buf in
          (case chat_handle ut cfg ok (c\<lparr>ch_buf := rest\<rparr>) (utf8_decode (take i buf)) of
             Inl e \<Rightarrow> Inl e
           | Inr c' \<Rightarrow> chat_drain ut cfg ok c' rest))"
  by pat_completeness auto
termination
  by (relation "measure (\<lambda>(_, _, _, _, b). length b)") (auto simp: crlf_def dest: find_sub_bound)

declare chat_drain.simps [simp del]

text \<open>\<open>recv\<close>: nothing to read yet, data (empty at the end of the stream), another error.\<close>

datatype recv = RecvWait | RecvData string | RecvFail

definition chat_pump ::
  "unicode_tables \<Rightarrow> chat_config \<Rightarrow> (chat \<Rightarrow> pystr \<Rightarrow> bool) \<Rightarrow> chat \<Rightarrow> recv \<Rightarrow> chat_res" where
  "chat_pump ut cfg ok c r =
     (if \<not> ch_sock c then Inl (ChatAssert, c)
      else case r of
        RecvWait \<Rightarrow> Inr c
      | RecvFail \<Rightarrow> Inl (ChatOs, c)
      | RecvData d \<Rightarrow>
          if d = [] then Inr (c\<lparr>ch_last_err := Some (u ''eof'')\<rparr>)
          else chat_drain ut cfg ok c (ch_buf c @ d))"

definition send_privmsg ::
  "chat_config \<Rightarrow> (chat \<Rightarrow> pystr \<Rightarrow> bool) \<Rightarrow> chat \<Rightarrow> pystr \<Rightarrow> chat_res" where
  "send_privmsg cfg ok c txt = chat_send ok c (u ''PRIVMSG '' @ cc_channel cfg @ u '' :'' @ txt)"

section \<open>The select loop and the exchange\<close>

record turn =
  tn_now :: int
  tn_a :: "recv option"
  tn_b :: "recv option"

definition err_set :: "chat \<Rightarrow> bool" where
  "err_set c = (case ch_last_err c of None \<Rightarrow> False | Some e \<Rightarrow> e \<noteq> [])"

text \<open>One client of the select list: pumped when its socket is open and readable.\<close>

definition chat_poll ::
  "unicode_tables \<Rightarrow> chat_config \<Rightarrow> (chat \<Rightarrow> pystr \<Rightarrow> bool) \<Rightarrow> chat \<Rightarrow> recv option \<Rightarrow> chat_res" where
  "chat_poll ut cfg ok c r =
     (case r of Some rv \<Rightarrow> if ch_sock c then chat_pump ut cfg ok c rv else Inr c | None \<Rightarrow> Inr c)"

fun wait_until ::
  "unicode_tables \<Rightarrow> chat_config \<Rightarrow> (chat \<Rightarrow> pystr \<Rightarrow> bool) \<Rightarrow> (chat \<Rightarrow> chat \<Rightarrow> bool) \<Rightarrow> int \<Rightarrow>
    turn list \<Rightarrow> chat \<Rightarrow> chat \<Rightarrow> (chat_error + bool) \<times> chat \<times> chat \<times> turn list" where
  "wait_until ut cfg ok pred deadline [] a b = (Inr (pred a b), a, b, [])"
| "wait_until ut cfg ok pred deadline (t # ts) a b =
     (if \<not> tn_now t < deadline then (Inr (pred a b), a, b, ts)
      else if pred a b then (Inr True, a, b, ts)
      else if err_set a \<or> err_set b then (Inr False, a, b, ts)
      else if \<not> ch_sock a \<and> \<not> ch_sock b then (Inr False, a, b, ts)
      else case chat_poll ut cfg ok a (tn_a t) of
        Inl (e, a') \<Rightarrow> (Inl e, a', b, ts)
      | Inr a' \<Rightarrow>
          (case chat_poll ut cfg ok b (tn_b t) of
             Inl (e, b') \<Rightarrow> (Inl e, a', b', ts)
           | Inr b' \<Rightarrow> wait_until ut cfg ok pred deadline ts a' b'))"

datatype chat_exit = ChatExit int | ChatRaised chat_error

definition guest_blocked :: "bool \<Rightarrow> chat \<Rightarrow> chat \<Rightarrow> bool" where
  "guest_blocked use_sasl a b =
     (\<not> use_sasl \<and> list_ex (\<lambda>c. case ch_last_err c of
         Some e \<Rightarrow> contains_sub e (u ''register rejected (46'') | None \<Rightarrow> False) [a, b])"

definition saw :: "pystr \<Rightarrow> chat \<Rightarrow> bool" where
  "saw m c = list_ex (\<lambda>t. contains_sub t m) (ch_seen_privmsgs c)"

text \<open>The two messages, after both clients joined.\<close>

definition chat_exchange ::
  "unicode_tables \<Rightarrow> chat_config \<Rightarrow> (chat \<Rightarrow> pystr \<Rightarrow> bool) \<Rightarrow> int \<Rightarrow> pystr \<Rightarrow> pystr \<Rightarrow>
    turn list \<Rightarrow> chat \<Rightarrow> chat \<Rightarrow> chat_exit \<times> chat \<times> chat" where
  "chat_exchange ut cfg ok deadline msg_a msg_b ts a b =
     (case send_privmsg cfg ok a msg_a of
        Inl (e, a') \<Rightarrow> (ChatRaised e, a', b)
      | Inr a1 \<Rightarrow>
     (case wait_until ut cfg ok (\<lambda>_. saw msg_a) deadline ts a1 b of
        (Inl e, a2, b2, _) \<Rightarrow> (ChatRaised e, a2, b2)
      | (Inr False, a2, b2, _) \<Rightarrow> (ChatExit 1, a2, b2)
      | (Inr True, a2, b2, ts2) \<Rightarrow>
     (case send_privmsg cfg ok b2 msg_b of
        Inl (e, b') \<Rightarrow> (ChatRaised e, a2, b')
      | Inr b3 \<Rightarrow>
     (case wait_until ut cfg ok (\<lambda>a _. saw msg_b a) deadline ts2 a2 b3 of
        (Inl e, a4, b4, _) \<Rightarrow> (ChatRaised e, a4, b4)
      | (Inr False, a4, b4, _) \<Rightarrow> (ChatExit 1, a4, b4)
      | (Inr True, a4, b4, _) \<Rightarrow> (ChatExit 0, a4, b4)))))"

text \<open>The body of the \<open>try\<close> in \<open>main\<close>: connect, register and join, exchange.\<close>

definition chat_session ::
  "unicode_tables \<Rightarrow> chat_config \<Rightarrow> (pystr \<Rightarrow> int \<Rightarrow> bool \<Rightarrow> bool \<Rightarrow> dial) \<Rightarrow> (chat \<Rightarrow> pystr \<Rightarrow> bool) \<Rightarrow> int \<Rightarrow>
    bool \<Rightarrow> pystr \<Rightarrow> pystr \<Rightarrow> turn list \<Rightarrow> chat \<Rightarrow> chat \<Rightarrow> chat_exit \<times> chat \<times> chat" where
  "chat_session ut cfg dial ok deadline use_sasl msg_a msg_b ts a b =
     (case chat_connect cfg dial ok a of
        Inl (e, a1) \<Rightarrow> (if e = ChatOs then ChatExit 1 else ChatRaised e, a1, b)
      | Inr a1 \<Rightarrow>
     (case chat_connect cfg dial ok b of
        Inl (e, b1) \<Rightarrow> (if e = ChatOs then ChatExit 1 else ChatRaised e, a1, b1)
      | Inr b1 \<Rightarrow>
     (case wait_until ut cfg ok (\<lambda>a b. ch_joined a \<and> ch_joined b) deadline ts a1 b1 of
        (Inl e, a2, b2, _) \<Rightarrow> (ChatRaised e, a2, b2)
      | (Inr False, a2, b2, _) \<Rightarrow> (ChatExit (if guest_blocked use_sasl a2 b2 then 2 else 1), a2, b2)
      | (Inr True, a2, b2, ts2) \<Rightarrow> chat_exchange ut cfg ok deadline msg_a msg_b ts2 a2 b2)))"

text \<open>\<open>main\<close>; \<open>t0\<close> is the clock at the start and \<open>tag\<close> the random hex tag of the run.\<close>

definition chat_main ::
  "unicode_tables \<Rightarrow> (pystr \<rightharpoonup> pystr) \<Rightarrow> chat_config \<Rightarrow> (pystr \<Rightarrow> int \<Rightarrow> bool \<Rightarrow> bool \<Rightarrow> dial) \<Rightarrow>
    (chat \<Rightarrow> pystr \<Rightarrow> bool) \<Rightarrow> int \<Rightarrow> pystr \<Rightarrow> turn list \<Rightarrow> pystr list \<Rightarrow>
    chat_exit \<times> (chat \<times> chat) option" where
  "chat_main ut env cfg dial ok t0 tag ts argv =
     (let (use_sasl, skip) = resolve_auth_mode cfg in
      if skip then (ChatExit 2, None)
      else case resolve_endpoints ut env argv of
        Inl _ \<Rightarrow> (ChatExit 2, None)
      | Inr (a_ep, b_ep) \<Rightarrow>
          let a = IrcClient (u ''A'') a_ep (u ''mcs'' @ take 6 tag @ u ''a'')
                    (cc_sasl_user cfg) (cc_sasl_pass cfg) use_sasl;
              b = IrcClient (u ''B'') b_ep (u ''mcs'' @ take 6 tag @ u ''b'')
                    (cc_sasl_user cfg) (cc_sasl_pass cfg) use_sasl;
              (r, a', b') = chat_session ut cfg dial ok (t0 + cc_timeout cfg) use_sasl
                (u ''mesh-chat-smoke A->'' @ tag) (u ''mesh-chat-smoke B->'' @ tag) ts a b
          in (r, Some (chat_close ok a', chat_close ok b')))"

end
