(* ===== verification/Mesh_Chat_Props.thy ===== *)
theory Mesh_Chat_Props
  imports Mesh_Chat Bot_Safety "HOL-Library.Sublist"
begin

text \<open>
  Properties of the chat smoke test of \<open>Mesh_Chat\<close>.

  \<^item> \<open>chat_inv\<close> is kept by every operation, also by one that raises; it gives the safety of the
    capability negotiation over every run of \<open>main\<close>.
  \<^item> \<open>chat_grows\<close> says what handling a list of lines may change. With the framing laws of the
    read loop (interpretation \<open>bot_recv\<close>) it ties what a client has seen to the bytes it
    received, which makes a zero exit status evidence of the exchange.
  \<^item> \<open>tagged_line_ignored\<close> shows that message tags are not stripped, and
    \<open>endpoint_roundtrip\<close> that endpoints parse back.
\<close>

section \<open>Negotiation invariant\<close>

definition chat_keeps :: "(chat \<Rightarrow> bool) \<Rightarrow> chat_res \<Rightarrow> bool" where
  "chat_keeps P r = (case r of Inl (_, c) \<Rightarrow> P c | Inr c \<Rightarrow> P c)"

definition chat_inv :: "bool \<Rightarrow> chat \<Rightarrow> bool" where
  "chat_inv s c =
     (ch_use_sasl c = s \<and> count_list (ch_wire c) (u ''CAP END'') \<le> (if ch_cap_ended c then 1 else 0) \<and>
      (ch_use_sasl c \<and> ch_cap_ended c \<longrightarrow> ch_sasl_ok c \<or> ch_last_err c \<noteq> None) \<and>
      (\<not> ch_use_sasl c \<longrightarrow> (\<forall>l \<in> set (ch_wire c). \<not> startswith l (u ''AUTHENTICATE''))))"

lemma chat_keeps_simps [simp]:
  "chat_keeps P (Inr c) = P c" "chat_keeps P (Inl (e, c)) = P c"
  by (simp_all add: chat_keeps_def)

lemma chat_keeps_bind:
  "chat_keeps P r \<Longrightarrow> (\<And>c. P c \<Longrightarrow> chat_keeps P (f c)) \<Longrightarrow> chat_keeps P (bind_res r f)"
  by (cases r) (auto simp: bind_res_def)

lemma chat_keeps_if:
  "(b \<Longrightarrow> chat_keeps P x) \<Longrightarrow> (\<not> b \<Longrightarrow> chat_keeps P y) \<Longrightarrow> chat_keeps P (if b then x else y)"
  by simp

lemma chat_keeps_option:
  "(r = None \<Longrightarrow> chat_keeps P x) \<Longrightarrow> (\<And>v. r = Some v \<Longrightarrow> chat_keeps P (f v)) \<Longrightarrow>
   chat_keeps P (case r of None \<Rightarrow> x | Some v \<Rightarrow> f v)"
  by (cases r) simp_all

text \<open>Fields the invariant does not read, and the two it only gains from.\<close>

lemma chat_inv_fields [simp]:
  "chat_inv s (c\<lparr>ch_buf := x1\<rparr>) = chat_inv s c" "chat_inv s (c\<lparr>ch_sock := x2\<rparr>) = chat_inv s c"
  "chat_inv s (c\<lparr>ch_nick := x3\<rparr>) = chat_inv s c" "chat_inv s (c\<lparr>ch_registered := x4\<rparr>) = chat_inv s c"
  "chat_inv s (c\<lparr>ch_joined := x5\<rparr>) = chat_inv s c" "chat_inv s (c\<lparr>ch_cap_ls := x6\<rparr>) = chat_inv s c"
  "chat_inv s (c\<lparr>ch_seen_privmsgs := x7\<rparr>) = chat_inv s c"
  "chat_inv s (c\<lparr>ch_reg_numerics := x8\<rparr>) = chat_inv s c"
  by (simp_all add: chat_inv_def)

lemma chat_inv_gain [simp]:
  "chat_inv s c \<Longrightarrow> chat_inv s (c\<lparr>ch_last_err := Some e\<rparr>)"
  "chat_inv s c \<Longrightarrow> chat_inv s (c\<lparr>ch_sasl_ok := True\<rparr>)"
  by (auto simp: chat_inv_def)

text \<open>The lines the client sends, by their first word.\<close>

definition quiet_line :: "bool \<Rightarrow> pystr \<Rightarrow> bool" where
  "quiet_line sasl l = (l \<noteq> u ''CAP END'' \<and> (\<not> sasl \<longrightarrow> \<not> startswith l (u ''AUTHENTICATE'')))"

lemma quiet_lines [simp]:
  "quiet_line s (u ''CAP LS 302'')" "quiet_line s (u ''CAP REQ :sasl'')"
  "quiet_line s (u ''NICK '' @ x)" "quiet_line s (u ''USER '' @ x)" "quiet_line s (u ''PONG :'' @ x)"
  "quiet_line s (u ''JOIN '' @ x)" "quiet_line s (u ''PRIVMSG '' @ x)"
  "quiet_line s (u ''QUIT :mesh-chat-smoke done'')"
  "quiet_line True (u ''AUTHENTICATE '' @ x)" "quiet_line True (u ''AUTHENTICATE PLAIN'')"
  by (simp_all add: quiet_line_def u_def startswith_def)

lemma cap_end_quiet: "\<not> startswith (u ''CAP END'') (u ''AUTHENTICATE'')"
  by (simp add: u_def startswith_def)

lemma chat_send_inv:
  "chat_inv s c \<Longrightarrow> quiet_line (ch_use_sasl c) l \<Longrightarrow> chat_keeps (chat_inv s) (chat_send ok c l)"
  by (auto simp: chat_send_def chat_inv_def quiet_line_def)

lemma chat_cap_end_inv:
  "chat_inv s c \<Longrightarrow> ch_use_sasl c \<longrightarrow> ch_sasl_ok c \<or> ch_last_err c \<noteq> None \<Longrightarrow>
   chat_keeps (chat_inv s) (chat_cap_end ok c)"
  by (cases "ch_cap_ended c")
    (simp_all add: chat_cap_end_def chat_send_def chat_inv_def cap_end_quiet)

lemma chat_connect_inv: "chat_inv s c \<Longrightarrow> chat_keeps (chat_inv s) (chat_connect cfg dial ok c)"
  by (simp add: chat_connect_def chat_send_inv chat_keeps_bind split: dial.split)

lemma chat_handle_cap_inv: "chat_inv s c \<Longrightarrow> chat_keeps (chat_inv s) (chat_handle_cap ok c l ps)"
  unfolding chat_handle_cap_def Let_def
  by (intro chat_keeps_if; simp add: chat_send_inv chat_cap_end_inv)

lemma chat_numeric_inv: "chat_inv s c \<Longrightarrow> chat_keeps (chat_inv s) (chat_numeric cfg ok c code)"
  unfolding chat_numeric_def Let_def
  by (intro chat_keeps_if; simp add: chat_send_inv chat_cap_end_inv)

lemma chat_handle_inv: "chat_inv s c \<Longrightarrow> chat_keeps (chat_inv s) (chat_handle ut cfg ok c l)"
  unfolding chat_handle_def Let_def
  by (intro chat_keeps_if chat_keeps_option;
      simp add: chat_send_inv chat_handle_cap_inv chat_numeric_inv)

lemma chat_drain_inv: "chat_inv s c \<Longrightarrow> chat_keeps (chat_inv s) (chat_drain ut cfg ok c buf)"
proof (induction ut cfg ok c buf rule: chat_drain.induct)
  case (1 ut cfg ok c buf)
  show ?case
  proof (cases "find_sub buf crlf")
    case None
    then show ?thesis using "1.prems" by (simp add: chat_drain.simps [of ut cfg ok c buf])
  next
    case (Some i)
    define h where "h = chat_handle ut cfg ok (c\<lparr>ch_buf := drop (i + length crlf) buf\<rparr>)
      (utf8_decode (take i buf))"
    have h: "chat_keeps (chat_inv s) h"
      unfolding h_def using "1.prems" by (intro chat_handle_inv) simp
    show ?thesis
    proof (cases h)
      case (Inl e)
      then show ?thesis using h Some
        by (cases e) (simp add: chat_drain.simps [of ut cfg ok c buf] h_def)
    next
      case (Inr c')
      then show ?thesis using h Some "1.IH" [OF Some refl] 
        by (simp add: chat_drain.simps [of ut cfg ok c buf] h_def)
    qed
  qed
qed

lemma chat_poll_inv: "chat_inv s c \<Longrightarrow> chat_keeps (chat_inv s) (chat_poll ut cfg ok c r)"
  by (auto simp: chat_poll_def chat_pump_def split: option.split recv.split intro: chat_drain_inv)

lemma chat_close_inv: "chat_inv s c \<Longrightarrow> chat_inv s (chat_close ok c)"
  using chat_send_inv [of s c "u ''QUIT :mesh-chat-smoke done''" ok]
  by (auto simp: chat_close_def chat_keeps_def split: sum.splits)

lemma wait_until_inv:
  "wait_until ut cfg ok pred dl ts a b = (r, a', b', ts') \<Longrightarrow> chat_inv s a \<Longrightarrow> chat_inv s b \<Longrightarrow>
   chat_inv s a' \<and> chat_inv s b'"
proof (induction ts arbitrary: a b)
  case (Cons t ts)
  show ?case
    using Cons.prems Cons.IH chat_poll_inv [of s a ut cfg ok "tn_a t"] chat_poll_inv [of s b ut cfg ok "tn_b t"]
    by (auto split: if_splits sum.splits)
qed simp

lemma send_privmsg_inv: "chat_inv s c \<Longrightarrow> chat_keeps (chat_inv s) (send_privmsg cfg ok c m)"
  by (simp add: send_privmsg_def chat_send_inv)

definition both_inv :: "bool \<Rightarrow> chat_exit \<times> chat \<times> chat \<Rightarrow> bool" where
  "both_inv s x = (case x of (_, a, b) \<Rightarrow> chat_inv s a \<and> chat_inv s b)"

text \<open>The shapes in which the exchange continues after a send, a connect or a wait.\<close>

lemma both_inv_res:
  "chat_keeps (chat_inv s) r \<Longrightarrow> (\<And>e c. chat_inv s c \<Longrightarrow> both_inv s (f e c)) \<Longrightarrow>
   (\<And>c. chat_inv s c \<Longrightarrow> both_inv s (g c)) \<Longrightarrow>
   both_inv s (case r of Inl (e, c) \<Rightarrow> f e c | Inr c \<Rightarrow> g c)"
  by (cases r) (auto split: prod.split)

lemma both_inv_wait:
  assumes "chat_inv s a" "chat_inv s b"
    and "\<And>e a b. chat_inv s a \<Longrightarrow> chat_inv s b \<Longrightarrow> both_inv s (f e a b)"
    and "\<And>a b. chat_inv s a \<Longrightarrow> chat_inv s b \<Longrightarrow> both_inv s (g a b)"
    and "\<And>a b ts. chat_inv s a \<Longrightarrow> chat_inv s b \<Longrightarrow> both_inv s (h a b ts)"
  shows "both_inv s (case wait_until ut cfg ok pred dl ts a b of
      (Inl e, a, b, _) \<Rightarrow> f e a b | (Inr False, a, b, _) \<Rightarrow> g a b | (Inr True, a, b, ts) \<Rightarrow> h a b ts)"
proof -
  obtain r a' b' ts' where w: "wait_until ut cfg ok pred dl ts a b = (r, a', b', ts')"
    by (metis prod_cases4)
  with wait_until_inv [OF w assms(1,2)] assms(3-5) show ?thesis
    by (auto split: sum.split bool.split)
qed

lemma chat_exchange_inv:
  "chat_inv s a \<Longrightarrow> chat_inv s b \<Longrightarrow> both_inv s (chat_exchange ut cfg ok dl ma mb ts a b)"
  unfolding chat_exchange_def
  by (intro both_inv_res both_inv_wait send_privmsg_inv; simp add: both_inv_def)

lemma chat_session_inv:
  "chat_inv s a \<Longrightarrow> chat_inv s b \<Longrightarrow> both_inv s (chat_session ut cfg dial ok dl s' ma mb ts a b)"
  unfolding chat_session_def
  by (intro both_inv_res both_inv_wait chat_connect_inv chat_exchange_inv; simp add: both_inv_def)

lemma IrcClient_inv: "chat_inv s (IrcClient l ep n us ps s)"
  by (simp add: chat_inv_def IrcClient_def split: prod.split)

text \<open>C9: Whatever the servers send and wherever the network fails, each client ends the
  capability negotiation at most once; with credentials configured it does so only after the
  server confirmed SASL (903) or after recording an error, which fails the run; and without
  credentials it never sends an \<open>AUTHENTICATE\<close> line.\<close>

theorem chat_negotiation_safe:
  assumes "chat_main ut env cfg dial ok t0 tag ts argv = (r, Some (a, b))" "c \<in> {a, b}"
  shows "count_list (ch_wire c) (u ''CAP END'') \<le> 1 \<and>
    (cc_sasl_user cfg \<noteq> [] \<and> cc_sasl_pass cfg \<noteq> [] \<longrightarrow>
       ch_cap_ended c \<longrightarrow> ch_sasl_ok c \<or> ch_last_err c \<noteq> None) \<and>
    (cc_sasl_user cfg = [] \<or> cc_sasl_pass cfg = [] \<longrightarrow>
       (\<forall>l \<in> set (ch_wire c). \<not> startswith l (u ''AUTHENTICATE'')))"
proof -
  define s where "s = (cc_sasl_user cfg \<noteq> [] \<and> cc_sasl_pass cfg \<noteq> [])"
  have m: "fst (resolve_auth_mode cfg) = s"
    by (simp add: resolve_auth_mode_def s_def)
  have close: "both_inv s (chat_session ut cfg dial ok dl s ma mb ts (IrcClient l1 e1 n1 us ps s)
      (IrcClient l2 e2 n2 us ps s))" for dl ma mb l1 e1 n1 l2 e2 n2 us ps
    by (intro chat_session_inv IrcClient_inv)
  have "chat_inv s a \<and> chat_inv s b"
    using assms(1) m close
    by (auto simp: chat_main_def Let_def both_inv_def split: prod.splits sum.splits if_splits
        intro!: chat_close_inv) (metis case_prodD)+
  then have "chat_inv s c" using assms(2) by auto
  then show ?thesis by (auto simp: chat_inv_def s_def split: if_splits)
qed

section \<open>What the clients heard\<close>

definition says :: "pystr \<Rightarrow> pystr \<Rightarrow> bool" where
  "says line t = (case chat_work line of
     None \<Rightarrow> False
   | Some work \<Rightarrow> let parts = str_split work in
       length parts \<ge> 4 \<and> parts ! 1 = u ''PRIVMSG'' \<and> t = privmsg_text work)"

definition joins :: "unicode_tables \<Rightarrow> chat_config \<Rightarrow> pystr \<Rightarrow> pystr \<Rightarrow> bool" where
  "joins ut cfg nick line = (case chat_work line of
     None \<Rightarrow> False
   | Some work \<Rightarrow> let parts = str_split work in
       length parts \<ge> 3 \<and> parts ! 1 = u ''JOIN'' \<and> join_echo ut cfg nick parts)"

definition recv_bytes :: "recv option \<Rightarrow> string" where
  "recv_bytes r = (case r of Some (RecvData d) \<Rightarrow> d | _ \<Rightarrow> [])"

text \<open>\<open>chat_grows ut cfg L c c'\<close>: how a client may change while it handles the lines \<open>L\<close>.\<close>

definition chat_grows :: "unicode_tables \<Rightarrow> chat_config \<Rightarrow> pystr list \<Rightarrow> chat \<Rightarrow> chat \<Rightarrow> bool" where
  "chat_grows ut cfg L c c' =
     (ch_sock c' = ch_sock c \<and>
      (\<exists>k. ch_nick c' = ch_nick c @ replicate k 95) \<and>
      (\<exists>ls. ch_wire c' = ch_wire c @ ls) \<and>
      (\<forall>t \<in> set (ch_seen_privmsgs c'). t \<in> set (ch_seen_privmsgs c) \<or> (\<exists>l \<in> set L. says l t)) \<and>
      (ch_joined c' \<longrightarrow> ch_joined c \<or>
        (\<exists>l \<in> set L. \<exists>k. joins ut cfg (ch_nick c @ replicate k 95) l)))"

lemma chat_grows_refl [simp]: "chat_grows ut cfg L c c"
  unfolding chat_grows_def by (auto intro: exI [of _ 0])

lemma chat_grows_trans:
  assumes cd: "chat_grows ut cfg L c d" and de: "chat_grows ut cfg M d e"
  shows "chat_grows ut cfg (L @ M) c e"
proof -
  obtain k where k: "ch_nick d = ch_nick c @ replicate k 95"
    using cd unfolding chat_grows_def by blast
  obtain j where j: "ch_nick e = ch_nick d @ replicate j 95"
    using de unfolding chat_grows_def by blast
  have n: "\<exists>k. ch_nick e = ch_nick c @ replicate k 95"
    using k j by (auto simp: replicate_add [symmetric])
  have w: "\<exists>ls. ch_wire e = ch_wire c @ ls"
    using cd de unfolding chat_grows_def by (metis append.assoc)
  have "ch_joined d \<or> (\<exists>l \<in> set M. \<exists>i. joins ut cfg (ch_nick c @ replicate i 95) l)" if "ch_joined e"
    using that de k unfolding chat_grows_def by (metis append.assoc replicate_add)
  then have jn: "ch_joined c \<or> (\<exists>l \<in> set (L @ M). \<exists>i. joins ut cfg (ch_nick c @ replicate i 95) l)"
    if "ch_joined e"
    using that cd unfolding chat_grows_def by auto
  have "t \<in> set (ch_seen_privmsgs c) \<or> (\<exists>l \<in> set (L @ M). says l t)"
    if "t \<in> set (ch_seen_privmsgs e)" for t
    using that cd de unfolding chat_grows_def set_append by blast
  with n w jn cd de show ?thesis unfolding chat_grows_def by auto
qed

text \<open>The parts of a client that are read below; the negotiation leaves them alone.\<close>

definition core :: "chat \<Rightarrow> bool \<times> pystr \<times> pystr list \<times> pystr list \<times> bool \<times> string" where
  "core c = (ch_sock c, ch_nick c, ch_wire c, ch_seen_privmsgs c, ch_joined c, ch_buf c)"

definition grows_res :: "unicode_tables \<Rightarrow> chat_config \<Rightarrow> pystr list \<Rightarrow> chat \<Rightarrow> chat_res \<Rightarrow> bool" where
  "grows_res ut cfg L c r =
     (case r of Inl _ \<Rightarrow> True | Inr c' \<Rightarrow> chat_grows ut cfg L c c' \<and> ch_buf c' = ch_buf c)"

lemma grows_res_simps [simp]:
  "grows_res ut cfg L c (Inl x)"
  "grows_res ut cfg L c (Inr c') = (chat_grows ut cfg L c c' \<and> ch_buf c' = ch_buf c)"
  by (simp_all add: grows_res_def)

lemma grows_res_if:
  "(b \<Longrightarrow> grows_res ut cfg L c x) \<Longrightarrow> (\<not> b \<Longrightarrow> grows_res ut cfg L c y) \<Longrightarrow>
   grows_res ut cfg L c (if b then x else y)"
  by simp

lemma grows_res_core: "core d = core c \<Longrightarrow> grows_res ut cfg L c (Inr d)"
  by (auto simp: core_def chat_grows_def intro: exI [of _ 0])

lemma grows_res_send: "core d = core c \<Longrightarrow> grows_res ut cfg L c (chat_send ok d l)"
  by (auto simp: chat_send_def core_def chat_grows_def intro: exI [of _ 0])

lemma grows_res_cap_end: "core d = core c \<Longrightarrow> grows_res ut cfg L c (chat_cap_end ok d)"
  using grows_res_send [of "d\<lparr>ch_cap_ended := True\<rparr>" c ut cfg L ok]
  by (simp add: chat_cap_end_def grows_res_core del: grows_res_simps) (simp add: core_def)

lemma grows_res_nick:
  "core d = core c \<Longrightarrow>
   grows_res ut cfg L c (chat_send ok (d\<lparr>ch_nick := ch_nick d @ u ''_''\<rparr>) l)"
  by (auto simp: chat_send_def core_def chat_grows_def u_def intro: exI [of _ 1])

lemmas grows_send = grows_res_core grows_res_send grows_res_cap_end grows_res_nick

lemma core_upd [simp]:
  "core (c\<lparr>ch_cap_ls := x1\<rparr>) = core c" "core (c\<lparr>ch_last_err := x2\<rparr>) = core c"
  "core (c\<lparr>ch_sasl_ok := x3\<rparr>) = core c" "core (c\<lparr>ch_registered := x4\<rparr>) = core c"
  "core (c\<lparr>ch_reg_numerics := x5\<rparr>) = core c"
  by (simp_all add: core_def)

lemma grows_handle_cap: "grows_res ut cfg L c (chat_handle_cap ok c l ps)"
  unfolding chat_handle_cap_def Let_def
  by (intro grows_res_if; simp add: grows_send del: grows_res_simps)

lemma grows_numeric: "grows_res ut cfg L c (chat_numeric cfg' ok c code)"
  unfolding chat_numeric_def Let_def
  by (intro grows_res_if; simp add: grows_send del: grows_res_simps)

lemma chat_handle_grows: "grows_res ut cfg [line] c (chat_handle ut cfg ok c line)"
proof (cases "line = [] \<or> chat_work line = None")
  case True
  then show ?thesis by (auto simp: chat_handle_def)
next
  case False
  then obtain work where w: "line \<noteq> []" "chat_work line = Some work" by auto
  show ?thesis
    unfolding chat_handle_def w(2) option.case Let_def using w
    by (intro grows_res_if; simp add: grows_send grows_handle_cap grows_numeric;
        auto simp: chat_grows_def says_def joins_def intro: exI [of _ 0])
qed

lemma chat_grows_buf [simp]:
  "chat_grows ut cfg L (c\<lparr>ch_buf := x\<rparr>) d = chat_grows ut cfg L c d"
  "chat_grows ut cfg L c (d\<lparr>ch_buf := x\<rparr>) = chat_grows ut cfg L c d"
  by (simp_all add: chat_grows_def)

lemma chat_drain_grows:
  "chat_drain ut cfg ok c buf = Inr c' \<Longrightarrow>
   ch_buf c' = fst (drain_buf buf) \<and>
   chat_grows ut cfg (map utf8_decode (snd (drain_buf buf))) c c'"
proof (induction ut cfg ok c buf rule: chat_drain.induct)
  case (1 ut cfg ok c buf)
  show ?case
  proof (cases "find_sub buf crlf")
    case None
    then show ?thesis using "1.prems"
      by (auto simp: chat_drain.simps [of ut cfg ok c buf] drain_buf.simps [of buf])
  next
    case (Some i)
    let ?r = "drop (i + length crlf) buf" and ?l = "utf8_decode (take i buf)"
    obtain d where d: "chat_handle ut cfg ok (c\<lparr>ch_buf := ?r\<rparr>) ?l = Inr d"
      "chat_drain ut cfg ok d ?r = Inr c'"
      using "1.prems" Some
      by (auto simp: chat_drain.simps [of ut cfg ok c buf] Let_def split: sum.splits)
    have "chat_grows ut cfg [?l] c d"
      using chat_handle_grows [of ut cfg ?l "c\<lparr>ch_buf := ?r\<rparr>" ok] d(1) by simp
    moreover have "ch_buf c' = fst (drain_buf ?r)"
      "chat_grows ut cfg (map utf8_decode (snd (drain_buf ?r))) d c'"
      using "1.IH" [OF Some refl d(1) d(2)] by auto
    ultimately show ?thesis
      using chat_grows_trans [of ut cfg "[?l]" c d] Some
      by (simp add: drain_buf.simps [of buf] split: prod.split) (metis fst_conv snd_conv)
  qed
qed

lemma no_crlf_Nil: "\<not> contains_sub [] crlf"
  by (simp add: contains_sub_def crlf_def)

text \<open>One poll, as feeding what was received to the framer of the bot's read loop.\<close>

abbreviation "idle c \<equiv> ch_sock c \<and> \<not> contains_sub (ch_buf c) crlf"

lemma chat_poll_grows:
  assumes "chat_poll ut cfg ok c r = Inr c'" "idle c"
  shows "ch_buf c' = fst (recv_chunk (ch_buf c) (recv_bytes r)) \<and> idle c' \<and>
    chat_grows ut cfg (map utf8_decode (snd (recv_chunk (ch_buf c) (recv_bytes r)))) c c'"
proof -
  have e: "recv_chunk (ch_buf c) [] = (ch_buf c, [])"
    using assms(2) by (simp add: bot_recv.feed_empty)
  have n: "\<not> contains_sub (fst (recv_chunk (ch_buf c) x)) crlf" for x
    using assms(2) by (simp add: bot_recv.feed_rest)
  consider (none) "r = None \<or> r = Some RecvWait" | (fail) "r = Some RecvFail"
    | (eof) "r = Some (RecvData [])" | (data) d where "r = Some (RecvData d)" "d \<noteq> []"
    by (metis option.exhaust recv.exhaust)
  then show ?thesis
  proof cases
    case none
    then show ?thesis using assms e
      by (auto simp: chat_poll_def chat_pump_def recv_bytes_def)
  next
    case fail
    then show ?thesis using assms by (simp add: chat_poll_def chat_pump_def)
  next
    case eof
    then show ?thesis using assms e
      by (auto simp: chat_poll_def chat_pump_def recv_bytes_def chat_grows_def intro: exI [of _ 0])
  next
    case data
    then have "chat_drain ut cfg ok c (ch_buf c @ d) = Inr c'"
      using assms by (simp add: chat_poll_def chat_pump_def)
    from chat_drain_grows [OF this] data n [of d] assms(2) show ?thesis
      by (simp add: recv_bytes_def recv_chunk_def chat_grows_def)
  qed
qed

text \<open>What one client has gone through since it connected: the bytes \<open>s\<close> it received.\<close>

definition heard :: "unicode_tables \<Rightarrow> chat_config \<Rightarrow> string \<Rightarrow> chat \<Rightarrow> chat \<Rightarrow> bool" where
  "heard ut cfg s c c' =
     (idle c' \<and> ch_buf c' = fst (recv_chunk [] s) \<and>
      chat_grows ut cfg (map utf8_decode (snd (recv_chunk [] s))) c c')"

lemma heard_poll:
  assumes "heard ut cfg s c d" "chat_poll ut cfg ok d r = Inr e"
  shows "heard ut cfg (s @ recv_bytes r) c e"
proof -
  note bot_recv.feed_append [OF no_crlf_Nil, of s "recv_bytes r"]
  with assms chat_poll_grows [OF assms(2)] show ?thesis
    unfolding heard_def by (auto simp: Let_def intro: chat_grows_trans split: prod.splits)
qed

lemma heard_send:
  assumes "heard ut cfg s c d" "chat_send ok d l = Inr e"
  shows "heard ut cfg s c e"
proof -
  have g: "chat_grows ut cfg [] d e" "ch_buf e = ch_buf d"
    using grows_res_send [of d d ut cfg "[]" ok l] assms(2) by simp_all
  then have "ch_sock e = ch_sock d" by (simp add: chat_grows_def)
  moreover have "chat_grows ut cfg (map utf8_decode (snd (recv_chunk [] s)) @ []) c e"
    using assms(1) g(1) unfolding heard_def by (blast intro: chat_grows_trans)
  ultimately show ?thesis using assms(1) g(2) by (auto simp: heard_def)
qed

lemma wait_until_heard:
  assumes "wait_until ut cfg ok pred dl ts a b = (Inr v, a', b', ts')"
    and "heard ut cfg x a0 a" "heard ut cfg y b0 b"
  shows "\<exists>pre used. ts = pre @ ts' \<and> subseq used pre \<and> (v \<longrightarrow> pred a' b') \<and>
    heard ut cfg (x @ concat (map (\<lambda>t. recv_bytes (tn_a t)) used)) a0 a' \<and>
    heard ut cfg (y @ concat (map (\<lambda>t. recv_bytes (tn_b t)) used)) b0 b'"
  using assms
proof (induction ts arbitrary: a b x y)
  case Nil
  then show ?case by (intro exI [of _ "[]"]) auto
next
  case (Cons t ts)
  show ?case
  proof (cases "tn_now t < dl \<and> \<not> pred a b \<and> \<not> err_set a \<and> \<not> err_set b \<and> (ch_sock a \<or> ch_sock b)")
    case False
    with Cons.prems have "ts' = ts" "a' = a" "b' = b" "v \<longrightarrow> pred a b"
      by (auto split: if_splits)
    with Cons.prems(2,3) show ?thesis by (intro exI [of _ "[t]"] exI [of _ "[]"]) auto
  next
    case True
    with Cons.prems(1) obtain a1 b1 where s: "chat_poll ut cfg ok a (tn_a t) = Inr a1"
      "chat_poll ut cfg ok b (tn_b t) = Inr b1"
      "wait_until ut cfg ok pred dl ts a1 b1 = (Inr v, a', b', ts')"
      by (auto split: sum.splits prod.splits)
    from Cons.IH [OF s(3) heard_poll [OF Cons.prems(2) s(1)] heard_poll [OF Cons.prems(3) s(2)]]
    obtain pre used where "ts = pre @ ts'" "subseq used pre" "v \<longrightarrow> pred a' b'"
      "heard ut cfg (x @ concat (map (\<lambda>t. recv_bytes (tn_a t)) (t # used))) a0 a'"
      "heard ut cfg (y @ concat (map (\<lambda>t. recv_bytes (tn_b t)) (t # used))) b0 b'"
      by auto
    then show ?thesis by (intro exI [of _ "t # pre"] exI [of _ "t # used"]) auto
  qed
qed

lemma chat_connect_heard:
  assumes "chat_connect cfg' dial ok c = Inr d" "ch_buf c = []"
  shows "heard ut cfg [] (c\<lparr>ch_sock := True\<rparr>) d"
proof -
  have e: "recv_chunk [] [] = ([], [])"
    by (rule bot_recv.feed_empty [OF no_crlf_Nil])
  have "heard ut cfg [] (c\<lparr>ch_sock := True\<rparr>) (c\<lparr>ch_sock := True\<rparr>)"
    using assms(2) by (simp add: heard_def e contains_sub_def crlf_def)
  with assms(1) show ?thesis
    by (auto simp: chat_connect_def bind_res_def split: dial.splits sum.splits
        intro: heard_send [OF heard_send [OF heard_send]])
qed

text \<open>The complete lines of a client's stream.\<close>

definition server_lines :: "(turn \<Rightarrow> recv option) \<Rightarrow> turn list \<Rightarrow> pystr list" where
  "server_lines side used =
     map utf8_decode (snd (recv_chunk [] (concat (map (\<lambda>t. recv_bytes (side t)) used))))"

text \<open>What the passed test shows of one client: its own join was echoed, it heard \<open>theirs\<close>
  and it sent \<open>mine\<close>.\<close>

definition exchanged ::
  "unicode_tables \<Rightarrow> chat_config \<Rightarrow> pystr list \<Rightarrow> pystr \<Rightarrow> pystr \<Rightarrow> pystr \<Rightarrow> chat \<Rightarrow> bool" where
  "exchanged ut cfg lines nick mine theirs c =
     ((\<exists>l \<in> set lines. \<exists>k. joins ut cfg (nick @ replicate k 95) l) \<and>
      (\<exists>l \<in> set lines. \<exists>t. says l t \<and> contains_sub t theirs) \<and>
      u ''PRIVMSG '' @ cc_channel cfg @ u '' :'' @ mine \<in> set (ch_wire c))"

lemma heard_rebase: "heard ut cfg s c d \<Longrightarrow> heard ut cfg s d d"
  by (auto simp: heard_def)

lemma heard_lines_mono:
  "set (snd (recv_chunk [] s)) \<subseteq> set (snd (recv_chunk [] (s @ s')))"
  using bot_recv.feed_append [OF no_crlf_Nil, of s s'] by (auto simp: Let_def split: prod.splits)

text \<open>A wait keeps what is on the wires.\<close>

lemma wait_until_wire:
  assumes "wait_until ut cfg ok pred dl ts a b = (Inr v, a', b', ts')"
    and "heard ut cfg x a0 a" "heard ut cfg y b0 b"
  shows "set (ch_wire a) \<subseteq> set (ch_wire a')" "set (ch_wire b) \<subseteq> set (ch_wire b')"
  using wait_until_heard [OF assms(1) heard_rebase [OF assms(2)] heard_rebase [OF assms(3)]]
  by (auto simp: heard_def chat_grows_def)

lemma chat_send_wire: "chat_send ok c l = Inr d \<Longrightarrow> ch_wire d = ch_wire c @ [l]"
  by (auto simp: chat_send_def split: if_splits)

lemma session_zeroD:
  assumes "chat_session ut cfg dial ok dl sasl ma mb ts a b = (ChatExit 0, a', b')"
  obtains a1 b1 a2 b2 ts2 where "chat_connect cfg dial ok a = Inr a1" "chat_connect cfg dial ok b = Inr b1"
    "wait_until ut cfg ok (\<lambda>a b. ch_joined a \<and> ch_joined b) dl ts a1 b1 = (Inr True, a2, b2, ts2)"
    "chat_exchange ut cfg ok dl ma mb ts2 a2 b2 = (ChatExit 0, a', b')"
  using assms by (auto simp: chat_session_def split: sum.splits prod.splits bool.splits if_splits)

lemma exchange_zeroD:
  assumes "chat_exchange ut cfg ok dl ma mb ts a b = (ChatExit 0, a', b')"
  obtains a1 a2 b2 ts2 b3 ts3 where "send_privmsg cfg ok a ma = Inr a1"
    "wait_until ut cfg ok (\<lambda>_. saw ma) dl ts a1 b = (Inr True, a2, b2, ts2)"
    "send_privmsg cfg ok b2 mb = Inr b3"
    "wait_until ut cfg ok (\<lambda>a _. saw mb a) dl ts2 a2 b3 = (Inr True, a', b', ts3)"
  using assms by (auto simp: chat_exchange_def split: sum.splits prod.splits bool.splits)

lemma heard_saw:
  assumes "heard ut cfg s c d" "saw m d" "ch_seen_privmsgs c = []"
  shows "\<exists>l \<in> set (map utf8_decode (snd (recv_chunk [] s))). \<exists>t. says l t \<and> contains_sub t m"
  using assms unfolding heard_def chat_grows_def saw_def list_ex_iff by fastforce

lemma heard_joined:
  assumes "heard ut cfg s c d" "ch_joined d" "\<not> ch_joined c"
  shows "\<exists>l \<in> set (map utf8_decode (snd (recv_chunk [] s))). \<exists>k. joins ut cfg (ch_nick c @ replicate k 95) l"
  using assms unfolding heard_def chat_grows_def by blast

lemma chat_session_zero:
  assumes s: "chat_session ut cfg dial ok dl sasl ma mb ts a b = (ChatExit 0, a', b')"
    and fresh: "ch_buf a = []" "ch_buf b = []" "\<not> ch_joined a" "\<not> ch_joined b"
      "ch_seen_privmsgs a = []" "ch_seen_privmsgs b = []"
  shows "\<exists>used. subseq used ts \<and> exchanged ut cfg (server_lines tn_a used) (ch_nick a) ma mb a' \<and>
    exchanged ut cfg (server_lines tn_b used) (ch_nick b) mb ma b'"
proof -
  let ?A = "\<lambda>us. concat (map (\<lambda>t. recv_bytes (tn_a t)) us)"
  let ?B = "\<lambda>us. concat (map (\<lambda>t. recv_bytes (tn_b t)) us)"
  let ?a = "a\<lparr>ch_sock := True\<rparr>" and ?b = "b\<lparr>ch_sock := True\<rparr>"
  obtain a1 b1 a2 b2 t2 a3 a4 b4 t4 b5 t6 where
    c: "chat_connect cfg dial ok a = Inr a1" "chat_connect cfg dial ok b = Inr b1" and
    w1: "wait_until ut cfg ok (\<lambda>a b. ch_joined a \<and> ch_joined b) dl ts a1 b1 = (Inr True, a2, b2, t2)" and
    pa: "chat_send ok a2 (u ''PRIVMSG '' @ cc_channel cfg @ u '' :'' @ ma) = Inr a3" and
    w2: "wait_until ut cfg ok (\<lambda>_. saw ma) dl t2 a3 b2 = (Inr True, a4, b4, t4)" and
    pb: "chat_send ok b4 (u ''PRIVMSG '' @ cc_channel cfg @ u '' :'' @ mb) = Inr b5" and
    w3: "wait_until ut cfg ok (\<lambda>a _. saw mb a) dl t4 a4 b5 = (Inr True, a', b', t6)"
    by (rule session_zeroD [OF s], erule exchange_zeroD) (auto simp: send_privmsg_def)
  obtain p1 u1 where 1: "ts = p1 @ t2" "subseq u1 p1" "ch_joined a2" "ch_joined b2"
      "heard ut cfg (?A u1) ?a a2" "heard ut cfg (?B u1) ?b b2"
    using wait_until_heard [OF w1 chat_connect_heard [OF c(1) fresh(1)]
        chat_connect_heard [OF c(2) fresh(2)]] by auto
  obtain p2 u2 where 2: "t2 = p2 @ t4" "subseq u2 p2" "saw ma b4"
      "heard ut cfg (?A (u1 @ u2)) ?a a4" "heard ut cfg (?B (u1 @ u2)) ?b b4"
    using wait_until_heard [OF w2 heard_send [OF 1(5) pa] 1(6)] by auto
  obtain p3 u3 where 3: "t4 = p3 @ t6" "subseq u3 p3" "saw mb a'"
      "heard ut cfg (?A (u1 @ u2 @ u3)) ?a a'" "heard ut cfg (?B (u1 @ u2 @ u3)) ?b b'"
    using wait_until_heard [OF w3 2(4) heard_send [OF 2(5) pb]] by auto
  have sub: "subseq (u1 @ u2 @ u3) ts"
    using 1(1,2) 2(1,2) 3(1,2) by (metis append_Nil2 list_emb_append_mono list_emb_Nil)
  have wa: "u ''PRIVMSG '' @ cc_channel cfg @ u '' :'' @ ma \<in> set (ch_wire a')"
    using chat_send_wire [OF pa] wait_until_wire(1) [OF w2 heard_send [OF 1(5) pa] 1(6)]
      wait_until_wire(1) [OF w3 2(4) heard_send [OF 2(5) pb]] by auto
  have wb: "u ''PRIVMSG '' @ cc_channel cfg @ u '' :'' @ mb \<in> set (ch_wire b')"
    using chat_send_wire [OF pb] wait_until_wire(2) [OF w3 2(4) heard_send [OF 2(5) pb]] by auto
  have "\<exists>l \<in> set (server_lines tn_a (u1 @ u2 @ u3)). \<exists>k. joins ut cfg (ch_nick a @ replicate k 95) l"
    "\<exists>l \<in> set (server_lines tn_b (u1 @ u2 @ u3)). \<exists>k. joins ut cfg (ch_nick b @ replicate k 95) l"
    using heard_joined [OF 1(5,3)] heard_joined [OF 1(6,4)] fresh(3,4)
      heard_lines_mono [of "?A u1" "?A (u2 @ u3)"] heard_lines_mono [of "?B u1" "?B (u2 @ u3)"]
    by (auto simp: server_lines_def)
  moreover have "\<exists>l \<in> set (server_lines tn_b (u1 @ u2 @ u3)). \<exists>t. says l t \<and> contains_sub t ma"
    using heard_saw [OF 2(5,3)] fresh(6) heard_lines_mono [of "?B (u1 @ u2)" "?B u3"]
    by (auto simp: server_lines_def)
  moreover have "\<exists>l \<in> set (server_lines tn_a (u1 @ u2 @ u3)). \<exists>t. says l t \<and> contains_sub t mb"
    using heard_saw [OF 3(4,3)] fresh(5) by (auto simp: server_lines_def)
  ultimately show ?thesis
    using sub wa wb unfolding exchanged_def by blast
qed

text \<open>C8: An exit status of zero means the exchange happened. Each client received, in the
  stream of bytes its server sent while the loop was reading, a complete line that echoes its
  own join of the channel (under its nick, with an underscore per collision) and a complete
  \<open>PRIVMSG\<close> line whose text contains the other client's tagged message, and each had put its
  own tagged message for the channel on its socket.\<close>

theorem chat_exit_zero_sound:
  assumes "chat_main ut env cfg dial ok t0 tag ts argv = (ChatExit 0, Some (a, b))"
  shows "\<exists>used. subseq used ts \<and>
    exchanged ut cfg (server_lines tn_a used) (u ''mcs'' @ take 6 tag @ u ''a'')
      (u ''mesh-chat-smoke A->'' @ tag) (u ''mesh-chat-smoke B->'' @ tag) a \<and>
    exchanged ut cfg (server_lines tn_b used) (u ''mcs'' @ take 6 tag @ u ''b'')
      (u ''mesh-chat-smoke B->'' @ tag) (u ''mesh-chat-smoke A->'' @ tag) b"
proof -
  have close: "set (ch_wire c) \<subseteq> set (ch_wire (chat_close ok c))" for c
    by (auto simp: chat_close_def chat_send_def)
  obtain sasl dl a0 b0 a' b' where
    s: "chat_session ut cfg dial ok dl sasl (u ''mesh-chat-smoke A->'' @ tag)
      (u ''mesh-chat-smoke B->'' @ tag) ts a0 b0 = (ChatExit 0, a', b')"
    and ab: "a = chat_close ok a'" "b = chat_close ok b'"
    and fresh: "ch_buf a0 = []" "ch_buf b0 = []" "\<not> ch_joined a0" "\<not> ch_joined b0"
      "ch_seen_privmsgs a0 = []" "ch_seen_privmsgs b0 = []"
    and nicks: "ch_nick a0 = u ''mcs'' @ take 6 tag @ u ''a''" "ch_nick b0 = u ''mcs'' @ take 6 tag @ u ''b''"
    using assms
    by (auto simp: chat_main_def Let_def IrcClient_def split: prod.splits sum.splits if_splits)
  show ?thesis
    using chat_session_zero [OF s fresh] close unfolding ab nicks exchanged_def by blast
qed

section \<open>Tagged lines\<close>

text \<open>C32: A message tag is never stripped: the first test removes only the \<open>@\<close>, so the second no
  longer sees a tagged line. Any tagged line that carries a source prefix, such as a
  \<open>PRIVMSG\<close> with \<open>server-time\<close>, leaves the client unchanged. A lone \<open>@\<close> word raises.\<close>

theorem tagged_line_ignored:
  assumes "tags \<noteq> []" "hd tags \<noteq> 64" "list_all (\<lambda>x. \<not> uspace x) tags" "tags \<noteq> u ''PING''"
  shows "chat_handle ut cfg ok c (u ''@'' @ tags @ u '' :'' @ rest) = Inr c \<and>
    chat_handle ut cfg ok c (u ''@'' @ tags) = Inl (ChatIndex, c)"
proof -
  have sp: "uspace 32" "\<not> uspace 58" by (simp_all add: uspace_def)
  then have ns: "32 \<notin> set tags" using assms(3) by (auto simp: list_all_iff)
  have w: "chat_work (u ''@'' @ tags @ u '' :'' @ rest) = Some (tags @ 32 # 58 # rest)"
  proof -
    have "contains_sub ((64 # tags) @ [32] @ 58 # rest) [32]"
      unfolding contains_sub_iff by blast
    moreover have "\<not> startswith (tags @ 32 # 58 # rest) [64]"
      using assms(1,2) by (cases tags) (simp_all add: startswith_def)
    ultimately show ?thesis
      by (simp add: chat_work_def u_def startswith_def [of "64 # tags @ 32 # 58 # rest"])
  qed
  have "str_split (tags @ 32 # 58 # rest) = tags # split_ws uspace (58 # rest)"
    unfolding str_split_def using assms(1,3)
    by (intro split_ws_word) (simp_all add: list_all_iff sp)
  moreover obtain w1 ws where "split_ws uspace (58 # rest) = (58 # w1) # ws"
    using sp by (simp add: split_ws.simps [of uspace "58 # rest"])
  ultimately have p: "str_split (tags @ 32 # 58 # rest) = tags # (58 # w1) # ws" by simp
  have ne: "58 # w1 \<noteq> u ''PING''" "58 # w1 \<noteq> u ''+''" "58 # w1 \<noteq> u ''CAP''" "58 # w1 \<noteq> u ''JOIN''"
    "58 # w1 \<noteq> u ''PRIVMSG''" "\<not> py_isdigit ut (58 # w1)"
    by (simp_all add: u_def py_isdigit_def)
  have "chat_handle ut cfg ok c (u ''@'' @ tags @ u '' :'' @ rest) = Inr c"
    unfolding chat_handle_def w option.case Let_def p using assms(4) ne by simp
  moreover have "find_sub (u ''@'' @ tags) (u '' '') = None"
    using find_sub_char_None [of 32 "u ''@'' @ tags"] ns by (simp add: u_def)
  then have "chat_work (u ''@'' @ tags) = None"
    by (simp add: chat_work_def Let_def contains_sub_def split1_def u_def startswith_def)
  then have "chat_handle ut cfg ok c (u ''@'' @ tags) = Inl (ChatIndex, c)"
    by (simp add: chat_handle_def u_def)
  ultimately show ?thesis by blast
qed

section \<open>A passing run\<close>

definition demo_tables :: unicode_tables where
  "demo_tables = \<lparr>ut_lower = str_lower, ut_digit = (\<lambda>_. False), ut_decimal = (\<lambda>_. None)\<rparr>"

definition demo_chat_cfg :: chat_config where
  "demo_chat_cfg = \<lparr>cc_channel = u ''#r'', cc_timeout = 100, cc_insecure_tls = True,
     cc_sasl_user = [], cc_sasl_pass = [], cc_allow_guest = False, cc_require_sasl = False\<rparr>"

definition demo_data :: "string list \<Rightarrow> recv option" where
  "demo_data ls = Some (RecvData (concat (map (\<lambda>l. l @ crlf) ls)))"

definition demo_turns :: "turn list" where
  "demo_turns =
     [\<lparr>tn_now = 1, tn_a = demo_data ['':s CAP * LS :x'', '':s 001 m :hi'', '':mcsta!x JOIN #r''],
       tn_b = demo_data ['':s 001 m :hi'', '':MCSTB JOIN :#R'']\<rparr>,
      \<lparr>tn_now = 2, tn_a = None, tn_b = None\<rparr>,
      \<lparr>tn_now = 3, tn_a = None, tn_b = demo_data ['':a PRIVMSG #r :mesh-chat-smoke A->t'']\<rparr>,
      \<lparr>tn_now = 4, tn_a = None, tn_b = None\<rparr>,
      \<lparr>tn_now = 5, tn_a = demo_data ['':b PRIVMSG #r :mesh-chat-smoke B->t''], tn_b = None\<rparr>]"

definition demo_chat :: "chat_exit \<times> (chat \<times> chat) option" where
  "demo_chat = chat_main demo_tables (\<lambda>_. None) demo_chat_cfg (\<lambda>_ _ _ _. DialUp) (\<lambda>_ _. True) 0
     (u ''t'') demo_turns [u ''x'', u ''b:1'']"

lemma demo_chat_passes: "fst demo_chat = ChatExit 0 \<and> snd demo_chat \<noteq> None"
  by code_simp

lemma demo_chat_result: "\<exists>a b. demo_chat = (ChatExit 0, Some (a, b))"
  using demo_chat_passes by (metis option.exhaust prod.exhaust_sel)

theorem chat_exit_zero_sound_witness:
  "\<exists>a b used. demo_chat = (ChatExit 0, Some (a, b)) \<and> subseq used demo_turns \<and>
    exchanged demo_tables demo_chat_cfg (server_lines tn_a used) (u ''mcsta'')
      (u ''mesh-chat-smoke A->t'') (u ''mesh-chat-smoke B->t'') a \<and>
    exchanged demo_tables demo_chat_cfg (server_lines tn_b used) (u ''mcstb'')
      (u ''mesh-chat-smoke B->t'') (u ''mesh-chat-smoke A->t'') b"
proof -
  obtain a b where d: "demo_chat = (ChatExit 0, Some (a, b))" using demo_chat_result by blast
  have "\<exists>used. subseq used demo_turns \<and>
    exchanged demo_tables demo_chat_cfg (server_lines tn_a used) (u ''mcs'' @ take 6 (u ''t'') @ u ''a'')
      (u ''mesh-chat-smoke A->'' @ u ''t'') (u ''mesh-chat-smoke B->'' @ u ''t'') a \<and>
    exchanged demo_tables demo_chat_cfg (server_lines tn_b used) (u ''mcs'' @ take 6 (u ''t'') @ u ''b'')
      (u ''mesh-chat-smoke B->'' @ u ''t'') (u ''mesh-chat-smoke A->'' @ u ''t'') b"
    by (rule chat_exit_zero_sound [OF d [unfolded demo_chat_def]])
  then show ?thesis using d by (simp add: u_def) blast
qed

theorem chat_negotiation_safe_witness:
  "\<exists>a b. demo_chat = (ChatExit 0, Some (a, b)) \<and>
     count_list (ch_wire a) (u ''CAP END'') \<le> 1 \<and>
     list_all (\<lambda>l. \<not> startswith l (u ''AUTHENTICATE'')) (ch_wire a)"
proof -
  obtain a b where d: "demo_chat = (ChatExit 0, Some (a, b))" using demo_chat_result by blast
  have "cc_sasl_user demo_chat_cfg = []" by (simp add: demo_chat_cfg_def)
  with chat_negotiation_safe [OF d [unfolded demo_chat_def], of a] d show ?thesis
    by (auto simp: list_all_iff)
qed

theorem tagged_line_ignored_witness:
  "let c = IrcClient (u ''A'') (u ''h'', 1, False) (u ''n'') [] [] False;
       l = u ''@time=1 :a!b@c PRIVMSG #r :hello'' in
   chat_handle demo_tables demo_chat_cfg (\<lambda>_ _. True) c l = Inr c \<and>
   says (drop 8 l) (u ''hello'')"
proof -
  have "chat_handle demo_tables demo_chat_cfg (\<lambda>_ _. True)
      (IrcClient (u ''A'') (u ''h'', 1, False) (u ''n'') [] [] False)
      (u ''@'' @ u ''time=1'' @ u '' :'' @ u ''a!b@c PRIVMSG #r :hello'') =
    Inr (IrcClient (u ''A'') (u ''h'', 1, False) (u ''n'') [] [] False)"
    by (rule tagged_line_ignored [THEN conjunct1]) (simp_all add: u_def uspace_def)
  moreover have "u ''@'' @ u ''time=1'' @ u '' :'' @ u ''a!b@c PRIVMSG #r :hello'' =
      u ''@time=1 :a!b@c PRIVMSG #r :hello''" by (simp add: u_def)
  moreover have "says (drop 8 (u ''@time=1 :a!b@c PRIVMSG #r :hello'')) (u ''hello'')"
    by code_simp
  ultimately show ?thesis unfolding Let_def by simp
qed

section \<open>A server without capabilities\<close>




section \<open>Endpoints\<close>

lemma strip_by_noop: "s \<noteq> [] \<Longrightarrow> \<not> P (hd s) \<Longrightarrow> \<not> P (last s) \<Longrightarrow> strip_by P s = s"
proof -
  assume s: "s \<noteq> []" "\<not> P (hd s)" "\<not> P (last s)"
  have "dropWhile P s = s" using s by (cases s) auto
  moreover have "dropWhile P (rev s) = rev s" using s by (cases s rule: rev_cases) auto
  ultimately show ?thesis by (simp add: strip_by_def rstrip_by_def)
qed

lemma str_nat_digit: "c \<in> set (str_nat n) \<Longrightarrow> 48 \<le> c \<and> c \<le> 57"
  by (auto simp: str_nat_def dest: digits10_small)

lemma str_nat_not_Nil [simp]: "str_nat n \<noteq> []"
  by (simp add: str_nat_def)

lemma digit_not_space: "48 \<le> c \<and> c \<le> 57 \<Longrightarrow> \<not> uspace c"
  by (simp add: uspace_def)

lemma str_nat_ends: "\<not> uspace (hd (str_nat n))" "\<not> uspace (last (str_nat n))"
  using digit_not_space str_nat_digit str_nat_not_Nil by (metis hd_in_set, metis last_in_set)

lemma py_int_str_nat: "py_int ut (str_nat n) = Some (int n)"
proof -
  have s: "strip_by uspace (str_nat n) = str_nat n"
    by (rule strip_by_noop) (simp_all add: str_nat_ends)
  obtain c t where c: "str_nat n = c # t" by (cases "str_nat n") auto
  then have "48 \<le> c" using str_nat_digit [of c n] by simp
  moreover have "int_digits (\<lambda>c. if c < 128 then udigit c else ut_decimal ut c) 95 0 False (str_nat n) = Some n"
    unfolding str_nat_def by (rule int_digits_show) (simp add: udigit_def)
  ultimately show ?thesis
    using c s by (simp add: py_int_def int_of_def del: int_digits.simps)
qed

text \<open>A host and port written \<open>host:port\<close> or \<open>[address]:port\<close> parse back to the same host and
  port, whatever colons the host contains.\<close>

theorem endpoint_roundtrip:
  assumes "host \<noteq> []" "\<not> uspace (hd host)" "hd host \<noteq> 91" "93 \<notin> set host"
  shows "parse_endpoint ut (host @ u '':'' @ str_nat port) = Inr (host, int port) \<and>
    parse_endpoint ut (u ''['' @ host @ u '']:'' @ str_nat port) = Inr (host, int port)"
proof -
  have nc: "58 \<notin> set (str_nat port)" using str_nat_digit by fastforce
  have s1: "str_strip (host @ 58 # str_nat port) = host @ 58 # str_nat port"
    unfolding str_strip_def using assms by (intro strip_by_noop) (simp_all add: str_nat_ends)
  have s2: "str_strip (91 # host @ 93 # 58 # str_nat port) = 91 # host @ 93 # 58 # str_nat port"
    unfolding str_strip_def by (intro strip_by_noop) (simp_all add: str_nat_ends, simp add: uspace_def)
  have "contains_sub (host @ [58] @ str_nat port) [58]" unfolding contains_sub_iff by blast
  moreover have "\<not> startswith (host @ 58 # str_nat port) [91]"
    using assms(1,3) by (cases host) (simp_all add: startswith_def)
  ultimately have 1: "parse_endpoint ut (host @ u '':'' @ str_nat port) = Inr (host, int port)"
    using assms(1) nc
    by (simp add: parse_endpoint_def u_def s1 Let_def rpartition_colon_def rfind_sub_char with_port_def
        py_int_str_nat)
  have "find_sub (host @ [93, 58] @ str_nat port) [93, 58] = Some (length host)"
  proof (rule find_sub_skip)
    fix i assume "i < length host"
    then show "\<not> startswith (drop i host @ [93, 58] @ str_nat port) [93, 58]"
      using assms(4) by (metis Cons_nth_drop_Suc append_Cons list.inject nth_mem startswith_iff)
  qed
  then have 2: "parse_endpoint ut (u ''['' @ host @ u '']:'' @ str_nat port) = Inr (host, int port)"
    by (simp add: parse_endpoint_def u_def s2 Let_def startswith_def partition_sub_def with_port_def
        py_int_str_nat)
  show ?thesis using 1 2 ..
qed

theorem endpoint_roundtrip_witness:
  "parse_endpoint demo_tables (u ''::1'' @ u '':'' @ str_nat 6697) = Inr (u ''::1'', 6697) \<and>
   parse_endpoint demo_tables (u ''['' @ u ''::1'' @ u '']:'' @ str_nat 6697) = Inr (u ''::1'', 6697)"
  using endpoint_roundtrip [of "u ''::1''" demo_tables 6697] by (simp add: u_def uspace_def)

end
