(* ===== verification/Mesh_Health.thy ===== *)
theory Mesh_Health
  imports Bot_Project PyRegex
begin

text \<open>
  The post-deploy health check, \<open>src/tools/mesh_health_smoke.py\<close>: the gauges of each node's
  metrics page are read and judged. \<open>http\<close> is the page of a URL (\<open>None\<close> when the fetch raises one
  of the errors the code catches), \<open>run\<close> the outcome of the \<open>ssh\<close> subprocess, \<open>split\<close> is
  \<open>shlex.split\<close> of the extra options, \<open>to_float\<close> is \<open>float\<close> (for both, \<open>None\<close> is a \<open>ValueError\<close>, which
  nothing catches). Gauge values are only compared with 0 and 1, so their type is any ordered ring.
\<close>

section \<open>Gauges\<close>

definition LINKS :: pystr where "LINKS = u ''onyx_s2s_links_active''"
definition TCP :: pystr where "TCP = u ''onyx_s2s_tcp_active''"
definition PEERS_UP :: pystr where "PEERS_UP = u ''onyx_mesh_peers_up''"
definition PARTITIONED :: pystr where "PARTITIONED = u ''onyx_mesh_partitioned''"

definition GAUGES :: "pystr list" where
  "GAUGES = [LINKS, TCP, PEERS_UP, u ''onyx_mesh_peers_total'', PARTITIONED, u ''onyx_mesh_quorum'']"

definition eol_m :: "nat re" where
  "eol_m = Look (\<lambda>_ s. s = [] \<or> hd s = 10)"

definition number_char :: "nat \<Rightarrow> bool" where
  "number_char c = (adigit c \<or> c \<in> set (u ''.eE+-''))"

definition gauge_re :: "pystr \<Rightarrow> nat re" where
  "gauge_re name = seqs [bol_m 10, lit name, plus (Chr uspace), Cap 1 (plus (Chr number_char)),
     Star (Chr uspace), eol_m]"

fun parse_gauges_from ::
  "(pystr \<Rightarrow> 'f option) \<Rightarrow> pystr \<Rightarrow> pystr list \<Rightarrow> (pystr \<rightharpoonup> 'f) \<Rightarrow> (pystr \<rightharpoonup> 'f) option" where
  "parse_gauges_from to_float txt [] out = Some out"
| "parse_gauges_from to_float txt (n # ns) out =
     (case re_search (gauge_re n) txt of
        None \<Rightarrow> parse_gauges_from to_float txt ns out
      | Some g \<Rightarrow>
          (case to_float (grp g 1) of
             None \<Rightarrow> None
           | Some v \<Rightarrow> parse_gauges_from to_float txt ns (out(n \<mapsto> v))))"

definition parse_gauges :: "(pystr \<Rightarrow> 'f option) \<Rightarrow> pystr \<Rightarrow> (pystr \<rightharpoonup> 'f) option" where
  "parse_gauges to_float txt = parse_gauges_from to_float txt GAUGES Map.empty"

definition gauge_or :: "(pystr \<rightharpoonup> 'f) \<Rightarrow> pystr \<Rightarrow> 'f \<Rightarrow> 'f" where
  "gauge_or g n d = (case g n of Some v \<Rightarrow> v | None \<Rightarrow> d)"

definition check_gauges :: "(pystr \<rightharpoonup> 'f :: linordered_idom) \<Rightarrow> bool" where
  "check_gauges g =
     (if g LINKS = None
      then gauge_or g PEERS_UP 0 \<ge> 1 \<and> gauge_or g PARTITIONED 1 = 0
      else
        let links = gauge_or g LINKS 0; peers = gauge_or g PEERS_UP 0;
            part = gauge_or g PARTITIONED 1; tcp = g TCP
        in
        if part \<noteq> 0 then False
        else if links < 1 \<and> peers < 1 then False
        else if links < 1 \<and> peers \<ge> 1 \<and> tcp \<noteq> None then False
        else True)"

section \<open>Nodes\<close>

definition check_body :: "(pystr \<Rightarrow> 'f :: linordered_idom option) \<Rightarrow> pystr option \<Rightarrow> bool option" where
  "check_body to_float body =
     (case body of
        None \<Rightarrow> Some False
      | Some txt \<Rightarrow> map_option check_gauges (parse_gauges to_float txt))"

definition check_node ::
  "(pystr \<Rightarrow> 'f :: linordered_idom option) \<Rightarrow> (pystr \<Rightarrow> pystr option) \<Rightarrow> pystr \<Rightarrow> bool option" where
  "check_node to_float http url = check_body to_float (http url)"

datatype ssh_result = SshMissing | SshTimeout | SshDone int pystr

definition ssh_command ::
  "(pystr \<rightharpoonup> pystr) \<Rightarrow> pystr list \<Rightarrow> pystr \<Rightarrow> pystr \<Rightarrow> pystr list" where
  "ssh_command env extra peer url =
     (let ssh_bin = (case env (u ''MESH_SSH_BIN'') of Some v \<Rightarrow> v | None \<Rightarrow> u ''ssh'')
      in [ssh_bin, u ''-o'', u ''BatchMode=yes'', u ''-o'', u ''ConnectTimeout=8''] @ extra @
         [peer, u ''curl -fsS --max-time 5 '' @ shlex_quote url])"

text \<open>The inner \<open>None\<close> is the \<open>OSError\<close> the caller reports, the outer one the \<open>ValueError\<close> of
  \<open>shlex.split\<close>.\<close>

definition fetch_ssh ::
  "(pystr \<rightharpoonup> pystr) \<Rightarrow> (pystr \<Rightarrow> pystr list option) \<Rightarrow> (pystr list \<Rightarrow> ssh_result) \<Rightarrow> pystr \<Rightarrow> pystr \<Rightarrow>
    pystr option option" where
  "fetch_ssh env split run peer url =
     (case split (case env (u ''MESH_SSH_OPTS'') of Some v \<Rightarrow> v | None \<Rightarrow> []) of
        None \<Rightarrow> None
      | Some extra \<Rightarrow>
          (case run (ssh_command env extra peer url) of
             SshDone code out \<Rightarrow> Some (if code \<noteq> 0 then None else Some out)
           | _ \<Rightarrow> Some None))"

definition metrics_url :: "(pystr \<rightharpoonup> pystr) \<Rightarrow> pystr" where
  "metrics_url env = (case env (u ''MESH_SSH_METRICS_URL'') of
     Some v \<Rightarrow> v | None \<Rightarrow> u ''http://127.0.0.1:9130/metrics'')"

definition check_ssh_peer ::
  "(pystr \<Rightarrow> 'f :: linordered_idom option) \<Rightarrow> (pystr \<rightharpoonup> pystr) \<Rightarrow> (pystr \<Rightarrow> pystr list option) \<Rightarrow>
    (pystr list \<Rightarrow> ssh_result) \<Rightarrow> pystr \<Rightarrow> bool option" where
  "check_ssh_peer to_float env split run peer =
     (case fetch_ssh env split run peer (metrics_url env) of
        None \<Rightarrow> None
      | Some body \<Rightarrow> check_body to_float body)"

fun check_all :: "(pystr \<Rightarrow> bool option) \<Rightarrow> bool \<Rightarrow> pystr list \<Rightarrow> bool option" where
  "check_all check ok [] = Some ok"
| "check_all check ok (url # urls) =
     (case check url of None \<Rightarrow> None | Some b \<Rightarrow> check_all check (ok \<and> b) urls)"

text \<open>\<open>main\<close>: the exit code, \<open>None\<close> for an uncaught \<open>ValueError\<close>.\<close>

definition health_main ::
  "(pystr \<Rightarrow> 'f :: linordered_idom option) \<Rightarrow> (pystr \<Rightarrow> pystr option) \<Rightarrow> (pystr \<rightharpoonup> pystr) \<Rightarrow>
    (pystr \<Rightarrow> pystr list option) \<Rightarrow> (pystr list \<Rightarrow> ssh_result) \<Rightarrow> pystr list \<Rightarrow> int option" where
  "health_main to_float http env split run argv =
     (let ssh_peer = str_strip (case env (u ''MESH_SSH_PEER'') of Some v \<Rightarrow> v | None \<Rightarrow> []);
          urls = tl argv
      in
      if urls = [] \<and> ssh_peer = [] then Some 2
      else case check_all (check_node to_float http) True urls of
        None \<Rightarrow> None
      | Some ok \<Rightarrow>
          (case (if ssh_peer \<noteq> [] then map_option (\<lambda>b. ok \<and> b) (check_ssh_peer to_float env split run ssh_peer)
                 else Some ok) of
             None \<Rightarrow> None
           | Some ok_all \<Rightarrow> Some (if ok_all then 0 else 1)))"

section \<open>What a found gauge is\<close>

text \<open>A line of the page that reports a gauge: its name, white space, the number, white space to
  the end of a line.\<close>

definition gauge_line :: "pystr \<Rightarrow> pystr \<Rightarrow> pystr \<Rightarrow> bool" where
  "gauge_line name num txt =
     (\<exists>pre sp1 sp2 post. txt = pre @ name @ sp1 @ num @ sp2 @ post \<and> (pre = [] \<or> last pre = 10) \<and>
        sp1 \<noteq> [] \<and> list_all uspace sp1 \<and> num \<noteq> [] \<and> list_all number_char num \<and>
        list_all uspace sp2 \<and> (post = [] \<or> hd post = 10))"

fun no_cap :: "'c re \<Rightarrow> bool" where
  "no_cap (Cap _ _) = False"
| "no_cap (Seq a b) = (no_cap a \<and> no_cap b)"
| "no_cap (Alt a b) = (no_cap a \<and> no_cap b)"
| "no_cap (Star a) = no_cap a"
| "no_cap _ = True"

lemma rm_no_cap: "(g, q, t) \<in> set (rm r p s) \<Longrightarrow> no_cap r \<Longrightarrow> g = []"
proof (induction r p s arbitrary: g q t rule: rm.induct)
  case (2 f p s)
  then show ?case by (cases s) (auto split: if_splits)
next
  case (3 a b p s)
  then obtain g' q' t' h where m: "(g', q', t') \<in> set (rm a p s)" "length t' \<le> length s"
    "(h, q, t) \<in> set (rm b q' t')" "g = g' @ h"
    unfolding rm_Seq_iff by blast
  show ?case using "3.IH"(1) [OF m(1)] "3.IH"(2) [OF m(1) refl refl m(2,3)] "3.prems"(2) m(4) by simp
next
  case (5 a p s)
  then consider "g = []" | g' q' t' h where "(g', q', t') \<in> set (rm a p s)" "length t' < length s"
    "(h, q, t) \<in> set (rm (Star a) q' t')" "g = g' @ h"
    using rm_Star_iff [of g q t a p s] by blast
  then show ?case
  proof cases
    case 2
    show ?thesis using "5.IH"(1) [OF 2(1)] "5.IH"(2) [OF 2(1) refl refl 2(2,3)] "5.prems"(2) 2(4) by simp
  qed
qed (auto split: if_splits)

lemma re_search_from_Some:
  "re_search_from r p s = Some g \<Longrightarrow>
   \<exists>x v q t. s = x @ v \<and> (g, q, t) \<in> set (rm r (if x = [] then p else Some (last x)) v)"
proof (induction s arbitrary: p)
  case Nil
  then show ?case by (cases "rm r p []") auto
next
  case (Cons c s)
  show ?case
  proof (cases "rm r p (c # s)")
    case (Cons m ms)
    then show ?thesis using Cons.prems
      by (intro exI [of _ "[]"] exI [of _ "c # s"]) (cases m, auto)
  next
    case Nil
    then have "re_search_from r (Some c) s = Some g" using Cons.prems by simp
    from Cons.IH [OF this] obtain x v q t where "s = x @ v"
      "(g, q, t) \<in> set (rm r (if x = [] then Some c else Some (last x)) v)" by blast
    then show ?thesis
      by (intro exI [of _ "c # x"] exI [of _ v] exI [of _ q] exI [of _ t]) (auto split: if_splits)
  qed
qed

lemma no_cap_lit [simp]: "no_cap (lit s)"
  by (induction s) auto

lemma rm_plain_text: "(g, q, t) \<in> set (rm r p s) \<Longrightarrow> plain r \<Longrightarrow> no_cap r \<Longrightarrow>
    g = [] \<and> (\<exists>x. s = x @ t \<and> in_lang r x)"
  using rm_no_cap rm_in_lang by blast

lemma in_lang_plus_chr: "in_lang (plus (Chr f)) x \<longleftrightarrow> x \<noteq> [] \<and> list_all f x"
  unfolding plus_def by (cases x) (auto, metis append_Cons append_Nil)

lemma gauge_re_found:
  assumes "re_search (gauge_re n) txt = Some g"
  shows "gauge_line n (grp g 1) txt"
proof -
  obtain x v q t where x: "txt = x @ v"
    "(g, q, t) \<in> set (rm (gauge_re n) (if x = [] then None else Some (last x)) v)"
    using re_search_from_Some [OF assms [unfolded re_search_def]] by blast
  from x(2) obtain g1 q1 t1 h1 where
    s1: "(g1, q1, t1) \<in> set (rm (bol_m 10) (if x = [] then None else Some (last x)) v)"
    "(h1, q, t) \<in> set (rm (Seq (lit n) (Seq (plus (Chr uspace)) (Seq (Cap 1 (plus (Chr number_char)))
      (Seq (Star (Chr uspace)) eol_m)))) q1 t1)" "g = g1 @ h1"
    unfolding gauge_re_def seqs.simps list.case rm_Seq_iff [of _ _ _ "bol_m 10"] by blast
  from s1(2) obtain g2 q2 t2 h2 where s2: "(g2, q2, t2) \<in> set (rm (lit n) q1 t1)"
    "(h2, q, t) \<in> set (rm (Seq (plus (Chr uspace)) (Seq (Cap 1 (plus (Chr number_char)))
      (Seq (Star (Chr uspace)) eol_m))) q2 t2)" "h1 = g2 @ h2"
    unfolding rm_Seq_iff [of _ _ _ "lit n"] by blast
  from s2(2) obtain g3 q3 t3 h3 where s3: "(g3, q3, t3) \<in> set (rm (plus (Chr uspace)) q2 t2)"
    "(h3, q, t) \<in> set (rm (Seq (Cap 1 (plus (Chr number_char))) (Seq (Star (Chr uspace)) eol_m)) q3 t3)"
    "h2 = g3 @ h3"
    unfolding rm_Seq_iff [of _ _ _ "plus (Chr uspace)"] by blast
  from s3(2) obtain g4 q4 t4 h4 where s4: "(g4, q4, t4) \<in> set (rm (Cap 1 (plus (Chr number_char))) q3 t3)"
    "(h4, q, t) \<in> set (rm (Seq (Star (Chr uspace)) eol_m) q4 t4)" "h3 = g4 @ h4"
    unfolding rm_Seq_iff [of _ _ _ "Cap 1 (plus (Chr number_char))"] by blast
  from s4(2) obtain g5 q5 t5 h5 where s5: "(g5, q5, t5) \<in> set (rm (Star (Chr uspace)) q4 t4)"
    "(h5, q, t) \<in> set (rm eol_m q5 t5)" "h4 = g5 @ h5"
    unfolding rm_Seq_iff [of _ _ _ "Star (Chr uspace)"] by blast
  have e1: "g1 = []" "t1 = v" "x = [] \<or> last x = 10"
    using s1(1) by (auto simp: bol_m_def split: if_splits)
  have e2: "g2 = []" "t1 = n @ t2" using rm_plain_text [OF s2(1)] by auto
  obtain sp1 where e3: "g3 = []" "t2 = sp1 @ t3" "sp1 \<noteq> []" "list_all uspace sp1"
    using rm_plain_text [OF s3(1)] by (auto simp: in_lang_plus_chr) (auto simp: plus_def)
  obtain num where e4: "g4 = [(1, num)]" "t3 = num @ t4" "num \<noteq> []" "list_all number_char num"
  proof -
    obtain g' where g': "(g', q4, t4) \<in> set (rm (plus (Chr number_char)) q3 t3)"
      "g4 = g' @ [(1, take (length t3 - length t4) t3)]"
      using s4(1) unfolding rm_Cap_iff by blast
    from rm_plain_text [OF g'(1)] obtain y where "g' = []" "t3 = y @ t4" "y \<noteq> []" "list_all number_char y"
      by (auto simp: in_lang_plus_chr) (auto simp: plus_def)
    with g'(2) that show ?thesis by simp
  qed
  obtain sp2 where e5: "g5 = []" "t4 = sp2 @ t5" "list_all uspace sp2"
    using rm_plain_text [OF s5(1)] by auto
  have e6: "h5 = []" "t5 = [] \<or> hd t5 = 10"
    using s5(2) by (auto simp: eol_m_def split: if_splits)
  have "grp g 1 = num"
    using s1(3) s2(3) s3(3) s4(3) s5(3) e1 e2 e3 e4 e5 e6 by (simp add: grp_def group_def)
  moreover have "txt = x @ n @ sp1 @ num @ sp2 @ t5"
    using x(1) e1 e2 e3 e4 e5 by simp
  ultimately show ?thesis
    unfolding gauge_line_def using e1(3) e3(3,4) e4(3,4) e5(3) e6(2) by blast
qed

section \<open>A zero exit\<close>

lemma parse_gauges_from_found:
  "parse_gauges_from tf txt ns out = Some g \<Longrightarrow> g n = Some v \<Longrightarrow>
   out n = Some v \<or> (\<exists>num. gauge_line n num txt \<and> tf num = Some v)"
proof (induction ns arbitrary: out)
  case (Cons m ns)
  show ?case
  proof (cases "re_search (gauge_re m) txt")
    case None
    with Cons show ?thesis by simp
  next
    case (Some gr)
    with Cons.prems(1) obtain w where w: "tf (grp gr 1) = Some w"
      "parse_gauges_from tf txt ns (out(m \<mapsto> w)) = Some g"
      by (auto split: option.splits)
    from Cons.IH [OF w(2) Cons.prems(2)] gauge_re_found [OF Some] w(1) show ?thesis
      by (auto split: if_splits)
  qed
qed simp

lemma parse_gauges_found:
  "parse_gauges tf txt = Some g \<Longrightarrow> g n = Some v \<Longrightarrow> \<exists>num. gauge_line n num txt \<and> tf num = Some v"
  using parse_gauges_from_found [of tf "txt" GAUGES Map.empty g n v] by (simp add: parse_gauges_def)

lemma check_gauges_sound:
  "check_gauges g \<Longrightarrow> g PARTITIONED = Some 0 \<and> (\<exists>n \<in> {LINKS, PEERS_UP}. \<exists>v. g n = Some v \<and> 1 \<le> v)"
  by (auto simp: check_gauges_def gauge_or_def Let_def not_le split: if_splits option.splits)

definition healthy_page :: "(pystr \<Rightarrow> 'f :: linordered_idom option) \<Rightarrow> pystr \<Rightarrow> bool" where
  "healthy_page tf txt =
     ((\<exists>num. gauge_line PARTITIONED num txt \<and> tf num = Some 0) \<and>
      (\<exists>n \<in> {LINKS, PEERS_UP}. \<exists>num v. gauge_line n num txt \<and> tf num = Some v \<and> 1 \<le> v))"

lemma check_body_sound: "check_body tf body = Some True \<Longrightarrow> \<exists>txt. body = Some txt \<and> healthy_page tf txt"
proof -
  assume "check_body tf body = Some True"
  then obtain pg g where b: "body = Some pg" "parse_gauges tf pg = Some g" "check_gauges g"
    by (auto simp: check_body_def split: option.splits)
  from check_gauges_sound [OF b(3)] obtain n v where n: "g PARTITIONED = Some 0"
    "n \<in> {LINKS, PEERS_UP}" "g n = Some v" "1 \<le> v" by blast
  from parse_gauges_found [OF b(2) n(1)] parse_gauges_found [OF b(2) n(3)] n(2,4)
  have "healthy_page tf pg" unfolding healthy_page_def by blast
  with b(1) show ?thesis by blast
qed

lemma check_all_sound: "check_all f ok urls = Some True \<Longrightarrow> ok \<and> (\<forall>x \<in> set urls. f x = Some True)"
  by (induction urls arbitrary: ok) (auto split: option.splits)

text \<open>A zero exit means that at least one node was checked and that each of them answered with a
  page that has a line reporting the mesh as not partitioned and a line reporting at least one
  established link or one peer that is up. The page of the peer checked over \<open>ssh\<close> is the output
  of a command that succeeded.\<close>

theorem health_zero_sound:
  assumes "health_main tf http env split run argv = Some 0"
    and "peer = str_strip (case env (u ''MESH_SSH_PEER'') of Some v \<Rightarrow> v | None \<Rightarrow> [])"
  shows "(tl argv \<noteq> [] \<or> peer \<noteq> []) \<and>
    (\<forall>url \<in> set (tl argv). \<exists>txt. http url = Some txt \<and> healthy_page tf txt) \<and>
    (peer \<noteq> [] \<longrightarrow> (\<exists>extra out. run (ssh_command env extra peer (metrics_url env)) = SshDone 0 out \<and>
       healthy_page tf out))"
proof -
  have ne: "\<not> (tl argv = [] \<and> peer = [])"
    using assms by (auto simp: health_main_def)
  have all: "check_all (check_node tf http) True (tl argv) = Some True"
    and ssh: "peer \<noteq> [] \<longrightarrow> check_ssh_peer tf env split run peer = Some True"
    using assms ne
    by (auto simp: health_main_def Let_def split: option.splits if_splits)
  have "\<exists>txt. http url = Some txt \<and> healthy_page tf txt" if "url \<in> set (tl argv)" for url
    using check_all_sound [OF all] that check_body_sound by (auto simp: check_node_def)
  moreover have "\<exists>extra out. run (ssh_command env extra peer (metrics_url env)) = SshDone 0 out \<and>
      healthy_page tf out" if "peer \<noteq> []"
  proof -
    have "check_ssh_peer tf env split run peer = Some True" using ssh that by blast
    then obtain body where b: "fetch_ssh env split run peer (metrics_url env) = Some body"
      "check_body tf body = Some True"
      by (auto simp: check_ssh_peer_def split: option.splits)
    from check_body_sound [OF b(2)] b(1) show ?thesis
      by (auto simp: fetch_ssh_def split: option.splits ssh_result.splits if_splits)
  qed
  ultimately show ?thesis using ne by blast
qed

text \<open>A node that cannot be reached makes the check exit with 1, the status of an unhealthy mesh,
  and never with 2, the status the usage text gives to network errors.\<close>

theorem fetch_failure_exits_one:
  assumes "url \<in> set (tl argv)" "http url = None"
    and "health_main tf http env split run argv \<noteq> None"
  shows "health_main tf http env split run argv = Some 1"
proof -
  have f: "check_node tf http url = Some False" using assms(2) by (simp add: check_node_def check_body_def)
  have "check_all (check_node tf http) True (tl argv) \<noteq> Some True"
    using check_all_sound [of "check_node tf http" True "tl argv"] assms(1) f by auto
  moreover have "tl argv \<noteq> []" using assms(1) by auto
  ultimately show ?thesis
    using assms(3) by (auto simp: health_main_def Let_def split: option.splits if_splits)
qed

definition demo_float :: "pystr \<Rightarrow> int option" where
  "demo_float = str_int"

definition demo_page :: pystr where
  "demo_page = u ''onyx_s2s_links_active 1'' @ [10] @ u ''onyx_mesh_partitioned 0'' @ [10]"

lemma demo_health:
  "health_main demo_float (\<lambda>_. Some demo_page) (\<lambda>_. None) (\<lambda>_. Some []) (\<lambda>_. SshMissing)
     [u ''x'', u ''a'', u ''b''] = Some 0"
  by code_simp

theorem health_zero_sound_witness:
  "health_main demo_float (\<lambda>_. Some demo_page) (\<lambda>_. None) (\<lambda>_. Some []) (\<lambda>_. SshMissing)
     [u ''x'', u ''a'', u ''b''] = Some 0 \<and> healthy_page demo_float demo_page"
  using health_zero_sound [OF demo_health refl] demo_health by auto

theorem fetch_failure_exits_one_witness:
  "health_main demo_float (\<lambda>_. None) (\<lambda>_. None) (\<lambda>_. Some []) (\<lambda>_. SshMissing) [u ''x'', u ''a''] = Some 1"
proof -
  have "health_main demo_float (\<lambda>_. None) (\<lambda>_. None) (\<lambda>_. Some []) (\<lambda>_. SshMissing) [u ''x'', u ''a''] \<noteq> None"
    by code_simp
  then show ?thesis
    using fetch_failure_exits_one [of "u ''a''" "[u ''x'', u ''a'']" "\<lambda>_. None" demo_float] by simp
qed

end
