(* ===== verification/Octets.thy ===== *)
theory Octets
  imports Prelude "HOL-Library.Word"
begin

text \<open>
  Byte strings as lists of 8-bit words, for the tools that read and write binary formats: integers
  in base 256 of either byte order (\<open>int.to_bytes\<close>, \<open>int.from_bytes\<close> and the integer codes of
  \<open>struct\<close>), slices, and the bytes of text.
\<close>

type_synonym octets = "8 word list"

section \<open>Integers\<close>

fun to_bytes_big :: "nat \<Rightarrow> nat \<Rightarrow> octets" where
  "to_bytes_big 0 n = []"
| "to_bytes_big (Suc k) n = to_bytes_big k (n div 256) @ [of_nat n]"

definition from_bytes_big :: "octets \<Rightarrow> nat" where
  "from_bytes_big bs = foldl (\<lambda>a b. 256 * a + unat b) 0 bs"

definition to_bytes_little :: "nat \<Rightarrow> nat \<Rightarrow> octets" where
  "to_bytes_little k n = rev (to_bytes_big k n)"

definition from_bytes_little :: "octets \<Rightarrow> nat" where
  "from_bytes_little bs = from_bytes_big (rev bs)"

lemma to_bytes_big_length [simp]: "length (to_bytes_big k n) = k"
  by (induction k arbitrary: n) simp_all

lemma unat_byte: "unat (of_nat n :: 8 word) = n mod 256"
  by (simp add: unat_of_nat)

lemma from_to_bytes_big: "from_bytes_big (to_bytes_big k n) = n mod 256 ^ k"
proof (induction k arbitrary: n)
  case 0
  then show ?case by (simp add: from_bytes_big_def)
next
  case (Suc k)
  have "from_bytes_big (to_bytes_big (Suc k) n) = 256 * (n div 256 mod 256 ^ k) + n mod 256"
    using Suc [of "n div 256"] by (simp add: from_bytes_big_def unat_byte)
  then show ?case by (metis mod_mult2_eq add.commute power_Suc mult.commute)
qed

lemma from_to_bytes_little: "from_bytes_little (to_bytes_little k n) = n mod 256 ^ k"
  by (simp add: from_bytes_little_def to_bytes_little_def from_to_bytes_big)

lemma to_bytes_little_length [simp]: "length (to_bytes_little k n) = k"
  by (simp add: to_bytes_little_def)

lemma from_bytes_big_snoc: "from_bytes_big (bs @ [b]) = 256 * from_bytes_big bs + unat b"
  by (simp add: from_bytes_big_def)

lemma from_bytes_big_less: "from_bytes_big bs < 256 ^ length bs"
proof (induction bs rule: rev_induct)
  case (snoc b bs)
  have "unat b < 256" using unsigned_less [of b, where ?'a = nat] by simp
  with snoc show ?case by (simp add: from_bytes_big_snoc)
qed (simp add: from_bytes_big_def)

lemma to_from_bytes_big: "to_bytes_big (length bs) (from_bytes_big bs) = bs"
proof (induction bs rule: rev_induct)
  case (snoc b bs)
  have b: "unat b < 256" using unsigned_less [of b, where ?'a = nat] by simp
  have "(of_nat (256 * from_bytes_big bs + unat b) :: 8 word) = b"
    using b unfolding word_unat_eq_iff unat_byte by simp
  with b show ?case using snoc by (simp add: from_bytes_big_snoc)
qed simp

lemma to_from_bytes_little: "to_bytes_little (length bs) (from_bytes_little bs) = bs"
  using to_from_bytes_big [of "rev bs"] by (simp add: from_bytes_little_def to_bytes_little_def)

section \<open>Slices\<close>

definition slice :: "nat \<Rightarrow> nat \<Rightarrow> 'a list \<Rightarrow> 'a list" where
  "slice i j xs = take (j - i) (drop i xs)"

lemma slice_append: "slice (length x) (length x + length y) (x @ y @ z) = y"
  by (simp add: slice_def)

lemma length_slice: "j \<le> length xs \<Longrightarrow> length (slice i j xs) = j - i"
  by (simp add: slice_def)

section \<open>Text\<close>

definition ascii :: "string \<Rightarrow> octets" where
  "ascii s = map (\<lambda>c. of_nat (of_char c)) s"

definition chars :: "octets \<Rightarrow> string" where
  "chars bs = map (\<lambda>b. char_of (unat b)) bs"

lemma chars_ascii [simp]: "chars (ascii s) = s"
  by (induction s) (simp_all add: chars_def ascii_def unat_byte)

lemma ascii_append [simp]: "ascii (s @ t) = ascii s @ ascii t"
  by (simp add: ascii_def)

lemma length_ascii [simp]: "length (ascii s) = length s"
  by (simp add: ascii_def)

end
