(* ===== verification/Ocsp_Fixture.thy ===== *)
theory Ocsp_Fixture
  imports Octets
begin

text \<open>
  The OCSP fixture of \<open>src/tools/windows_ocsp_live_smoke.py\<close>: DER encoding and parsing, the
  certificate identifier and request the daemon must send, the response the fixture serves, and
  the HTTP handler that checks the request. \<open>bytes\<close> are lists of 8-bit words. The hash
  \<open>sha1\<close>, the signature over the response and the formatted times are arguments. Lengths are those
  of values in memory, so the length of a length always fits its byte.
\<close>

unbundle bit_operations_syntax

section \<open>Definite-length DER\<close>

definition bit_length :: "nat \<Rightarrow> nat" where
  "bit_length n = (if n = 0 then 0 else floor_log2 n + 1)"

definition der :: "8 word \<Rightarrow> octets \<Rightarrow> octets" where
  "der tag body =
     tag #
     (if length body < 128 then [of_nat (length body)]
      else let encoded = to_bytes_big ((bit_length (length body) + 7) div 8) (length body)
           in (0x80 OR of_nat (length encoded)) # encoded) @ body"

definition der_sequence :: "octets list \<Rightarrow> octets" where
  "der_sequence parts = der 0x30 (concat parts)"

datatype der_error = DerValue string | DerIndex | DerAssert string | DerGate

record part =
  pt_tag :: "8 word"
  pt_value :: octets
  pt_raw :: octets
  pt_end :: nat

definition tlv_value :: "octets \<Rightarrow> nat \<Rightarrow> 8 word \<Rightarrow> nat \<Rightarrow> nat \<Rightarrow> der_error + part" where
  "tlv_value data start tag offset count =
     (let e = offset + count in
      if e > length data then Inl (DerValue ''truncated DER value'')
      else Inr \<lparr>pt_tag = tag, pt_value = slice offset e data, pt_raw = slice start e data, pt_end = e\<rparr>)"

definition tlv :: "octets \<Rightarrow> nat \<Rightarrow> der_error + part" where
  "tlv data offset =
     (if offset + 2 > length data then Inl (DerValue ''truncated DER tag'')
      else
        let tag = data ! offset; count = data ! (offset + 1) in
        if count AND 0x80 \<noteq> 0
        then let size = unat (count AND 0x7F) in
          if size = 0 \<or> size > 4 \<or> offset + 2 + size > length data
          then Inl (DerValue ''invalid DER length'')
          else tlv_value data offset tag (offset + 2 + size)
                 (from_bytes_big (slice (offset + 2) (offset + 2 + size) data))
        else tlv_value data offset tag (offset + 2) (unat count))"

lemma tlv_value_end: "tlv_value data s t i n = Inr p \<Longrightarrow> pt_end p = i + n \<and> pt_end p \<le> length data"
  by (auto simp: tlv_value_def Let_def split: if_splits)

lemma tlv_end: "tlv data i = Inr p \<Longrightarrow> i + 2 \<le> pt_end p \<and> pt_end p \<le> length data"
  by (auto simp: tlv_def Let_def split: if_splits dest: tlv_value_end)

function children_from :: "octets \<Rightarrow> nat \<Rightarrow> der_error + part list" where
  "children_from body offset =
     (if offset < length body
      then case tlv body offset of
             Inl e \<Rightarrow> Inl e
           | Inr p \<Rightarrow> bind_res (children_from body (pt_end p)) (\<lambda>ps. Inr (p # ps))
      else Inr [])"
  by pat_completeness auto
termination
  by (relation "measure (\<lambda>(b, i). length b - i)") (auto dest: tlv_end)

declare children_from.simps [simp del]

definition children :: "octets \<Rightarrow> der_error + part list" where
  "children body = children_from body 0"

section \<open>Certificates and the OCSP request\<close>

definition item :: "'a list \<Rightarrow> nat \<Rightarrow> der_error + 'a" where
  "item xs i = (if i < length xs then Inr (xs ! i) else Inl DerIndex)"

record cert =
  ct_serial :: octets
  ct_issuer :: octets
  ct_subject :: octets
  ct_key :: octets

definition cert_key :: "part list \<Rightarrow> der_error + octets" where
  "cert_key spki =
     bind_res (item spki 1) (\<lambda>k.
     if pt_tag k \<noteq> 0x03 \<or> take 1 (pt_value k) \<noteq> [0]
     then Inl (DerValue ''invalid subjectPublicKey BIT STRING'')
     else Inr (drop 1 (pt_value k)))"

definition cert_fields :: "octets \<Rightarrow> der_error + cert" where
  "cert_fields encoded =
     bind_res (tlv encoded 0) (\<lambda>c.
     if pt_tag c \<noteq> 0x30 \<or> pt_end c \<noteq> length encoded then Inl (DerValue ''not a DER certificate'')
     else
     bind_res (children (pt_value c)) (\<lambda>top'.
     bind_res (item top' 0) (\<lambda>tbs.
     bind_res (children (pt_value tbs)) (\<lambda>fs.
     bind_res (item fs 0) (\<lambda>f0.
     let base = (if pt_tag f0 = 0xA0 then 1 else 0) in
     bind_res (item fs base) (\<lambda>serial.
     bind_res (item fs (base + 2)) (\<lambda>issuer.
     bind_res (item fs (base + 4)) (\<lambda>subject.
     bind_res (item fs (base + 5)) (\<lambda>key.
     bind_res (children (pt_value key)) (\<lambda>spki.
     bind_res (cert_key spki) (\<lambda>k.
     Inr \<lparr>ct_serial = pt_value serial, ct_issuer = pt_raw issuer, ct_subject = pt_raw subject,
          ct_key = k\<rparr>)))))))))))"

definition sha1_algorithm :: octets where
  "sha1_algorithm = der_sequence [der 0x06 [0x2b, 0x0e, 0x03, 0x02, 0x1a], der 0x05 []]"

definition make_cert_id :: "(octets \<Rightarrow> octets) \<Rightarrow> octets \<Rightarrow> octets \<Rightarrow> octets \<Rightarrow> octets" where
  "make_cert_id sha1 subject key serial =
     der_sequence [sha1_algorithm, der 0x04 (sha1 subject), der 0x04 (sha1 key), der 0x02 serial]"

record material =
  mt_cert_id :: octets
  mt_issuer :: octets
  mt_request :: octets

definition ocsp_material :: "(octets \<Rightarrow> octets) \<Rightarrow> octets \<Rightarrow> octets \<Rightarrow> der_error + material" where
  "ocsp_material sha1 leaf_der issuer_der =
     bind_res (cert_fields leaf_der) (\<lambda>leaf.
     bind_res (cert_fields issuer_der) (\<lambda>issuer.
     if ct_issuer leaf \<noteq> ct_subject issuer
     then Inl (DerAssert ''disposable leaf issuer does not match issuer subject'')
     else
       let cert_id = make_cert_id sha1 (ct_subject issuer) (ct_key issuer) (ct_serial leaf) in
       Inr \<lparr>mt_cert_id = cert_id, mt_issuer = ct_subject issuer,
            mt_request = der_sequence [der_sequence [der_sequence [cert_id]]]\<rparr>))"

section \<open>The response\<close>

text \<open>The three times are the ASCII bytes \<open>strftime\<close> gives; \<open>sign\<close> is the external signer.\<close>

definition generalized :: "octets \<Rightarrow> octets" where
  "generalized instant = der 0x18 instant"

definition response_tbs :: "octets \<Rightarrow> octets \<Rightarrow> octets \<Rightarrow> octets \<Rightarrow> octets \<Rightarrow> octets" where
  "response_tbs cert_id issuer_subject this_update produced next_update =
     (let single = der_sequence [cert_id, der 0x80 [], generalized this_update,
            der 0xA0 (generalized next_update)]
      in der_sequence [der 0xA1 issuer_subject, generalized produced, der_sequence [single]])"

definition make_response ::
  "(octets \<Rightarrow> octets) \<Rightarrow> octets \<Rightarrow> octets \<Rightarrow> octets \<Rightarrow> octets \<Rightarrow> octets \<Rightarrow> der_error + octets" where
  "make_response sign cert_id issuer_subject this_update produced next_update =
     (let tbs = response_tbs cert_id issuer_subject this_update produced next_update;
          signature = sign tbs
      in
      if signature = [] \<or> hd signature \<noteq> 0x30
      then Inl (DerAssert ''.NET issuer returned a non-DER ECDSA signature'')
      else
        let ecdsa_sha256 = der_sequence [der 0x06 [0x2a, 0x86, 0x48, 0xce, 0x3d, 0x04, 0x03, 0x02]];
            basic = der_sequence [tbs, ecdsa_sha256, der 0x03 (0 # signature)];
            response_bytes = der_sequence
              [der 0x06 [0x2b, 0x06, 0x01, 0x05, 0x05, 0x07, 0x30, 0x01, 0x01], der 0x04 basic]
        in Inr (der_sequence [der 0x0A [0], der 0xA0 response_bytes]))"

section \<open>The responder\<close>

record responder =
  rs_expected :: octets
  rs_response :: octets
  rs_seen :: bool
  rs_errors :: "der_error list"

definition OcspServer :: "octets \<Rightarrow> octets \<Rightarrow> responder" where
  "OcspServer expected response =
     \<lparr>rs_expected = expected, rs_response = response, rs_seen = False, rs_errors = []\<rparr>"

text \<open>A POST: path, \<open>Content-Length\<close> (already \<open>-1\<close> when absent; \<open>None\<close> when not a number),
  \<open>Content-Type\<close>, the bytes waiting on the connection, and whether the gate opens in time.\<close>

record post =
  po_path :: string
  po_length :: "int option"
  po_type :: "string option"
  po_body :: octets
  po_gate :: bool

datatype reply = Reply200 octets | Reply400

definition refuse :: "responder \<Rightarrow> der_error \<Rightarrow> responder \<times> reply" where
  "refuse s e = (s\<lparr>rs_errors := rs_errors s @ [e]\<rparr>, Reply400)"

definition do_POST :: "responder \<Rightarrow> post \<Rightarrow> responder \<times> reply" where
  "do_POST s q =
     (case po_length q of
        None \<Rightarrow> refuse s (DerValue ''invalid literal for int()'')
      | Some n \<Rightarrow>
          if po_path q \<noteq> ''/ocsp'' \<or> \<not> (0 \<le> n \<and> n \<le> 4096)
          then refuse s (DerAssert ''unexpected OCSP endpoint or body length'')
          else if take (nat n) (po_body q) \<noteq> rs_expected s
          then refuse s (DerAssert ''OCSP CertID mismatch'')
          else if po_type q \<noteq> Some ''application/ocsp-request''
          then refuse s (DerAssert ''OCSP request has the wrong content type'')
          else
            let s1 = s\<lparr>rs_seen := True\<rparr> in
            if \<not> po_gate q then refuse s1 DerGate else (s1, Reply200 (rs_response s1)))"

section \<open>Lengths\<close>

lemma short_count: "n < 128 \<Longrightarrow> (of_nat n :: 8 word) AND 0x80 = 0"
proof -
  assume n: "n < 128"
  have "\<not> bit n 7" using n by (simp add: bit_iff_odd)
  then have "\<not> bit (of_nat n :: 8 word) 7" by (simp add: bit_of_nat_iff)
  then show ?thesis using and_exp_eq_0_iff_not_bit [of "of_nat n :: 8 word" 7] by simp
qed
lemma long_count:
  "k \<in> {1, 2, 3, 4} \<Longrightarrow> (0x80 OR of_nat k :: 8 word) AND 0x80 \<noteq> 0 \<and> unat ((0x80 OR of_nat k :: 8 word) AND 0x7F) = k"
  by auto
lemma floor_log2_bounds: "n < 2 ^ Suc (floor_log2 n) \<and> (0 < n \<longrightarrow> 2 ^ floor_log2 n \<le> n)"
proof (induction n rule: floor_log2.induct)
  case (1 n)
  show ?case
  proof (cases "n \<le> 1")
    case True then show ?thesis by (auto simp: floor_log2.simps [of n])
  next
    case False
    then show ?thesis using 1 by (auto simp: floor_log2.simps [of n])
  qed
qed
lemma length_bytes:
  assumes "128 \<le> n" "n < 2 ^ 32"
  shows "(bit_length n + 7) div 8 \<in> {1, 2, 3, 4} \<and> n < 256 ^ ((bit_length n + 7) div 8)"
proof -
  let ?l = "floor_log2 n"
  have b: "n < 2 ^ Suc ?l" "2 ^ ?l \<le> n" using floor_log2_bounds [of n] assms by auto
  have "(2::nat) ^ ?l < 2 ^ 32" using b(2) assms(2) by linarith
  then have l: "?l < 32" by (metis power_strict_increasing_iff one_less_numeral_iff semiring_norm(76))
  have k: "bit_length n = Suc ?l" using assms by (simp add: bit_length_def)
  have "(256::nat) ^ ((Suc ?l + 7) div 8) = 2 ^ (8 * ((Suc ?l + 7) div 8))"
    by (simp add: power_mult)
  moreover have "(2::nat) ^ Suc ?l \<le> 2 ^ (8 * ((Suc ?l + 7) div 8))"
    by (rule power_increasing) auto
  ultimately have "n < 256 ^ ((Suc ?l + 7) div 8)" using b(1) by linarith
  moreover have "(Suc ?l + 7) div 8 \<in> {1, 2, 3, 4}"
  proof -
    have "1 \<le> (Suc ?l + 7) div 8" "(Suc ?l + 7) div 8 \<le> 4" using l by auto
    then show ?thesis by auto
  qed
  ultimately show ?thesis by (simp add: k)
qed

lemma tlv_der:
  assumes "length body < 2 ^ 32"
  shows "tlv (pre @ der tag body @ rest) (length pre) =
    Inr \<lparr>pt_tag = tag, pt_value = body, pt_raw = der tag body, pt_end = length pre + length (der tag body)\<rparr>"
proof (cases "length body < 128")
  case True
  then have d: "der tag body = [tag, of_nat (length body)] @ body" by (simp add: der_def)
  have u: "unat (of_nat (length body) :: 8 word) = length body" using True by (simp add: unat_byte)
  show ?thesis
    using True by (simp add: tlv_def d nth_append short_count u tlv_value_def slice_def)
next
  case False
  define n where "n = length body"
  define k where "k = (bit_length n + 7) div 8"
  have n: "128 \<le> n" "n < 2 ^ 32" using False assms by (simp_all add: n_def)
  note kb = length_bytes [OF n, folded k_def]
  define c where "c = (0x80 OR of_nat k :: 8 word)"
  have c: "c AND 0x80 \<noteq> 0" "unat (c AND 0x7F) = k" using long_count kb unfolding c_def by blast+
  have d: "der tag body = tag # c # to_bytes_big k n @ body"
    using False by (simp add: der_def Let_def n_def [symmetric] k_def [symmetric] c_def)
  have f: "from_bytes_big (to_bytes_big k n) = n" using kb by (simp add: from_to_bytes_big)
  have k0: "k \<noteq> 0" "k \<le> 4" using kb by auto
  show ?thesis
    using c k0 f by (simp add: tlv_def d nth_append tlv_value_def slice_def Let_def n_def [symmetric])
qed

section \<open>Parsing what was encoded\<close>

abbreviation encode :: "8 word \<times> octets \<Rightarrow> octets" where
  "encode p \<equiv> der (fst p) (snd p)"

fun parts_at :: "nat \<Rightarrow> (8 word \<times> octets) list \<Rightarrow> part list" where
  "parts_at i [] = []"
| "parts_at i (p # ps) =
     \<lparr>pt_tag = fst p, pt_value = snd p, pt_raw = encode p, pt_end = i + length (encode p)\<rparr> #
     parts_at (i + length (encode p)) ps"

lemma der_not_Nil [simp]: "der t b \<noteq> []"
  by (simp add: der_def)

lemma der_longer: "length b < length (der t b)"
  by (simp add: der_def Let_def)

lemma parts_at_nth:
  "k < length ps \<Longrightarrow> pt_tag (parts_at i ps ! k) = fst (ps ! k) \<and>
    pt_value (parts_at i ps ! k) = snd (ps ! k) \<and> pt_raw (parts_at i ps ! k) = encode (ps ! k)"
  by (induction i ps arbitrary: k rule: parts_at.induct) (auto simp: nth_Cons split: nat.split)

lemma parts_at_length [simp]: "length (parts_at i ps) = length ps"
  by (induction i ps rule: parts_at.induct) simp_all

lemma children_from_encode:
  "list_all (\<lambda>p. length (snd p) < 2 ^ 32) ps \<Longrightarrow>
   children_from (pre @ concat (map encode ps)) (length pre) = Inr (parts_at (length pre) ps)"
proof (induction ps arbitrary: pre)
  case Nil
  then show ?case by (simp add: children_from.simps)
next
  case (Cons p ps)
  have "children_from ((pre @ encode p) @ concat (map encode ps)) (length (pre @ encode p)) =
      Inr (parts_at (length (pre @ encode p)) ps)"
    by (rule Cons.IH) (use Cons.prems in simp)
  moreover have "tlv (pre @ encode p @ concat (map encode ps)) (length pre) = Inr
      \<lparr>pt_tag = fst p, pt_value = snd p, pt_raw = encode p, pt_end = length pre + length (encode p)\<rparr>"
    by (rule tlv_der) (use Cons.prems in simp)
  ultimately show ?case
    by (subst children_from.simps) (simp add: bind_res_def)
qed

lemma tlv_raw: "tlv data i = Inr p \<Longrightarrow> pt_raw p = slice i (pt_end p) data"
  by (auto simp: tlv_def tlv_value_def Let_def split: if_splits)

lemma children_from_raw:
  "children_from body i = Inr ps \<Longrightarrow> i \<le> length body \<Longrightarrow> concat (map pt_raw ps) = drop i body"
proof (induction body i arbitrary: ps rule: children_from.induct)
  case (1 body i)
  show ?case
  proof (cases "i < length body")
    case False
    with "1.prems" show ?thesis by (simp add: children_from.simps)
  next
    case True
    with "1.prems"(1) obtain p qs where p: "tlv body i = Inr p" "ps = p # qs"
      "children_from body (pt_end p) = Inr qs"
      by (auto simp: children_from.simps [of body i] bind_res_def split: sum.splits)
    note e = tlv_end [OF p(1)]
    have "concat (map pt_raw qs) = drop (pt_end p) body"
      using "1.IH" [OF True p(1,3)] e by blast
    moreover have "slice i (pt_end p) body @ drop (pt_end p) body = drop i body"
      unfolding slice_def using e by (metis append_take_drop_id drop_drop le_add_diff_inverse2 add_leD1 add.commute)
    ultimately show ?thesis using p(2) tlv_raw [OF p(1)] by simp
  qed
qed

text \<open>Splitting DER loses nothing and invents nothing. The elements of a concatenation of
  encoded elements (shorter than 4 GiB) are those elements, with their exact bytes; and whenever
  any content parses, the raw bytes of its elements, joined, are the content.\<close>

theorem children_roundtrip:
  assumes "list_all (\<lambda>p. length (snd p) < 2 ^ 32) ps"
  shows "children (concat (map encode ps)) = Inr (parts_at 0 ps) \<and>
    (children body = Inr qs \<longrightarrow> concat (map pt_raw qs) = body)"
  using children_from_encode [OF assms, of "[]"] children_from_raw [of body 0 qs]
  by (simp add: children_def)

theorem children_roundtrip_witness:
  "children (concat (map encode [(2, [7]), (0x30, replicate 300 1)])) =
     Inr (parts_at 0 [(2, [7]), (0x30, replicate 300 1)]) \<and>
   children [0x05, 0x81, 0x00, 0x05, 0x00] =
     Inr [\<lparr>pt_tag = 5, pt_value = [], pt_raw = [0x05, 0x81, 0x00], pt_end = 3\<rparr>,
          \<lparr>pt_tag = 5, pt_value = [], pt_raw = [0x05, 0x00], pt_end = 5\<rparr>] \<and>
   concat (map pt_raw [\<lparr>pt_tag = 5, pt_value = [], pt_raw = [0x05, 0x81, 0x00], pt_end = 3\<rparr>,
          \<lparr>pt_tag = 5, pt_value = [], pt_raw = [0x05, 0x00], pt_end = 5\<rparr>]) =
     [0x05, 0x81, 0x00, 0x05, 0x00]"
proof -
  have b: "children [0x05, 0x81, 0x00, 0x05, 0x00] =
     Inr [\<lparr>pt_tag = 5, pt_value = [], pt_raw = [0x05, 0x81, 0x00], pt_end = 3\<rparr>,
          \<lparr>pt_tag = 5, pt_value = [], pt_raw = [0x05, 0x00], pt_end = 5\<rparr>]"
    by code_simp
  have "list_all (\<lambda>p :: 8 word \<times> octets. length (snd p) < 2 ^ 32) [(2, [7]), (0x30, replicate 300 1)]"
    by simp
  from children_roundtrip [OF this, of "[0x05, 0x81, 0x00, 0x05, 0x00]"] b show ?thesis by blast
qed

section \<open>Certificates\<close>

text \<open>A certificate as an issuer lays it out: optional version, serial number, algorithm, issuer,
  validity, subject, key information with the key as its second element, extensions, and after the
  body the signature parts.\<close>

record layout =
  ly_version :: "octets option"
  ly_serial :: "8 word \<times> octets"
  ly_algorithm :: "8 word \<times> octets"
  ly_issuer :: "8 word \<times> octets"
  ly_validity :: "8 word \<times> octets"
  ly_subject :: "8 word \<times> octets"
  ly_key_algorithm :: "8 word \<times> octets"
  ly_key :: octets
  ly_key_more :: "(8 word \<times> octets) list"
  ly_extensions :: "(8 word \<times> octets) list"
  ly_signature :: "(8 word \<times> octets) list"

definition spki_of :: "layout \<Rightarrow> (8 word \<times> octets) list" where
  "spki_of l = ly_key_algorithm l # (0x03, 0 # ly_key l) # ly_key_more l"

definition fields_of :: "layout \<Rightarrow> (8 word \<times> octets) list" where
  "fields_of l = (case ly_version l of None \<Rightarrow> [] | Some v \<Rightarrow> [(0xA0, v)]) @
     [ly_serial l, ly_algorithm l, ly_issuer l, ly_validity l, ly_subject l,
      (0x30, concat (map encode (spki_of l)))] @ ly_extensions l"

definition top_of :: "layout \<Rightarrow> (8 word \<times> octets) list" where
  "top_of l = (0x30, concat (map encode (fields_of l))) # ly_signature l"

definition certificate :: "layout \<Rightarrow> octets" where
  "certificate l = der_sequence (map encode (top_of l))"

lemma parts_small:
  assumes "length (concat (map encode ps)) < n"
  shows "list_all (\<lambda>p. length (snd p) < n) ps"
proof -
  have "length (snd p) < n" if "p \<in> set ps" for p
  proof -
    have "length (encode p) \<le> length (concat (map encode ps))"
      using that by (auto simp: length_concat intro: member_le_sum_list)
    with der_longer [of "snd p" "fst p"] assms show ?thesis by linarith
  qed
  then show ?thesis by (simp add: list_all_iff)
qed

lemma children_small:
  "length (concat (map encode ps)) < 2 ^ 32 \<Longrightarrow> children (concat (map encode ps)) = Inr (parts_at 0 ps)"
  using children_from_encode [OF parts_small, of ps "[]"] by (simp add: children_def)

text \<open>Reading a certificate of that layout (shorter than 4 GiB) gives back its serial number, the
  exact bytes of its issuer and subject names and its public key, with or without a version.\<close>

theorem cert_fields_roundtrip:
  assumes "length (certificate l) < 2 ^ 32" "ly_version l = None \<Longrightarrow> fst (ly_serial l) \<noteq> 0xA0"
  shows "cert_fields (certificate l) =
    Inr \<lparr>ct_serial = snd (ly_serial l), ct_issuer = encode (ly_issuer l),
         ct_subject = encode (ly_subject l), ct_key = ly_key l\<rparr>"
proof -
  let ?top = "concat (map encode (top_of l))" and ?fs = "concat (map encode (fields_of l))"
    and ?sp = "concat (map encode (spki_of l))"
  have c: "certificate l = der 0x30 ?top" by (simp add: certificate_def der_sequence_def)
  have t: "length ?top < 2 ^ 32" using assms(1) der_longer [of ?top "0x30"] c by simp
  have f: "length ?fs < 2 ^ 32" using parts_small [OF t] by (simp add: top_of_def)
  have s: "length ?sp < 2 ^ 32" using parts_small [OF f] by (simp add: fields_of_def)
  have cert: "tlv (certificate l) 0 =
      Inr \<lparr>pt_tag = 0x30, pt_value = ?top, pt_raw = certificate l, pt_end = length (certificate l)\<rparr>"
    using tlv_der [OF t, of "[]" "0x30" "[]"] by (simp add: c)
  have top': "children ?top = Inr (parts_at 0 (top_of l))"
    and fs: "children ?fs = Inr (parts_at 0 (fields_of l))"
    and sp: "children ?sp = Inr (parts_at 0 (spki_of l))"
    using children_small t f s by blast+
  have key: "cert_key (parts_at 0 (spki_of l)) = Inr (ly_key l)"
    by (simp add: cert_key_def item_def bind_res_def spki_of_def)
  show ?thesis
  proof (cases "ly_version l")
    case None
    then show ?thesis
      using assms(2) cert top' fs sp key
      by (simp add: cert_fields_def bind_res_def item_def Let_def parts_at_nth top_of_def fields_of_def)
  next
    case (Some v)
    then show ?thesis
      using cert top' fs sp key
      by (simp add: cert_fields_def bind_res_def item_def Let_def parts_at_nth top_of_def fields_of_def)
  qed
qed

definition demo_leaf :: layout where
  "demo_leaf = \<lparr>ly_version = Some [2, 1, 2], ly_serial = (2, [0x11, 0x22]), ly_algorithm = (0x30, []),
     ly_issuer = (0x30, [0x41]), ly_validity = (0x30, []), ly_subject = (0x30, [0x42]),
     ly_key_algorithm = (0x30, []), ly_key = [9], ly_key_more = [], ly_extensions = [],
     ly_signature = [(0x30, []), (3, [0])]\<rparr>"

definition demo_issuer :: layout where
  "demo_issuer = demo_leaf\<lparr>ly_version := None, ly_subject := (0x30, [0x41]), ly_key := replicate 130 5\<rparr>"

theorem cert_fields_roundtrip_witness:
  "cert_fields (certificate demo_issuer) =
     Inr \<lparr>ct_serial = [0x11, 0x22], ct_issuer = [0x30, 1, 0x41], ct_subject = [0x30, 1, 0x41],
          ct_key = replicate 130 5\<rparr>"
proof -
  have "length (certificate demo_issuer) < 2 ^ 32" by code_simp
  moreover have "encode (ly_issuer demo_issuer) = [0x30, 1, 0x41]" by code_simp
  moreover have "encode (ly_subject demo_issuer) = [0x30, 1, 0x41]" by code_simp
  ultimately show ?thesis
    using cert_fields_roundtrip [of demo_issuer] by (simp add: demo_issuer_def demo_leaf_def)
qed

section \<open>The request\<close>

text \<open>The contents of a value that consists of one element.\<close>

definition unwrap :: "octets \<Rightarrow> der_error + octets" where
  "unwrap e = bind_res (tlv e 0) (\<lambda>p.
     if pt_end p = length e then Inr (pt_value p) else Inl (DerValue ''trailing data''))"

lemma unwrap_der: "length b < 2 ^ 32 \<Longrightarrow> unwrap (der t b) = Inr b"
  using tlv_der [of b "[]" t "[]"] by (simp add: unwrap_def bind_res_def)

lemma der_length_le: "length b < 2 ^ 32 \<Longrightarrow> length (der t b) \<le> length b + 6"
  using length_bytes [of "length b"] by (auto simp: der_def Let_def)

lemma sha1_algorithm_eval: "sha1_algorithm = der 0x30 [6, 5, 0x2b, 0x0e, 3, 2, 0x1a, 5, 0]"
  by code_simp

text \<open>The request the daemon is expected to send holds, under its three enclosing sequences, one
  certificate identifier: the SHA-1 algorithm, the hash of the issuer's name, the hash of the
  issuer's key and the leaf's serial number. It exists exactly when the leaf was issued under the
  issuer's name; a mismatch is reported.\<close>

theorem ocsp_request_decodes:
  assumes "cert_fields leaf_der = Inr leaf" "cert_fields issuer_der = Inr issuer"
    and "length (ct_serial leaf) \<le> 2 ^ 20" "\<forall>x. length (sha1 x) = 20"
  shows "if ct_issuer leaf = ct_subject issuer
    then \<exists>m. ocsp_material sha1 leaf_der issuer_der = Inr m \<and>
      bind_res (bind_res (bind_res (unwrap (mt_request m)) unwrap) unwrap) unwrap =
        unwrap (mt_cert_id m) \<and>
      bind_res (unwrap (mt_cert_id m)) children = Inr (parts_at 0
        [(0x30, [6, 5, 0x2b, 0x0e, 3, 2, 0x1a, 5, 0]), (0x04, sha1 (ct_subject issuer)),
         (0x04, sha1 (ct_key issuer)), (0x02, ct_serial leaf)])
    else ocsp_material sha1 leaf_der issuer_der =
      Inl (DerAssert ''disposable leaf issuer does not match issuer subject'')"
proof (cases "ct_issuer leaf = ct_subject issuer")
  case False
  then show ?thesis using assms(1,2) by (simp add: ocsp_material_def bind_res_def)
next
  case True
  let ?ps = "[(0x30, [6, 5, 0x2b, 0x0e, 3, 2, 0x1a, 5, 0]), (0x04, sha1 (ct_subject issuer)),
    (0x04, sha1 (ct_key issuer)), (0x02, ct_serial leaf)] :: (8 word \<times> octets) list"
  define body where "body = concat (map encode ?ps)"
  define cid where "cid = make_cert_id sha1 (ct_subject issuer) (ct_key issuer) (ct_serial leaf)"
  have cid: "cid = der 0x30 body"
    by (simp add: cid_def body_def make_cert_id_def der_sequence_def sha1_algorithm_eval)
  have m: "ocsp_material sha1 leaf_der issuer_der = Inr \<lparr>mt_cert_id = cid, mt_issuer = ct_subject issuer,
      mt_request = der_sequence [der_sequence [der_sequence [cid]]]\<rparr>"
    using assms(1,2) True by (simp add: ocsp_material_def bind_res_def cid_def Let_def)
  have d20: "length (der t (sha1 x)) = 22" for t x
    using assms(4) by (simp add: der_def)
  have s: "length (der 2 (ct_serial leaf)) \<le> 2 ^ 20 + 6"
    using der_length_le [of "ct_serial leaf" 2] assms(3) by simp
  have b: "length body \<le> 2 ^ 20 + 100"
    using s by (simp add: body_def d20) (simp add: der_def)
  have c: "length cid \<le> 2 ^ 20 + 106" using b der_length_le [of body "0x30"] by (simp add: cid)
  have c1: "length (der 0x30 cid) \<le> 2 ^ 20 + 112" using c der_length_le [of cid "0x30"] by simp
  have c2: "length (der 0x30 (der 0x30 cid)) \<le> 2 ^ 20 + 118"
    using c1 der_length_le [of "der 0x30 cid" "0x30"] by simp
  have "bind_res (bind_res (bind_res (unwrap (der_sequence [der_sequence [der_sequence [cid]]])) unwrap)
      unwrap) unwrap = unwrap cid"
    using c c1 c2 by (simp add: der_sequence_def unwrap_der bind_res_def)
  moreover have "bind_res (unwrap cid) children = Inr (parts_at 0 ?ps)"
    using b children_small [of ?ps] by (simp add: cid unwrap_der bind_res_def body_def)
  ultimately show ?thesis using True m by (simp only: if_True) auto
qed

section \<open>The responder answers only the expected request\<close>

text \<open>The responder serves its response exactly when a POST to \<open>/ocsp\<close> declares a length of at
  most 4096 and an OCSP content type, carries the expected request, and the gate opens. Every
  other POST is answered 400 and adds one error, and only a matching request marks the request
  as seen.\<close>

theorem responder_serves_iff:
  "let (s', r) = do_POST s q;
       fits = (po_path q = ''/ocsp'' \<and> po_type q = Some ''application/ocsp-request'' \<and>
         (case po_length q of None \<Rightarrow> False
          | Some n \<Rightarrow> 0 \<le> n \<and> n \<le> 4096 \<and> take (nat n) (po_body q) = rs_expected s))
   in (r = Reply200 (rs_response s) \<longleftrightarrow> fits \<and> po_gate q) \<and>
      (r = Reply400 \<longleftrightarrow> \<not> (fits \<and> po_gate q)) \<and>
      length (rs_errors s') = length (rs_errors s) + (if r = Reply400 then 1 else 0) \<and>
      rs_seen s' = (rs_seen s \<or> fits) \<and> rs_expected s' = rs_expected s \<and> rs_response s' = rs_response s"
  by (cases "po_length q") (auto simp: do_POST_def refuse_def Let_def)

theorem ocsp_request_decodes_witness:
  "let sha1 = (\<lambda>x :: octets. replicate 20 (of_nat (length x))) in
   \<exists>m. ocsp_material sha1 (certificate demo_leaf) (certificate demo_issuer) = Inr m \<and>
      bind_res (unwrap (mt_cert_id m)) children = Inr (parts_at 0
        [(0x30, [6, 5, 0x2b, 0x0e, 3, 2, 0x1a, 5, 0]), (0x04, sha1 [0x30, 1, 0x41]),
         (0x04, sha1 (replicate 130 5)), (0x02, [0x11, 0x22])])"
proof -
  have leaf: "cert_fields (certificate demo_leaf) = Inr \<lparr>ct_serial = [0x11, 0x22],
      ct_issuer = [0x30, 1, 0x41], ct_subject = [0x30, 1, 0x42], ct_key = [9]\<rparr>"
    by code_simp
  have iss: "cert_fields (certificate demo_issuer) = Inr \<lparr>ct_serial = [0x11, 0x22],
      ct_issuer = [0x30, 1, 0x41], ct_subject = [0x30, 1, 0x41], ct_key = replicate 130 5\<rparr>"
    by code_simp
  show ?thesis
    using ocsp_request_decodes [OF leaf iss, of "\<lambda>x. replicate 20 (of_nat (length x))"]
    unfolding Let_def by simp blast
qed

end
