(* ===== verification/Privacy_Corpus.thy ===== *)
theory Privacy_Corpus
  imports PyText "HOL-Library.Multiset"
begin

text \<open>
  The transcript checks of \<open>src/tools/privacy_corpus_smoke.py\<close>: redacting the address a client
  may see of itself, recognising the self-lookup replies, the check that no credential occurs,
  the reader that waits for a line, and the shape of a doctor report. \<open>bytes\<close> are strings;
  a \<open>str\<close> is its bytes. The functions that raise on a failed \<open>require\<close> are predicates or
  return an option: the program reports every exception in the same way.
\<close>

section \<open>Redaction\<close>

definition privacy_crlf :: string where
  "privacy_crlf = [CHR 0x0D, CHR 0x0A]"

text \<open>A complete record addressed to \<open>nick\<close> about \<open>nick\<close>, as its six fields.\<close>

definition self_record :: "string \<Rightarrow> string \<Rightarrow> bool" where
  "self_record nick line =
     (let fields = splitn 5 '' '' line in
      CHR 0x0D \<notin> set line \<and> CHR 0x0A \<notin> set line \<and> length fields = 6 \<and>
      startswith (fields ! 0) '':'' \<and> fields ! 2 = nick \<and> fields ! 3 = nick)"

definition redact_line :: "string \<Rightarrow> string \<Rightarrow> string \<Rightarrow> string" where
  "redact_line nick address line =
     (let fs = splitn 5 '' '' line in
      if self_record nick line then
        if fs ! 1 = ''338'' \<and> fs ! 4 = address
        then join '' '' (fs[4 := replicate (length (fs ! 4)) (CHR ''X'')])
        else if fs ! 1 = ''320'' \<and> fs ! 4 = '':actual'' \<and> fs ! 5 = ''address '' @ address
        then join '' '' (fs[5 := ''address '' @ replicate (length address) (CHR ''X'')])
        else line
      else line)"

definition redact_self_address :: "string \<Rightarrow> string \<Rightarrow> string \<Rightarrow> string" where
  "redact_self_address transcript nick address =
     (let records = split_sub privacy_crlf transcript in
      join privacy_crlf (map (redact_line nick address) (butlast records) @ [last records]))"

definition has_self_320 :: "string \<Rightarrow> string \<Rightarrow> string \<Rightarrow> bool" where
  "has_self_320 transcript nick address =
     list_ex (\<lambda>line. let fs = splitn 5 '' '' line in
         self_record nick line \<and> fs ! 1 = ''320'' \<and> fs ! 4 = '':actual'' \<and>
         fs ! 5 = ''address '' @ address)
       (butlast (split_sub privacy_crlf transcript))"

definition credentials_absent :: "string \<Rightarrow> string list \<Rightarrow> bool" where
  "credentials_absent transcript secrets = list_all (\<lambda>s. \<not> contains_sub transcript s) secrets"

text \<open>The built-in controls of the parser: one reply of each kind, and records that must not be
  exempt.\<close>

definition st_valid :: string where
  "st_valid = '':srv 338 Target Target 198.51.100.137 :credential-canary'' @ privacy_crlf"

definition st_expected :: string where
  "st_expected = '':srv 338 Target Target XXXXXXXXXXXXXX :credential-canary'' @ privacy_crlf"

definition st_valid320 :: string where
  "st_valid320 = '':srv 320 Target Target :actual address 198.51.100.137'' @ privacy_crlf"

definition st_expected320 :: string where
  "st_expected320 = '':srv 320 Target Target :actual address XXXXXXXXXXXXXX'' @ privacy_crlf"

definition st_wrong :: "string list" where
  "st_wrong =
     ['':srv 338 Other Target 198.51.100.137 :x'' @ privacy_crlf,
      '':srv 338 Target Other 198.51.100.137 :x'' @ privacy_crlf,
      '':srv 338 Target Target 198.51.100.138 :x'' @ privacy_crlf,
      ''@tag=x :srv 338 Target Target 198.51.100.137 :x'' @ privacy_crlf,
      '':srv 311 Target Target 198.51.100.137 :x'' @ privacy_crlf,
      '':srv NOTICE Target :foo'' @ [CHR 0x0A] @ '':srv 338 Target Target 198.51.100.137 :x'' @ privacy_crlf,
      '':srv NOTICE Target :foo'' @ [CHR 0x0D] @ '':srv 338 Target Target 198.51.100.137 :x'' @ privacy_crlf,
      '':srv 338 Target Target 198.51.100.137 :unterminated'']"

definition st_wrong320 :: "string list" where
  "st_wrong320 =
     ['':srv 320 Other Target :actual address 198.51.100.137'' @ privacy_crlf,
      '':srv 320 Target Other :actual address 198.51.100.137'' @ privacy_crlf,
      '':srv 320 Target Target :other address 198.51.100.137'' @ privacy_crlf,
      '':srv 320 Target Target extra :actual address 198.51.100.137'' @ privacy_crlf,
      '':srv 320 Target Target :actual address 198.51.100.138'' @ privacy_crlf,
      '':srv 320 Target Target :actual address 198.51.100.137 credential-canary'' @ privacy_crlf,
      '':srv NOTICE Target :x'' @ [CHR 0x0A] @ '':srv 320 Target Target :actual address 198.51.100.137'' @ privacy_crlf,
      '':srv NOTICE Target :x'' @ [CHR 0x0D] @ '':srv 320 Target Target :actual address 198.51.100.137'' @ privacy_crlf,
      '':srv 320 Target Target :actual address 198.51.100.137'']"

definition parser_self_test :: bool where
  "parser_self_test =
     (let nick = ''Target''; address = ''198.51.100.137'';
          redact = (\<lambda>t. redact_self_address t nick address);
          combined = st_wrong ! 6 @ st_valid @ st_valid320 @ st_wrong ! 0
      in redact st_valid = st_expected \<and>
         redact st_valid320 = st_expected320 \<and> has_self_320 st_valid320 nick address \<and>
         \<not> credentials_absent st_valid [''credential-canary''] \<and>
         credentials_absent st_valid [''other-credential''] \<and>
         list_all (\<lambda>w. redact w = w) (st_wrong @ st_wrong320) \<and>
         list_all (\<lambda>w. \<not> has_self_320 w nick address) st_wrong320 \<and>
         \<not> credentials_absent (st_wrong320 ! 5) [''credential-canary''] \<and>
         redact combined = st_wrong ! 6 @ st_expected @ st_expected320 @ st_wrong ! 0)"

section \<open>Waiting for a line\<close>

record irc =
  ir_data :: string
  ir_pending :: string

text \<open>\<open>until\<close>: each entry of the list is one \<open>recv\<close>, \<open>None\<close> when the deadline has passed
  (a socket timeout or no time left). The result is the data since the call and the entries not
  used; \<open>None\<close> when the code raises.\<close>

function until_from :: "nat \<Rightarrow> string \<Rightarrow> irc \<Rightarrow> string option list \<Rightarrow> (string \<times> irc \<times> string option list) option" where
  "until_from start needle c rs =
     (case find_sub (ir_pending c) privacy_crlf of
        Some i \<Rightarrow>
          let line = take (i + 2) (ir_pending c);
              c1 = c\<lparr>ir_pending := drop (i + 2) (ir_pending c), ir_data := ir_data c @ line\<rparr>
          in if \<not> length (ir_data c1) < 1024 * 1024 then None
             else if contains_sub line needle then Some (drop start (ir_data c1), c1, rs)
             else until_from start needle c1 rs
      | None \<Rightarrow>
          (case rs of
             [] \<Rightarrow> None
           | None # _ \<Rightarrow> None
           | Some p # rs' \<Rightarrow>
               if p = [] then None
               else let c1 = c\<lparr>ir_pending := ir_pending c @ p\<rparr> in
                 if \<not> length (ir_pending c1) < 65536 then None
                 else until_from start needle c1 rs'))"
  by pat_completeness auto
termination
  by (relation "measures [\<lambda>(s, n, c, rs). length rs, \<lambda>(s, n, c, rs). length (ir_pending c)]")
    (auto simp: privacy_crlf_def dest: find_sub_bound)

declare until_from.simps [simp del]

definition until :: "string \<Rightarrow> irc \<Rightarrow> string option list \<Rightarrow> (string \<times> irc \<times> string option list) option" where
  "until needle c rs = until_from (length (ir_data c)) needle c rs"

section \<open>Doctor reports\<close>

definition keys_are :: "json \<Rightarrow> string list \<Rightarrow> bool" where
  "keys_are j ks = (is_obj j \<and> set (json_keys j) = set ks)"

definition short_str :: "json \<Rightarrow> bool" where
  "short_str j = (case j of JStr s \<Rightarrow> length (utf8_decode s) \<le> 2048 | _ \<Rightarrow> False)"

definition str_in :: "json \<Rightarrow> string list \<Rightarrow> bool" where
  "str_in j ss = (case j of JStr s \<Rightarrow> s \<in> set ss | _ \<Rightarrow> False)"

definition u64_or_none :: "json \<Rightarrow> bool" where
  "u64_or_none j = (j = JNull \<or> (case json_int j of Some n \<Rightarrow> 0 \<le> n \<and> n < 2 ^ 64 | None \<Rightarrow> False))"

definition check_check :: "json \<Rightarrow> bool" where
  "check_check c =
     (keys_are c [''status'', ''id'', ''source'', ''detail''] \<and>
      str_in (json_get c ''status'') [''pass'', ''warn'', ''fail'', ''skipped''] \<and>
      list_all (\<lambda>k. short_str (json_get c k)) (json_keys c))"

definition check_environment :: "json \<Rightarrow> bool" where
  "check_environment e =
     (keys_are e [''openrc_marker'', ''systemd_marker'', ''container_marker'', ''manager_hint''] \<and>
      list_all (\<lambda>k. str_in (json_get e k) [''present'', ''absent'', ''unknown''])
        [''openrc_marker'', ''systemd_marker'', ''container_marker''] \<and>
      str_in (json_get e ''manager_hint'') [''openrc'', ''systemd'', ''unknown''])"

definition template_texts :: "string list" where
  "template_texts = [''source'', ''executable'', ''config'', ''identity'', ''working_directory'',
     ''preflight_policy'', ''restart'', ''logging'']"

definition check_template :: "json \<Rightarrow> bool" where
  "check_template t =
     (keys_are t (template_texts @ [''preflight_argv'', ''start_argv'']) \<and>
      list_all (\<lambda>k. short_str (json_get t k)) template_texts \<and>
      list_all (\<lambda>k. case json_get t k of JList xs \<Rightarrow> list_all short_str xs | _ \<Rightarrow> False)
        [''preflight_argv'', ''start_argv''])"

definition plan_texts :: "string list" where
  "plan_texts = [''selection_basis'', ''host_paths'', ''runtime_identity_access'', ''manager_status'',
     ''daemon_readiness'', ''network_reachability'', ''resource_ceilings'', ''validation'']"

definition check_plan :: "json \<Rightarrow> bool" where
  "check_plan p =
     (keys_are p (plan_texts @ [''selected'', ''template'', ''container_template'']) \<and>
      str_in (json_get p ''selected'') [''openrc'', ''systemd'', ''foreground''] \<and>
      list_all (\<lambda>k. short_str (json_get p k)) plan_texts \<and>
      list_all (\<lambda>k. check_template (json_get p k)) [''template'', ''container_template''])"

definition observed_counts :: "string list" where
  "observed_counts = [''tcp_active'', ''secured_links'', ''established_links'', ''peers_up'',
     ''peers_total'', ''quorum'', ''components'', ''partitioned'']"

definition connection_events :: "string list" where
  "connection_events = [''accepted'', ''adopted'', ''registered'', ''closed'', ''refused'', ''recv_eof'',
     ''recv_error'', ''send_error'', ''recv_buffer_missing'', ''recv_buffer_bounds'',
     ''recv_buffer_replenish'', ''ktls_rx_close'', ''tls_established'',
     ''tls_kernel_handshake_conflict'', ''tls_output_error'', ''tls_error'', ''command_quit'',
     ''parser_error'', ''recvq_limit'', ''nick_auth_required'', ''nick_denial_output'',
     ''websocket_peer_close'', ''websocket_close'']"

definition check_event :: "json \<Rightarrow> bool" where
  "check_event i =
     (keys_are i [''event'', ''count''] \<and> str_in (json_get i ''event'') connection_events \<and>
      u64_or_none (json_get i ''count''))"

definition check_events :: "json \<Rightarrow> bool" where
  "check_events es =
     (case es of
        JList xs \<Rightarrow> length xs = length connection_events \<and> list_all check_event xs \<and>
          (\<lambda>x. json_get x ''event'') ` set xs = JStr ` set connection_events
      | _ \<Rightarrow> False)"

definition check_observations :: "json \<Rightarrow> bool" where
  "check_observations obs =
     (keys_are obs (observed_counts @ [''freshness'', ''service_readiness'', ''connection_events'']) \<and>
      list_all (\<lambda>k. u64_or_none (json_get obs k)) observed_counts \<and>
      is_str (json_get obs ''freshness'') \<and> is_str (json_get obs ''service_readiness'') \<and>
      (case json_int (json_get obs ''established_links'') of Some n \<Rightarrow> n \<ge> 1 | None \<Rightarrow> False) \<and>
      check_events (json_get obs ''connection_events''))"

definition check_report :: "json \<Rightarrow> bool \<Rightarrow> bool" where
  "check_report r online =
     (keys_are r [''schema_version'', ''mode'', ''readiness'', ''report_build_version'', ''failed'',
        ''checks'', ''observations'', ''service_environment'', ''service_plan''] \<and>
      json_eq (json_get r ''schema_version'') (JInt 1) \<and> json_get r ''mode'' = JStr ''preflight'' \<and>
      json_get r ''readiness'' = JStr ''unknown'' \<and>
      (case json_get r ''failed'' of JBool _ \<Rightarrow> True | _ \<Rightarrow> False) \<and>
      is_str (json_get r ''report_build_version'') \<and>
      (case json_get r ''checks'' of JList cs \<Rightarrow> cs \<noteq> [] \<and> list_all check_check cs | _ \<Rightarrow> False) \<and>
      check_environment (json_get r ''service_environment'') \<and>
      check_plan (json_get r ''service_plan'') \<and>
      (if online then check_observations (json_get r ''observations'')
       else json_get r ''observations'' = JNull))"

section \<open>Records and their fields\<close>

lemma splitn_char: "c \<notin> set a \<Longrightarrow> splitn (Suc n) [c] (a @ c # s) = a # splitn n [c] s"
  by (subst splitn.simps) (simp add: find_sub_char)

lemma splitn_not_Nil [simp]: "splitn n p s \<noteq> []"
  by (subst splitn.simps) (simp split: option.split)

lemma join_splitn: "join p (splitn n p s) = s"
proof (induction n p s rule: splitn.induct)
  case (1 n p s)
  show ?case
  proof (cases "n = 0 \<or> find_sub s p = None")
    case True
    then show ?thesis by (subst splitn.simps) auto
  next
    case False
    then obtain i where i: "n \<noteq> 0" "find_sub s p = Some i" by auto
    have "take i s @ p @ drop (i + length p) s = s"
      using find_sub_startswith [OF i(2)] unfolding startswith_def
      by (metis append_take_drop_id drop_drop add.commute)
    with "1.IH" [OF i] i show ?thesis by (subst splitn.simps) (simp add: join_Cons)
  qed
qed

text \<open>A line with six fields, and what replacing one of them does to its length.\<close>

lemma six_fields:
  assumes "length xs = 6"
  obtains a b c d e f where "xs = [a, b, c, d, e, f]"
proof -
  from assms have "xs = [xs ! 0, xs ! 1, xs ! 2, xs ! 3, xs ! 4, xs ! 5]"
    by (intro nth_equalityI) (auto simp: less_Suc_eq numeral_eq_Suc)
  then show ?thesis by (rule that)
qed

lemma join_update_length:
  "i < length xs \<Longrightarrow> length y = length (xs ! i) \<Longrightarrow> length (join p (xs[i := y])) = length (join p xs)"
proof (induction xs arbitrary: i)
  case (Cons x xs)
  show ?case
  proof (cases i)
    case 0
    with Cons.prems show ?thesis by (cases xs) simp_all
  next
    case (Suc j)
    with Cons.prems have "xs \<noteq> []" "j < length xs" "length y = length (xs ! j)" by auto
    with Cons.IH [of j] Suc show ?thesis by (simp add: join_Cons)
  qed
qed simp

lemma redact_line_length: "length (redact_line nick address line) = length line"
proof -
  let ?fs = "splitn 5 '' '' line"
  have j: "length (join '' '' (?fs[i := y])) = length line"
    if "self_record nick line" "i < 6" "length y = length (?fs ! i)" for i y
    using join_update_length [of i ?fs y "'' ''"] join_splitn [of "'' ''" 5 line] that
    by (simp add: self_record_def Let_def)
  show ?thesis unfolding redact_line_def Let_def by (auto intro!: j)
qed

text \<open>The two replies whose address is exempt.\<close>

definition self_reply :: "string \<Rightarrow> string \<Rightarrow> string \<Rightarrow> bool" where
  "self_reply nick address r =
     (\<exists>src rest. r = CHR '':'' # src @ '' 338 '' @ nick @ '' '' @ nick @ '' '' @ address @ '' '' @ rest \<or>
        r = CHR '':'' # src @ '' 320 '' @ nick @ '' '' @ nick @ '' :actual address '' @ address)"

lemma redact_line_changes:
  assumes "redact_line nick address line \<noteq> line"
  shows "self_reply nick address line"
proof -
  have s: "self_record nick line"
    using assms by (auto simp: redact_line_def Let_def split: if_splits)
  then have "length (splitn 5 '' '' line) = 6" by (simp add: self_record_def Let_def)
  then obtain a b c d e f where f: "splitn 5 '' '' line = [a, b, c, d, e, f]" by (rule six_fields)
  obtain src where a: "a = CHR '':'' # src" "c = nick" "d = nick"
    using s by (auto simp: self_record_def Let_def f startswith_iff)
  have l: "line = a @ '' '' @ b @ '' '' @ c @ '' '' @ d @ '' '' @ e @ '' '' @ f"
    using join_splitn [of "'' ''" 5 line] by (simp add: f)
  have "b = ''338'' \<and> e = address \<or> b = ''320'' \<and> e = '':actual'' \<and> f = ''address '' @ address"
    using assms by (auto simp: redact_line_def Let_def f split: if_splits)
  then show ?thesis unfolding self_reply_def
  proof (elim disjE conjE)
    assume "b = ''338''" "e = address"
    then show "\<exists>src rest. line = CHR '':'' # src @ '' 338 '' @ nick @ '' '' @ nick @ '' '' @ address @ '' '' @ rest \<or>
        line = CHR '':'' # src @ '' 320 '' @ nick @ '' '' @ nick @ '' :actual address '' @ address"
      using l a by (intro exI [of _ src] exI [of _ f]) simp
  next
    assume "b = ''320''" "e = '':actual''" "f = ''address '' @ address"
    then show "\<exists>src rest. line = CHR '':'' # src @ '' 338 '' @ nick @ '' '' @ nick @ '' '' @ address @ '' '' @ rest \<or>
        line = CHR '':'' # src @ '' 320 '' @ nick @ '' '' @ nick @ '' :actual address '' @ address"
      using l a by (intro exI [of _ src]) simp
  qed
qed

lemma contains_sub_trans: "contains_sub s r \<Longrightarrow> contains_sub r x \<Longrightarrow> contains_sub s x"
  unfolding contains_sub_iff by (metis append.assoc)

lemma join_contains: "r \<in> set rs \<Longrightarrow> contains_sub (join p rs) r"
proof (induction rs)
  case (Cons a rs)
  show ?case
  proof (cases "rs = []")
    case True
    with Cons.prems show ?thesis by (auto simp: contains_sub_iff intro: exI [of _ "[]"])
  next
    case False
    show ?thesis
    proof (cases "r = a")
      case True
      with False show ?thesis by (auto simp: join_Cons contains_sub_iff intro: exI [of _ "[]"])
    next
      case f: False
      with Cons have "contains_sub (join p rs) r" by auto
      moreover have "contains_sub (join p (a # rs)) (join p rs)"
        unfolding contains_sub_iff join_Cons [OF False]
        by (intro exI [of _ "a @ p"] exI [of _ "[]"]) simp
      ultimately show ?thesis by (blast intro: contains_sub_trans)
    qed
  qed
qed simp

text \<open>The redaction hides nothing else. It keeps the length of the transcript, and when the
  address no longer occurs in the redacted transcript, every complete record of the original that
  contains it is a 338 or 320 reply to the client about itself, and the incomplete last record
  does not contain it.\<close>

theorem redaction_hides_only_self:
  assumes "\<not> contains_sub (redact_self_address transcript nick address) address"
  shows "length (redact_self_address transcript nick address) = length transcript \<and>
    list_all (\<lambda>r. contains_sub r address \<longrightarrow> self_reply nick address r)
      (butlast (split_sub privacy_crlf transcript)) \<and>
    \<not> contains_sub (last (split_sub privacy_crlf transcript)) address"
proof -
  define rs where "rs = split_sub privacy_crlf transcript"
  define f where "f = redact_line nick address"
  have r: "redact_self_address transcript nick address = join privacy_crlf (map f (butlast rs) @ [last rs])"
    by (simp add: redact_self_address_def Let_def rs_def f_def)
  have nc: "privacy_crlf \<noteq> []" by (simp add: privacy_crlf_def)
  have n: "rs \<noteq> []" by (simp add: rs_def)
  have no: "\<not> contains_sub x address" if "x \<in> set (map f (butlast rs) @ [last rs])" for x
    using assms that join_contains contains_sub_trans unfolding r by blast
  have "self_reply nick address x" if "x \<in> set (butlast rs)" "contains_sub x address" for x
  proof -
    have "f x \<noteq> x" using no [of "f x"] that by auto
    then show ?thesis unfolding f_def by (rule redact_line_changes)
  qed
  moreover have "length (join privacy_crlf (map f (butlast rs) @ [last rs])) = length transcript"
  proof -
    have "length (join p (map f xs @ [y])) = length (join p (xs @ [y]))" for p xs y
      by (induction xs) (auto simp: join_Cons f_def redact_line_length)
    then show ?thesis
      using join_split_sub [OF nc, of transcript] n by (simp add: rs_def)
  qed
  ultimately show ?thesis
    using no [of "last rs"] by (simp add: r list_all_iff rs_def [symmetric])
qed

definition demo_transcript :: string where
  "demo_transcript = '':s 338 T T 1.2 :x'' @ privacy_crlf @ '':s 338 U T 1.3 :x'' @ privacy_crlf @ ''q''"

theorem redaction_hides_only_self_witness:
  "\<not> contains_sub (redact_self_address demo_transcript ''T'' ''1.2'') ''1.2'' \<and>
   contains_sub demo_transcript ''1.2'' \<and>
   length (redact_self_address demo_transcript ''T'' ''1.2'') = length demo_transcript \<and>
   self_reply ''T'' ''1.2'' (hd (split_sub privacy_crlf demo_transcript))"
proof -
  have h: "\<not> contains_sub (redact_self_address demo_transcript ''T'' ''1.2'') ''1.2''"
    "contains_sub demo_transcript ''1.2''"
    "contains_sub (hd (split_sub privacy_crlf demo_transcript)) ''1.2''"
    "length (butlast (split_sub privacy_crlf demo_transcript)) = 2"
    by code_simp+
  have "hd (split_sub privacy_crlf demo_transcript) \<in> set (butlast (split_sub privacy_crlf demo_transcript))"
    using h(4) by (cases "split_sub privacy_crlf demo_transcript") (auto split: if_splits)
  with redaction_hides_only_self [OF h(1)] h show ?thesis by (auto simp: list_all_iff)
qed

lemma self_test_passes: "parser_self_test"
  by code_simp

section \<open>The reader loses nothing\<close>

abbreviation terminated :: "string list \<Rightarrow> string" where
  "terminated ls \<equiv> concat (map (\<lambda>l. l @ privacy_crlf) ls)"

abbreviation received :: "string option list \<Rightarrow> string" where
  "received rs \<equiv> concat (map the rs)"

definition read_to :: "string \<Rightarrow> irc \<Rightarrow> string option list \<Rightarrow> string list \<Rightarrow> string \<Rightarrow> irc \<Rightarrow> bool" where
  "read_to needle c used ls l c' =
     (None \<notin> set used \<and> ir_data c' = ir_data c @ terminated (ls @ [l]) \<and>
      terminated (ls @ [l]) @ ir_pending c' = ir_pending c @ received used \<and>
      contains_sub (l @ privacy_crlf) needle \<and>
      list_all (\<lambda>x. \<not> contains_sub (x @ privacy_crlf) needle) ls \<and>
      list_all (\<lambda>x. \<not> contains_sub x privacy_crlf) (ls @ [l]))"

lemma find_sub_before:
  assumes "find_sub s p = Some i" "p \<noteq> []"
  shows "\<not> contains_sub (take i s) p"
proof
  assume "contains_sub (take i s) p"
  then obtain j where j: "find_sub (take i s) p = Some j" by (auto simp: contains_sub_def)
  have "j + length p \<le> i" using find_sub_bound [OF j] by simp
  moreover have "find_sub s p = Some j"
    using find_sub_append [OF j, of "drop i s"] by simp
  ultimately show False using assms by simp
qed

lemma until_from_reads:
  "until_from start needle c rs = Some (d, c', rs') \<Longrightarrow>
   d = drop start (ir_data c') \<and> (\<exists>used ls l. rs = used @ rs' \<and> read_to needle c used ls l c')"
proof (induction start needle c rs rule: until_from.induct)
  case (1 start needle c rs)
  show ?case
  proof (cases "find_sub (ir_pending c) privacy_crlf")
    case (Some i)
    let ?l = "take i (ir_pending c)"
    let ?c1 = "c\<lparr>ir_pending := drop (i + 2) (ir_pending c), ir_data := ir_data c @ take (i + 2) (ir_pending c)\<rparr>"
    have ln: "take (i + 2) (ir_pending c) = ?l @ privacy_crlf"
      using find_sub_startswith [OF Some] take_add [of i 2 "ir_pending c"]
      by (simp add: startswith_def privacy_crlf_def numeral_2_eq_2)
    have pd: "ir_pending c = ?l @ privacy_crlf @ drop (i + 2) (ir_pending c)"
      by (metis append.assoc append_take_drop_id ln)
    have nl: "\<not> contains_sub ?l privacy_crlf"
      using find_sub_before [OF Some] by (simp add: privacy_crlf_def)
    have big: "length (ir_data ?c1) < 1024 * 1024"
      using "1.prems" Some by (auto simp: until_from.simps [of start needle c rs] Let_def split: if_splits)
    show ?thesis
    proof (cases "contains_sub (take (i + 2) (ir_pending c)) needle")
      case True
      then have "d = drop start (ir_data ?c1)" "c' = ?c1" "rs' = rs"
        using "1.prems" Some big by (auto simp: until_from.simps [of start needle c rs] Let_def)
      moreover have "read_to needle c [] [] ?l ?c1"
        using True ln pd nl by (simp add: read_to_def)
      ultimately show ?thesis by fastforce
    next
      case False
      then have "until_from start needle ?c1 rs = Some (d, c', rs')"
        using "1.prems" Some big by (simp add: until_from.simps [of start needle c rs] Let_def)
      from "1.IH"(2) [OF Some refl refl _ False this] big
      obtain used ls l where r: "d = drop start (ir_data c')" "rs = used @ rs'"
        "read_to needle ?c1 used ls l c'" by auto
      have "read_to needle c used (?l # ls) l c'"
        using r(3) ln nl False pd unfolding read_to_def by simp
      with r show ?thesis by blast
    qed
  next
    case None
    then obtain p rs1 where p: "rs = Some p # rs1" "p \<noteq> []"
      "length (ir_pending c @ p) < 65536"
      "until_from start needle (c\<lparr>ir_pending := ir_pending c @ p\<rparr>) rs1 = Some (d, c', rs')"
      using "1.prems"
      by (auto simp: until_from.simps [of start needle c rs] Let_def split: list.splits option.splits if_splits)
    from "1.IH"(1) [OF None p(1) refl p(2) refl _ p(4)] p(3)
    obtain used ls l where r: "d = drop start (ir_data c')" "rs1 = used @ rs'"
      "read_to needle (c\<lparr>ir_pending := ir_pending c @ p\<rparr>) used ls l c'" by auto
    then have "read_to needle c (Some p # used) ls l c'" by (simp add: read_to_def)
    with r p(1) show ?thesis by (metis append_Cons)
  qed
qed

text \<open>When the reader returns, it has neither lost nor invented a byte: what it kept and what is
  still pending are what it had and what it received. The returned text is the lines handled by
  the call, each ended by CRLF and complete, and the needle occurs in the last of them and in no
  earlier one.\<close>

theorem until_exact:
  assumes "until needle c rs = Some (d, c', rs')"
  shows "\<exists>used ls l. rs = used @ rs' \<and> None \<notin> set used \<and>
    ir_data c' = ir_data c @ d \<and> d = terminated (ls @ [l]) \<and>
    d @ ir_pending c' = ir_pending c @ received used \<and>
    contains_sub (l @ privacy_crlf) needle \<and>
    list_all (\<lambda>x. \<not> contains_sub (x @ privacy_crlf) needle) ls \<and>
    list_all (\<lambda>x. \<not> contains_sub x privacy_crlf) (ls @ [l])"
proof -
  from until_from_reads [OF assms [unfolded until_def]] obtain used ls l where
    r: "d = drop (length (ir_data c)) (ir_data c')" "rs = used @ rs'" "read_to needle c used ls l c'"
    by blast
  then have "d = terminated (ls @ [l])" by (simp add: read_to_def)
  with r show ?thesis
    by (intro exI [of _ used] exI [of _ ls] exI [of _ l]) (simp add: read_to_def)
qed

theorem until_exact_witness:
  "\<exists>d c' used ls l.
     until '' 001 '' \<lparr>ir_data = ''a'', ir_pending = '':s 0''\<rparr> [Some (''02 x'' @ privacy_crlf @ '':s''),
       Some ('' 001 n'' @ privacy_crlf @ ''z''), None] = Some (d, c', [None]) \<and>
     used = [Some (''02 x'' @ privacy_crlf @ '':s''), Some ('' 001 n'' @ privacy_crlf @ ''z'')] \<and>
     ir_data c' = ''a'' @ d \<and> d = terminated (ls @ [l]) \<and>
     d @ ir_pending c' = '':s 0'' @ received used \<and> contains_sub (l @ privacy_crlf) '' 001 ''"
proof -
  obtain d c' where e: "until '' 001 '' \<lparr>ir_data = ''a'', ir_pending = '':s 0''\<rparr>
      [Some (''02 x'' @ privacy_crlf @ '':s''), Some ('' 001 n'' @ privacy_crlf @ ''z''), None] =
      Some (d, c', [None])"
  proof -
    have "until '' 001 '' \<lparr>ir_data = ''a'', ir_pending = '':s 0''\<rparr>
      [Some (''02 x'' @ privacy_crlf @ '':s''), Some ('' 001 n'' @ privacy_crlf @ ''z''), None] =
      Some ('':s 002 x'' @ privacy_crlf @ '':s 001 n'' @ privacy_crlf,
        \<lparr>ir_data = ''a'' @ '':s 002 x'' @ privacy_crlf @ '':s 001 n'' @ privacy_crlf, ir_pending = ''z''\<rparr>, [None])"
      by code_simp
    then show ?thesis by (rule that)
  qed
  from until_exact [OF e] e show ?thesis by fastforce
qed

section \<open>Reports\<close>

lemma connection_events_distinct: "distinct connection_events"
  by code_simp

lemma check_events_mset:
  assumes "check_events (JList xs)"
  shows "mset (map (\<lambda>x. json_get x ''event'') xs) = mset (map JStr connection_events)"
proof -
  let ?ys = "map (\<lambda>x. json_get x ''event'') xs" and ?es = "map JStr connection_events"
  have s: "set ?ys = set ?es" "length ?ys = length ?es"
    using assms by (auto simp: check_events_def)
  have d: "distinct ?es"
    using connection_events_distinct by (simp add: distinct_map inj_on_def)
  then have "card (set ?ys) = length ?ys" using s distinct_card by metis
  then have "distinct ?ys" by (rule card_distinct)
  from set_eq_iff_mset_eq_distinct [OF this d] s(1) show ?thesis by blast
qed

text \<open>A report accepted online shows a live link and counts every connection event exactly once:
  its event list is a permutation of the known events, each with a 64-bit count or none.\<close>

theorem online_report_sound:
  assumes "check_report r True"
  shows "\<exists>xs n. json_get (json_get r ''observations'') ''connection_events'' = JList xs \<and>
    mset (map (\<lambda>x. json_get x ''event'') xs) = mset (map JStr connection_events) \<and>
    list_all (\<lambda>x. u64_or_none (json_get x ''count'')) xs \<and>
    json_get (json_get r ''observations'') ''established_links'' = JInt n \<and> 1 \<le> n \<and> n < 2 ^ 64"
proof -
  let ?o = "json_get r ''observations''"
  have o: "check_observations ?o" using assms by (simp add: check_report_def)
  then have e: "check_events (json_get ?o ''connection_events'')" by (simp add: check_observations_def)
  then obtain xs where xs: "json_get ?o ''connection_events'' = JList xs"
    by (auto simp: check_events_def split: json.splits)
  have "list_all (\<lambda>x. u64_or_none (json_get x ''count'')) xs"
    using e by (auto simp: xs check_events_def check_event_def list_all_iff)
  moreover obtain n where "json_get ?o ''established_links'' = JInt n" "1 \<le> n" "n < 2 ^ 64"
  proof -
    have "u64_or_none (json_get ?o ''established_links'')"
      using o by (simp add: check_observations_def observed_counts_def)
    with o that show ?thesis
      by (cases "json_get ?o ''established_links''")
        (auto simp: check_observations_def u64_or_none_def)
  qed
  ultimately show ?thesis using xs check_events_mset [OF e [unfolded xs]] by blast
qed

definition demo_template :: json where
  "demo_template = JObj (map (\<lambda>k. (k, JStr [])) template_texts @
     [(''preflight_argv'', JList []), (''start_argv'', JList [JStr ''a''])])"

definition demo_plan :: json where
  "demo_plan = JObj (map (\<lambda>k. (k, JStr [])) plan_texts @
     [(''selected'', JStr ''openrc''), (''template'', demo_template), (''container_template'', demo_template)])"

definition demo_environment :: json where
  "demo_environment = JObj [(''openrc_marker'', JStr ''present''), (''systemd_marker'', JStr ''absent''),
     (''container_marker'', JStr ''unknown''), (''manager_hint'', JStr ''openrc'')]"

definition demo_observations :: json where
  "demo_observations = JObj (map (\<lambda>k. (k, JInt 1)) observed_counts @
     [(''freshness'', JStr []), (''service_readiness'', JStr []),
      (''connection_events'', JList (map (\<lambda>e. JObj [(''event'', JStr e), (''count'', JNull)])
         connection_events))])"

definition demo_report :: json where
  "demo_report = JObj [(''schema_version'', JInt 1), (''mode'', JStr ''preflight''),
     (''readiness'', JStr ''unknown''), (''report_build_version'', JStr ''1''), (''failed'', JBool False),
     (''checks'', JList [JObj [(''status'', JStr ''pass''), (''id'', JStr []), (''source'', JStr []),
        (''detail'', JStr [])]]), (''observations'', demo_observations),
     (''service_environment'', demo_environment), (''service_plan'', demo_plan)]"

lemma demo_report_checks: "check_report demo_report True"
proof -
  have "check_environment demo_environment" by code_simp
  moreover have "check_template demo_template" by code_simp
  then have "check_plan demo_plan"
    by (simp add: check_plan_def demo_plan_def plan_texts_def keys_are_def json_keys_def json_get_def
        str_in_def short_str_def utf8_decode_def)
  moreover have "check_observations demo_observations" by code_simp
  moreover have "check_check (JObj [(''status'', JStr ''pass''), (''id'', JStr []), (''source'', JStr []),
        (''detail'', JStr [])])" by code_simp
  ultimately show ?thesis
    by (simp add: check_report_def demo_report_def keys_are_def json_keys_def json_get_def)
qed

theorem online_report_sound_witness:
  "\<exists>xs n. json_get (json_get demo_report ''observations'') ''connection_events'' = JList xs \<and>
    mset (map (\<lambda>x. json_get x ''event'') xs) = mset (map JStr connection_events) \<and>
    json_get (json_get demo_report ''observations'') ''established_links'' = JInt n \<and> 1 \<le> n"
  using online_report_sound [OF demo_report_checks] by blast

end
