(* ===== verification/Sqpoll.thy ===== *)
theory Sqpoll
  imports PyText "HOL-Library.Multiset"
begin

text \<open>
  The ring worker benchmark, \<open>src/tools/bench_sqpoll.py\<close>: reading task statistics from \<open>/proc\<close>,
  the CPU snapshots around a run, the checks that make a measurement valid, the order of the
  measurements and the verdict. What the kernel and the worker do is an argument: a \<open>proc_view\<close> is
  what \<open>/proc\<close> shows at a snapshot, a \<open>worker_run\<close> everything one worker process does. The
  worker's two records are taken with the fields and integer types its protocol gives them
  (\<open>None\<close> where reading one raises). Derived rates, medians and the written report are left out.
\<close>

section \<open>Task statistics\<close>

definition py_index :: "'a list \<Rightarrow> nat \<Rightarrow> py_error + 'a" where
  "py_index xs i = (if i < length xs then Inr (xs ! i) else Inl IndexError)"

definition py_int_of :: "string \<Rightarrow> py_error + int" where
  "py_int_of s = (case byte_int s of Some n \<Rightarrow> Inr n | None \<Rightarrow> Inl (ValueError s))"

text \<open>\<open>close\<close> is \<open>-1\<close> when the file has no closing parenthesis; the slices then count from the
  end, as Python's do.\<close>

definition stat_name :: "string \<Rightarrow> nat \<Rightarrow> string" where
  "stat_name content opening =
     (case rfind_sub content '')'' of
        Some close \<Rightarrow> take (close - (opening + 1)) (drop (opening + 1) content)
      | None \<Rightarrow> drop (opening + 1) (butlast content))"

definition stat_fields :: "string \<Rightarrow> string list" where
  "stat_fields content =
     split_ws byte_space
       (case rfind_sub content '')'' of Some close \<Rightarrow> drop (close + 2) content | None \<Rightarrow> drop 1 content)"

definition field_int :: "string list \<Rightarrow> nat \<Rightarrow> py_error + int" where
  "field_int fs i = bind_res (py_index fs i) py_int_of"

definition task_stat :: "string \<Rightarrow> py_error + (string \<times> int \<times> int)" where
  "task_stat content =
     (let fs = stat_fields content in
      case find_sub content ''('' of
        None \<Rightarrow> Inl (ValueError ''substring not found'')
      | Some opening \<Rightarrow>
          bind_res (field_int fs 11) (\<lambda>utime.
          bind_res (field_int fs 12) (\<lambda>stime.
          bind_res (field_int fs 19) (\<lambda>starttime.
          Inr (stat_name content opening, utime + stime, starttime)))))"

section \<open>Snapshots\<close>

datatype proc_path = TaskStat nat nat | ProcStat nat

record sq_task =
  st_name :: string
  st_ticks :: int
  st_start :: int
  st_path :: proc_path

text \<open>The thread ids of the process (\<open>None\<close> when it is gone), the numeric entries of \<open>/proc\<close> with
  their command names (\<open>None\<close> when reading one raises a caught error), the \<open>stat\<close> files.\<close>

record proc_view =
  pv_tasks :: "nat list option"
  pv_procs :: "(nat \<times> string option) list"
  pv_stat :: "proc_path \<Rightarrow> string option"

definition worker_name :: "nat \<Rightarrow> string" where
  "worker_name pid = ''iou-sqp-'' @ show_nat pid"

definition add_worker ::
  "nat \<Rightarrow> (nat \<times> proc_path) list \<Rightarrow> nat \<times> string option \<Rightarrow> (nat \<times> proc_path) list" where
  "add_worker pid paths p =
     (if fst p \<in> fst ` set paths then paths
      else case snd p of
        None \<Rightarrow> paths
      | Some comm \<Rightarrow>
          if strip_by byte_space comm = worker_name pid then paths @ [(fst p, ProcStat (fst p))]
          else paths)"

definition add_known :: "(nat \<times> proc_path) list \<Rightarrow> nat \<times> sq_task \<Rightarrow> (nat \<times> proc_path) list" where
  "add_known paths old =
     (if fst old \<in> fst ` set paths then paths else paths @ [(fst old, st_path (snd old))])"

definition read_task :: "proc_view \<Rightarrow> nat \<times> proc_path \<Rightarrow> py_error + (nat \<times> sq_task)" where
  "read_task v tp =
     (case pv_stat v (snd tp) of
        None \<Rightarrow> Inl (OSError ''stat'')
      | Some content \<Rightarrow>
          bind_res (task_stat content) (\<lambda>(name, ticks, starttime).
          Inr (fst tp, \<lparr>st_name = name, st_ticks = ticks, st_start = starttime, st_path = snd tp\<rparr>)))"

definition sq_count :: "nat \<Rightarrow> (nat \<times> sq_task) list \<Rightarrow> nat" where
  "sq_count pid values = length (filter (\<lambda>v. st_name (snd v) = worker_name pid) values)"

definition snapshot_of ::
  "proc_view \<Rightarrow> nat \<Rightarrow> int \<Rightarrow> int \<Rightarrow> (nat \<times> sq_task) list option \<Rightarrow> py_error + (nat \<times> sq_task) list" where
  "snapshot_of v pid mode rings known =
     (case pv_tasks v of
        None \<Rightarrow> Inl (OSError ''task'')
      | Some tids \<Rightarrow>
          let own = map (\<lambda>t. (t, TaskStat pid t)) tids;
              paths = (case known of
                 None \<Rightarrow> foldl (add_worker pid) own (pv_procs v)
               | Some old \<Rightarrow> foldl add_known own old)
          in bind_res (map_res (read_task v) paths) (\<lambda>values.
             if mode \<noteq> 0 \<and> int (sq_count pid values) \<noteq> rings
             then Inl (RuntimeError ''CPU coverage invalid'') else Inr values))"

section \<open>One measurement\<close>

text \<open>\<open>percentile(values, q)\<close> for \<open>q = n / d\<close> as a double: the product with the length is rounded,
  then rounded up.\<close>

definition float_times_ceil :: "nat \<Rightarrow> nat \<Rightarrow> nat \<Rightarrow> nat" where
  "float_times_ceil n d k =
     (case dyadic n d of (m, e) \<Rightarrow>
      case dyadic (m * k) 1 of (m', e') \<Rightarrow>
        let x = e + e' in
        if x \<ge> 0 then m' * 2 ^ nat x else (m' + 2 ^ nat (- x) - 1) div 2 ^ nat (- x))"

definition percentile :: "int list \<Rightarrow> nat \<times> nat \<Rightarrow> int option" where
  "percentile values q =
     (if values = [] then None
      else Some (sort values ! (float_times_ceil (fst q) (snd q) (length values) - 1)))"

text \<open>The latencies of a delivery phase of the live benchmark.\<close>

definition phase_latency_percentiles :: "int list \<Rightarrow> int option \<times> int option \<times> int option" where
  "phase_latency_percentiles latencies =
     (percentile latencies (1, 2), percentile latencies (19, 20), percentile latencies (99, 100))"

record sq_cell =
  sc_mode :: int
  sc_rings :: int
  sc_scenario :: string
  sc_batch :: int

record worker_ready =
  wr_status :: string
  wr_pid :: int
  wr_wake :: int

record worker_result =
  ws_status :: string
  ws_elapsed :: int
  ws_latency :: "int list"
  ws_completed :: int

text \<open>\<open>wn_sent\<close> says whether both lines (\<open>GO\<close>, \<open>ACK\<close>) could be written; \<open>wn_exit\<close> is \<open>None\<close> when the
  wait times out.\<close>

record worker_run =
  wn_pid :: nat
  wn_ready :: "worker_ready option"
  wn_gone :: bool
  wn_before :: proc_view
  wn_begin :: int
  wn_sent :: "bool \<times> bool"
  wn_result :: "worker_result option"
  wn_after :: proc_view
  wn_end :: int
  wn_exit :: "int option"

record sq_record =
  sr_cell :: sq_cell
  sr_repetition :: nat
  sr_status :: string
  sr_tasks :: "(nat \<times> string \<times> int) list"
  sr_completed :: int
  sr_latency :: "int list"
  sr_p50 :: "int option"
  sr_p99 :: "int option"

definition task_delta ::
  "(nat \<times> sq_task) list \<Rightarrow> nat \<times> sq_task \<Rightarrow> py_error + (nat \<times> string \<times> int)" where
  "task_delta after first =
     (case map_of after (fst first) of
        None \<Rightarrow> Inl (KeyError ''tid'')
      | Some lst \<Rightarrow>
          if st_start (snd first) \<noteq> st_start lst \<or> st_ticks lst < st_ticks (snd first)
          then Inl (RuntimeError ''CPU task identity/counter changed'')
          else Inr (fst first, st_name lst, st_ticks lst - st_ticks (snd first)))"

definition check_result :: "sq_cell \<Rightarrow> int \<Rightarrow> worker_run \<Rightarrow> worker_result \<Rightarrow> py_error + unit" where
  "check_result c duration_ms w r =
     (if ws_completed r \<le> 0 \<or> ws_completed r mod sc_batch c \<noteq> 0
      then Inl (RuntimeError ''invalid exact completion total'')
      else if sc_scenario c = ''burst'' \<and>
          (ws_completed r \<noteq> sc_rings c * sc_batch c * (duration_ms div 250) \<or>
           int (length (ws_latency r)) \<noteq> sc_rings c * (duration_ms div 250))
      then Inl (RuntimeError ''burst completion/sample count differs from scheduled workload'')
      else if wn_end w - wn_begin w = 0 \<or> ws_elapsed r = 0 then Inl (ValueError ''division by zero'')
      else Inr ())"

text \<open>The body of the \<open>try\<close>: \<open>Inl\<close> is the exception that makes the record a failed one,
  \<open>Inr None\<close> the unsupported worker.\<close>

definition measure_run ::
  "worker_run \<Rightarrow> sq_cell \<Rightarrow> int \<Rightarrow> py_error + ((nat \<times> string \<times> int) list \<times> worker_result) option" where
  "measure_run w c duration_ms =
     (case wn_ready w of
        None \<Rightarrow> Inl (RuntimeError ''ready'')
      | Some ready \<Rightarrow>
          if wr_status ready = ''unsupported''
          then (if wn_gone w then Inr None else Inl (RuntimeError ''timeout''))
          else if wr_status ready \<noteq> ''ready'' \<or> wr_pid ready \<noteq> int (wn_pid w)
          then Inl (RuntimeError ''invalid READY identity/status'')
          else if sc_mode c \<noteq> 0 \<and> wr_wake ready \<noteq> sc_rings c
          then Inl (RuntimeError ''SQ sleeping-worker wakeup test did not cover every ring'')
          else
            bind_res (snapshot_of (wn_before w) (wn_pid w) (sc_mode c) (sc_rings c) None) (\<lambda>before.
            if \<not> fst (wn_sent w) then Inl (OSError ''GO'')
            else case wn_result w of
              None \<Rightarrow> Inl (RuntimeError ''result'')
            | Some r \<Rightarrow>
                bind_res (snapshot_of (wn_after w) (wn_pid w) (sc_mode c) (sc_rings c) (Some before)) (\<lambda>after.
                if fst ` set before \<noteq> fst ` set after
                then Inl (RuntimeError ''CPU task set changed during measurement'')
                else bind_res (map_res (task_delta after) before) (\<lambda>per_task.
                  if \<not> snd (wn_sent w) then Inl (OSError ''ACK'')
                  else if wn_exit w \<noteq> Some 0 \<or> ws_status r \<noteq> ''ok''
                  then Inl (RuntimeError ''worker failed'')
                  else bind_res (check_result c duration_ms w r) (\<lambda>_. Inr (Some (per_task, r)))))))"

definition measure_cell :: "worker_run \<Rightarrow> sq_cell \<Rightarrow> nat \<Rightarrow> int \<Rightarrow> sq_record" where
  "measure_cell w c repetition duration_ms =
     (let empty = \<lparr>sr_cell = c, sr_repetition = repetition, sr_status = ''failed'', sr_tasks = [],
            sr_completed = 0, sr_latency = [], sr_p50 = None, sr_p99 = None\<rparr>
      in case measure_run w c duration_ms of
           Inl _ \<Rightarrow> empty
         | Inr None \<Rightarrow> empty\<lparr>sr_status := ''unsupported''\<rparr>
         | Inr (Some (per_task, r)) \<Rightarrow>
             empty\<lparr>sr_status := ''ok'', sr_tasks := per_task, sr_completed := ws_completed r,
               sr_latency := ws_latency r, sr_p50 := percentile (ws_latency r) (1, 2),
               sr_p99 := percentile (ws_latency r) (99, 100)\<rparr>)"

section \<open>The matrix\<close>

record sq_args =
  sa_duration :: int
  sa_repetitions :: int
  sa_modes :: "int list"
  sa_rings :: "int list"
  sa_scenarios :: "string list"
  sa_batches :: "int list"

definition default_args :: sq_args where
  "default_args = \<lparr>sa_duration = 10000, sa_repetitions = 3, sa_modes = [0, 1000, 10], sa_rings = [1, 4],
     sa_scenarios = [''burst'', ''continuous''], sa_batches = [32, 256]\<rparr>"


definition sq_cells :: "sq_args \<Rightarrow> (int \<times> string \<times> int) list" where
  "sq_cells a = concat (map (\<lambda>rings. concat (map (\<lambda>scenario. map (\<lambda>batch. (rings, scenario, batch))
     (sa_batches a)) (sa_scenarios a))) (sa_rings a))"

definition cell_of :: "int \<Rightarrow> int \<times> string \<times> int \<Rightarrow> sq_cell" where
  "cell_of mode w =
     \<lparr>sc_mode = mode, sc_rings = fst w, sc_scenario = fst (snd w), sc_batch = snd (snd w)\<rparr>"

definition rep_order :: "sq_args \<Rightarrow> nat \<Rightarrow> (int \<times> string \<times> int) list" where
  "rep_order a repetition = (if even repetition then sq_cells a else rev (sq_cells a))"

definition mode_order :: "sq_args \<Rightarrow> nat \<Rightarrow> nat \<Rightarrow> int list" where
  "mode_order a repetition index = (if even (repetition + index) then sa_modes a else rev (sa_modes a))"

definition rep_schedule :: "sq_args \<Rightarrow> nat \<Rightarrow> (nat \<times> sq_cell) list" where
  "rep_schedule a repetition =
     concat (map (\<lambda>(index, w). map (\<lambda>mode. (repetition, cell_of mode w)) (mode_order a repetition index))
       (enumerate 0 (rep_order a repetition)))"

definition schedule :: "sq_args \<Rightarrow> (nat \<times> sq_cell) list" where
  "schedule a = concat (map (rep_schedule a) [0..<nat (sa_repetitions a)])"




section \<open>The schedule\<close>







section \<open>Percentiles\<close>








section \<open>A zero exit\<close>






lemma measure_cell_ident [simp]:
  "sr_cell (measure_cell w c n dur) = c" "sr_repetition (measure_cell w c n dur) = n"
  by (simp_all add: measure_cell_def Let_def split: sum.split option.split prod.split)



section \<open>The order of the modes\<close>

definition modes_of :: "sq_args \<Rightarrow> nat \<Rightarrow> int \<times> string \<times> int \<Rightarrow> int list" where
  "modes_of a r w = map (\<lambda>(_, c). sc_mode c)
     (filter (\<lambda>(r', c). r' = r \<and> (sc_rings c, sc_scenario c, sc_batch c) = w) (schedule a))"

lemma modes_of_rep:
  assumes "r < nat (sa_repetitions a)"
  shows "modes_of a r w = map (\<lambda>(_, c). sc_mode c)
    (filter (\<lambda>(_, c). (sc_rings c, sc_scenario c, sc_batch c) = w) (rep_schedule a r))"
proof -
  let ?P = "\<lambda>(r', c). r' = r \<and> (sc_rings c, sc_scenario c, sc_batch c) = w"
  have other: "filter ?P (rep_schedule a n) = []" if "n \<noteq> r" for n
    using that by (auto simp: rep_schedule_def filter_empty_conv)
  have same: "filter ?P (rep_schedule a r) =
      filter (\<lambda>(_, c). (sc_rings c, sc_scenario c, sc_batch c) = w) (rep_schedule a r)"
    by (rule filter_cong) (auto simp: rep_schedule_def)
  have "filter ?P (concat (map (rep_schedule a) ns)) =
      (if r \<in> set ns then filter ?P (rep_schedule a r) else [])" if "distinct ns" for ns
    using that
  proof (induction ns)
    case (Cons n ns)
    then show ?case using other [of n] by (cases "n = r") auto
  qed simp
  from this [of "[0..<nat (sa_repetitions a)]"] assms show ?thesis
    by (simp add: modes_of_def schedule_def same)
qed

lemma filter_enumerated:
  assumes "distinct ws" "j < length ws"
  shows "map (\<lambda>(_, c). sc_mode c) (filter (\<lambda>(_, c). (sc_rings c, sc_scenario c, sc_batch c) = ws ! j)
      (concat (map (\<lambda>(i, w). map (\<lambda>m. (r, cell_of m w)) (mode_order a r i)) (enumerate n ws)))) =
    mode_order a r (n + j)"
  using assms
proof (induction ws arbitrary: n j)
  case (Cons w ws)
  let ?f = "\<lambda>v. filter (\<lambda>(_, c). (sc_rings c, sc_scenario c, sc_batch c) = v)"
  have hit: "map (\<lambda>(_, c). sc_mode c) (?f v (map (\<lambda>m. (r, cell_of m v)) ms)) = ms" for v ms
    by (induction ms) (auto simp: cell_of_def)
  have miss: "?f v (map (\<lambda>m. (r, cell_of m x)) ms) = []" if "v \<noteq> x" for v x ms
    using that by (induction ms) (auto simp: cell_of_def)
  have none: "?f v (concat (map (\<lambda>(i, w). map (\<lambda>m. (r, cell_of m w)) (mode_order a r i)) (enumerate k xs))) = []"
    if "v \<notin> set xs" for v k xs
    using that by (induction xs arbitrary: k) (auto simp: miss)
  show ?case
  proof (cases j)
    case 0
    then show ?thesis using Cons.prems by (simp add: hit none)
  next
    case (Suc i)
    then have "ws ! i \<noteq> w" using Cons.prems by (metis distinct.simps(2) length_Cons nat_neq_iff not_less_eq nth_mem)
    then show ?thesis using Suc Cons.prems Cons.IH [of i "Suc n"] by (simp add: miss)
  qed
qed simp

text \<open>C33: The comment on the schedule says that the mode order is reversed on alternating repetitions.
  It is not when the number of workloads is even, as it is by default: reversing the workloads
  moves each one to an index of the other parity, which undoes the reversal of its modes. Every
  workload then measures its modes in the same order in every repetition.\<close>

theorem mode_order_never_reversed:
  assumes "even (length (sq_cells a))" "distinct (sq_cells a)" "w \<in> set (sq_cells a)"
    and "r < nat (sa_repetitions a)" "r' < nat (sa_repetitions a)"
  shows "modes_of a r w = modes_of a r' w"
proof -
  obtain j where j: "j < length (sq_cells a)" "w = sq_cells a ! j"
    using assms(3) by (metis in_set_conv_nth)
  let ?k = "length (sq_cells a)"
  have one: "modes_of a n w = mode_order a 0 j" if "n < nat (sa_repetitions a)" for n
  proof (cases "even n")
    case True
    have "modes_of a n w = mode_order a n (0 + j)"
      unfolding modes_of_rep [OF that] rep_schedule_def j(2) rep_order_def if_P [OF True]
      by (rule filter_enumerated [OF assms(2) j(1)])
    then show ?thesis using True by (simp add: mode_order_def)
  next
    case False
    have i: "?k - 1 - j < length (rev (sq_cells a))" "rev (sq_cells a) ! (?k - 1 - j) = w"
      using j by (auto simp: rev_nth)
    have "modes_of a n (rev (sq_cells a) ! (?k - 1 - j)) = mode_order a n (0 + (?k - 1 - j))"
      unfolding modes_of_rep [OF that] rep_schedule_def rep_order_def if_not_P [OF False]
      by (rule filter_enumerated) (use assms(2) i in auto)
    moreover have "even (n + (?k - 1 - j)) = even j"
      using False assms(1) j(1) by (simp add: even_diff_nat)
    ultimately show ?thesis using i(2) by (simp add: mode_order_def)
  qed
  show ?thesis using one [OF assms(4)] one [OF assms(5)] by simp
qed

theorem mode_order_never_reversed_witness:
  "modes_of default_args 0 (4, ''burst'', 32) = modes_of default_args 1 (4, ''burst'', 32) \<and>
   modes_of default_args 1 (4, ''burst'', 32) = [0, 1000, 10]"
proof -
  have "even (length (sq_cells default_args))" "distinct (sq_cells default_args)"
    "(4, ''burst'', 32) \<in> set (sq_cells default_args)" "0 < nat (sa_repetitions default_args)"
    "1 < nat (sa_repetitions default_args)"
    by code_simp+
  then have "modes_of default_args 0 (4, ''burst'', 32) = modes_of default_args 1 (4, ''burst'', 32)"
    by (rule mode_order_never_reversed)
  moreover have "modes_of default_args 1 (4, ''burst'', 32) = [0, 1000, 10]" by code_simp
  ultimately show ?thesis by simp
qed








section \<open>Task names\<close>

text \<open>A task name may contain spaces and parentheses: the name and the counters of a \<open>stat\<close> line are
  read correctly whatever the name is.\<close>

theorem task_stat_any_name:
  assumes "CHR ''('' \<notin> set pid" "20 \<le> length fs"
    and "list_all (\<lambda>f. f \<noteq> [] \<and> list_all (\<lambda>c. \<not> byte_space c \<and> c \<noteq> CHR '')'') f) fs"
    and "byte_int (fs ! 11) = Some utime" "byte_int (fs ! 12) = Some stime"
    and "byte_int (fs ! 19) = Some starttime"
  shows "task_stat (pid @ ''('' @ name @ '') '' @ join '' '' fs) = Inr (name, utime + stime, starttime)"
proof -
  let ?c = "pid @ ''('' @ name @ '') '' @ join '' '' fs"
  have no: "CHR '')'' \<notin> set (join '' '' fs)"
    using assms(3)
  proof (induction fs)
    case (Cons f fs)
    then show ?case by (cases fs) (auto simp: list_all_iff)
  qed simp
  have r: "rfind_sub ?c '')'' = Some (length pid + 1 + length name)"
    using rfind_sub_char [of "CHR '')''" "'' '' @ join '' '' fs" "pid @ ''('' @ name"] no by simp
  have f: "find_sub ?c ''('' = Some (length pid)"
    using find_sub_char [OF assms(1), of "name @ '') '' @ join '' '' fs"] by simp
  have nm: "stat_name ?c (length pid) = name"
    by (simp add: stat_name_def r [simplified])
  have "split_ws byte_space (join '' '' fs) = fs"
    using assms(3) by (intro split_ws_join) (auto simp: list_all_iff byte_space_def)
  moreover have "drop (length pid + 1 + length name + 2) ?c = join '' '' fs"
    using drop_append [of "length pid + 1 + length name + 2" "pid @ ''('' @ name @ '') ''" "join '' '' fs"]
    by simp
  ultimately have fl: "stat_fields ?c = fs" unfolding stat_fields_def r option.case by simp
  show ?thesis
    using assms(2,4-6) f nm fl
    by (simp add: task_stat_def Let_def field_int_def py_index_def py_int_of_def bind_res_def)
qed

theorem task_stat_any_name_witness:
  "task_stat (''7 '' @ ''('' @ ''a) (b'' @ '') '' @ join '' '' (replicate 20 ''5'')) = Inr (''a) (b'', 10, 5)"
proof -
  have "byte_int (replicate 20 ''5'' ! 11) = Some 5" "byte_int (replicate 20 ''5'' ! 12) = Some 5"
    "byte_int (replicate 20 ''5'' ! 19) = Some 5"
    "list_all (\<lambda>f. f \<noteq> [] \<and> list_all (\<lambda>c. \<not> byte_space c \<and> c \<noteq> CHR '')'') f) (replicate 20 ''5'')"
    by code_simp+
  from task_stat_any_name [of "''7 ''" "replicate 20 ''5''" 5 5 5 "''a) (b''", OF _ _ this(4) this(1,2,3)]
  show ?thesis by simp
qed

end
