(* ===== verification/Kernel_Probe.thy ===== *)
theory Kernel_Probe
  imports PyText PyRegex "HOL-Library.AList"
begin

text \<open>
  The start-up fault campaign, \<open>src/tools/kernel_probe_startup_smoke.py\<close>: the daemon is started
  under \<open>strace\<close> with one injected \<open>io_uring\<close> fault at a time, and the trace has to show that it
  stopped before submitting anything and released its rings and listeners.

  The digits above 127 are the argument \<open>dv\<close> (the digit value of a code point). What the processes
  do is the record \<open>campaign\<close>: exit codes, output and trace files of each launch, the bytes of the
  IRC socket, the ports the kernel hands out. The dictionaries keyed by thread and descriptor are
  association lists. Exceptions other than \<open>Unavailable\<close> all end in the same handler and are \<open>KFail\<close>.
\<close>

datatype kp_error = KFail | KUnavailable

definition demand :: "bool \<Rightarrow> kp_error + unit" where
  "demand ok = require_res ok KFail"

definition MAX_LOG :: nat where
  "MAX_LOG = 4 * 1024 * 1024"

section \<open>Trace rows\<close>

definition decval :: "(nat \<Rightarrow> nat option) \<Rightarrow> nat \<Rightarrow> nat option" where
  "decval dv c = (if c < 128 then udigit c else dv c)"

definition digit_re :: "(nat \<Rightarrow> nat option) \<Rightarrow> nat re" where
  "digit_re dv = Chr (\<lambda>c. decval dv c \<noteq> None)"

definition dot :: "nat re" where
  "dot = none_of [10]"

record row =
  r_pid :: pystr
  r_op :: pystr
  r_args :: pystr
  r_line :: pystr

definition traced_calls :: "pystr list" where
  "traced_calls = [u ''io_uring_register'', u ''io_uring_setup'', u ''io_uring_enter'', u ''close'',
     u ''accept'', u ''accept4'', u ''socket'', u ''bind'', u ''listen'']"

definition row_re :: "(nat \<Rightarrow> nat option) \<Rightarrow> nat re" where
  "row_re dv = seqs [bol, Star (Chr uspace),
     opt (Seq (Cap 1 (plus (digit_re dv))) (plus (Chr uspace))),
     Cap 2 (alts (map lit traced_calls)), lit (u ''(''), Cap 3 (Star dot), eol 10]"

definition row_of :: "(nat \<Rightarrow> nat option) \<Rightarrow> pystr \<Rightarrow> row option" where
  "row_of dv line =
     (case re_match (row_re dv) line of
        None \<Rightarrow> None
      | Some (g, _) \<Rightarrow>
          Some \<lparr>r_pid = (case group g 1 of Some p \<Rightarrow> p | None \<Rightarrow> u ''main''),
            r_op = grp g 2, r_args = grp g 3, r_line = line\<rparr>)"

definition resumed_re :: "nat re" where
  "resumed_re = seqs [lit (u ''<... ''), Star dot, lit (u '' resumed>'')]"

definition trace_rows :: "(nat \<Rightarrow> nat option) \<Rightarrow> string option \<Rightarrow> bool \<Rightarrow> kp_error + row list" where
  "trace_rows dv path strict =
     (case path of
        None \<Rightarrow> Inl KFail
      | Some raw \<Rightarrow>
          bind_res (demand (length raw < MAX_LOG)) (\<lambda>_.
          let body = universal_newlines (utf8_decode raw) in
          bind_res (if strict
                    then demand (\<not> contains_sub body (u ''<unfinished ...>'') \<and> re_search resumed_re body = None)
                    else Inr ()) (\<lambda>_.
          Inr (List.map_filter (row_of dv) (str_splitlines body)))))"

section \<open>The position of the probes\<close>

definition PROBE :: pystr where
  "PROBE = u ''IORING_REGISTER_PROBE''"

definition add_register :: "(pystr \<times> row list) list \<Rightarrow> row \<Rightarrow> (pystr \<times> row list) list" where
  "add_register by_pid r =
     (if r_op r \<noteq> u ''io_uring_register'' then by_pid
      else AList.update (r_pid r)
        ((case map_of by_pid (r_pid r) of Some prior \<Rightarrow> prior | None \<Rightarrow> []) @ [r]) by_pid)"

definition probe_matches :: "row list \<Rightarrow> nat list" where
  "probe_matches entries = [i + 1. (i, r) \<leftarrow> enumerate 0 entries, contains_sub (r_args r) PROBE]"

definition probe_positions :: "row list \<Rightarrow> kp_error + nat list" where
  "probe_positions rows =
     (let by_pid = foldl add_register [] rows;
          candidates = [(pid, probe_matches entries). (pid, entries) \<leftarrow> by_pid, probe_matches entries \<noteq> []]
      in bind_res (demand (length candidates = 1)) (\<lambda>_. Inr (snd (hd candidates))))"

section \<open>Cleanup and the absence of submissions\<close>

type_synonym fd_key = "pystr \<times> pystr"

record tracker =
  tk_rings :: "(fd_key \<times> bool) list"
  tk_sockets :: "(fd_key \<times> int option) list"
  tk_ports :: "int list"
  tk_probes :: nat

definition returned :: "(nat \<Rightarrow> nat option) \<Rightarrow> pystr \<Rightarrow> pystr option" where
  "returned dv line = map_option (\<lambda>g. grp g 1)
     (re_search (seqs [lit (u ''=''), Star (Chr uspace), Cap 1 (plus (digit_re dv)), Star (Chr uspace), eol 10]) line)"

definition returned_zero :: "pystr \<Rightarrow> bool" where
  "returned_zero line =
     (re_search (seqs [lit (u ''=''), Star (Chr uspace), lit (u ''0''), Star (Chr uspace), eol 10]) line \<noteq> None)"

definition first_arg :: "(nat \<Rightarrow> nat option) \<Rightarrow> pystr \<Rightarrow> pystr option" where
  "first_arg dv args = map_option (\<lambda>(g, _). grp g 1) (re_match (Cap 1 (plus (digit_re dv))) args)"

definition digits_int :: "(nat \<Rightarrow> nat option) \<Rightarrow> pystr \<Rightarrow> int" where
  "digits_int dv ds = foldl (\<lambda>a c. 10 * a + (case decval dv c of Some d \<Rightarrow> int d | None \<Rightarrow> 0)) 0 ds"

definition htons_port :: "(nat \<Rightarrow> nat option) \<Rightarrow> pystr \<Rightarrow> int option" where
  "htons_port dv args = map_option (\<lambda>g. digits_int dv (grp g 1))
     (re_search (seqs [lit (u ''sin''), opt (lit (u ''6'')), lit (u ''_port=htons(''),
        Cap 1 (plus (digit_re dv)), lit (u '')'')]) args)"

definition track_fd :: "(nat \<Rightarrow> nat option) \<Rightarrow> int list \<Rightarrow> tracker \<Rightarrow> row \<Rightarrow> fd_key \<Rightarrow> tracker option" where
  "track_fd dv ports tk r key =
     (if r_op r = u ''io_uring_register'' \<and> contains_sub (r_args r) PROBE
      then (if map_of (tk_rings tk) key = Some False
            then Some (tk\<lparr>tk_rings := AList.update key True (tk_rings tk), tk_probes := tk_probes tk + 1\<rparr>)
            else None)
      else if r_op r = u ''io_uring_enter'' \<and> map_of (tk_rings tk) key = Some True then None
      else if r_op r \<in> {u ''accept'', u ''accept4''} then None
      else if r_op r = u ''bind'' \<and> map_of (tk_sockets tk) key \<noteq> None \<and> returned_zero (r_line r)
      then (case htons_port dv (r_args r) of
              None \<Rightarrow> Some tk
            | Some port \<Rightarrow>
                if port \<in> set ports
                then Some (tk\<lparr>tk_sockets := AList.update key (Some port) (tk_sockets tk),
                              tk_ports := List.insert port (tk_ports tk)\<rparr>)
                else Some tk)
      else if r_op r = u ''close'' \<and> returned_zero (r_line r)
      then Some (tk\<lparr>tk_rings := AList.delete key (tk_rings tk), tk_sockets := AList.delete key (tk_sockets tk)\<rparr>)
      else Some tk)"

definition track :: "(nat \<Rightarrow> nat option) \<Rightarrow> int list \<Rightarrow> tracker \<Rightarrow> row \<Rightarrow> tracker option" where
  "track dv ports tk r =
     (let ret = returned dv (r_line r) in
      if r_op r = u ''io_uring_setup'' \<and> ret \<noteq> None
      then (let key = (r_pid r, the ret) in
            if map_of (tk_rings tk) key = None
            then Some (tk\<lparr>tk_rings := AList.update key False (tk_rings tk)\<rparr>) else None)
      else if r_op r = u ''socket'' \<and> ret \<noteq> None
      then (let key = (r_pid r, the ret) in
            if map_of (tk_sockets tk) key = None
            then Some (tk\<lparr>tk_sockets := AList.update key None (tk_sockets tk)\<rparr>) else None)
      else case first_arg dv (r_args r) of
        None \<Rightarrow> Some tk
      | Some f \<Rightarrow> track_fd dv ports tk r (r_pid r, f))"

fun track_all :: "(nat \<Rightarrow> nat option) \<Rightarrow> int list \<Rightarrow> tracker \<Rightarrow> row list \<Rightarrow> tracker option" where
  "track_all dv ports tk [] = Some tk"
| "track_all dv ports tk (r # rs) =
     (case track dv ports tk r of None \<Rightarrow> None | Some tk' \<Rightarrow> track_all dv ports tk' rs)"

definition no_track :: tracker where
  "no_track = \<lparr>tk_rings = [], tk_sockets = [], tk_ports = [], tk_probes = 0\<rparr>"

definition prove_cleanup_and_no_submission ::
  "(nat \<Rightarrow> nat option) \<Rightarrow> row list \<Rightarrow> int list \<Rightarrow> nat \<Rightarrow> kp_error + unit" where
  "prove_cleanup_and_no_submission dv rows expected_ports minimum_rings =
     (case track_all dv expected_ports no_track rows of
        None \<Rightarrow> Inl KFail
      | Some tk \<Rightarrow>
          bind_res (demand (minimum_rings \<le> tk_probes tk \<and> tk_rings tk = [])) (\<lambda>_.
          demand (set (tk_ports tk) = set expected_ports \<and> list_all (\<lambda>(_, v). v = None) (tk_sockets tk))))"

section \<open>Fixtures\<close>

text \<open>The forged answer of the opcode probe: a 16 byte header and 28 records of 8 bytes.\<close>

definition pack_u16 :: "nat \<Rightarrow> nat \<Rightarrow> nat list \<Rightarrow> nat list" where
  "pack_u16 off v data = data[off := v mod 256, off + 1 := v div 256]"

definition probe_record :: "nat list \<Rightarrow> nat \<Rightarrow> nat list" where
  "probe_record data i = pack_u16 (16 + i * 8 + 2) 1 (data[16 + i * 8 := i])"

definition full_table :: "nat list" where
  "full_table = foldl probe_record ((replicate (16 + 28 * 8) 0)[0 := 27, 1 := 28]) [0..<28]"

definition probe_bytes :: "string \<Rightarrow> (nat list) option" where
  "probe_bytes kind =
     (let data = full_table in
      if kind = ''malformed'' then Some (data[1 := 0])
      else if kind = ''incomplete'' then Some (data[1 := 27])
      else if kind = ''missing-send'' then Some (pack_u16 (16 + 26 * 8 + 2) 0 data)
      else None)"

definition hex_nibble :: "nat \<Rightarrow> nat" where
  "hex_nibble n = (if n < 10 then 48 + n else 87 + n)"

definition bytes_hex :: "nat list \<Rightarrow> pystr" where
  "bytes_hex bs = concat (map (\<lambda>b. [hex_nibble (b div 16), hex_nibble (b mod 16)]) bs)"

definition probe_table :: "string \<Rightarrow> kp_error + pystr" where
  "probe_table kind = (case probe_bytes kind of Some bs \<Rightarrow> Inr (bytes_hex bs) | None \<Rightarrow> Inl KFail)"

definition replace_first :: "'a list \<Rightarrow> 'a list \<Rightarrow> 'a list \<Rightarrow> 'a list" where
  "replace_first old new s =
     (case find_sub s old of None \<Rightarrow> s | Some i \<Rightarrow> take i s @ new @ drop (i + length old) s)"

definition limits_header :: pystr where
  "limits_header = u ''[limits]'' @ [10]"

text \<open>The configuration files: a path and the text written there.\<close>

type_synonym kp_config = "pystr \<times> pystr"

definition sqpoll_section :: pystr where
  "sqpoll_section = [10] @ u ''[io]'' @ [10] @ u ''sqpoll = true'' @ [10] @ u ''sqpoll_idle_ms = 10'' @ [10]"

definition configure :: "pystr \<Rightarrow> pystr \<Rightarrow> string \<Rightarrow> nat \<Rightarrow> bool \<Rightarrow> kp_config" where
  "configure dir base name shards sqpoll =
     (let body = replace_first limits_header (limits_header @ u ''num_shards = '' @ str_nat shards @ [10]) base
      in (dir @ u ''/'' @ u name @ u ''.toml'', if sqpoll then body @ sqpoll_section else body))"

section \<open>Launches\<close>

record launched =
  la_exit :: "int option"
  la_stopped :: bool
  la_out :: nat
  la_err :: string
  la_trace :: "string option"

record irc_session =
  is_attempts :: "(bool \<times> bool) list"
  is_hello :: bool
  is_ping :: bool
  is_chunks :: "string option list"

record campaign =
  c_exists :: bool
  c_supported :: bool
  c_binary :: pystr
  c_digest :: pystr
  c_expected :: pystr
  c_root :: pystr
  c_ports :: "int \<times> int"
  c_review :: "int \<times> pystr option \<times> pystr"
  c_check :: "kp_config \<Rightarrow> int"
  c_launch :: "pystr list \<Rightarrow> pystr \<Rightarrow> launched"
  c_session :: "pystr list \<Rightarrow> irc_session"
  c_bind :: "string \<Rightarrow> int \<Rightarrow> bool"

definition spawn_argv :: "campaign \<Rightarrow> kp_config \<Rightarrow> string \<Rightarrow> pystr option \<Rightarrow> pystr list" where
  "spawn_argv c cfg label injection =
     map u [''/usr/bin/strace'', ''-f'', ''-qq'', ''--kill-on-exit'', ''-s'', ''24'', ''-o''] @
     [c_root c @ u ''/'' @ u label @ u ''.trace''] @
     map u [''-e'', ''trace=io_uring_setup,io_uring_register,io_uring_enter,close,accept,accept4,socket,bind,listen''] @
     (case injection of None \<Rightarrow> [] | Some i \<Rightarrow> if i = [] then [] else [u ''-e'', u ''inject='' @ i]) @
     [c_binary c, fst cfg]"

definition spawn :: "campaign \<Rightarrow> kp_config \<Rightarrow> string \<Rightarrow> pystr option \<Rightarrow> launched" where
  "spawn c cfg label injection = c_launch c (spawn_argv c cfg label injection) (snd cfg)"

text \<open>\<open>finally: stop(child)\<close>: a child that survives both signals makes \<open>wait\<close> raise.\<close>

definition finally_stop :: "launched \<Rightarrow> kp_error + 'a \<Rightarrow> kp_error + 'a" where
  "finally_stop la r = (if la_stopped la then r else Inl KFail)"

text \<open>Each attempt says whether the child had exited and whether the connection succeeded; the list
  ends at the deadline.\<close>

fun connect_attempts :: "(bool \<times> bool) list \<Rightarrow> kp_error + unit" where
  "connect_attempts [] = Inl KFail"
| "connect_attempts ((exited, opened) # rest) =
     (if exited then Inl KUnavailable else if opened then Inr () else connect_attempts rest)"

text \<open>A chunk \<open>None\<close> is a \<open>recv\<close> that raises, \<open>[]\<close> the end of the stream.\<close>

fun read_while :: "(string \<Rightarrow> bool) \<Rightarrow> string \<Rightarrow> string option list \<Rightarrow> kp_error + (string \<times> string option list)" where
  "read_while fin data chunks =
     (if fin data then Inr (data, chunks)
      else case chunks of
        [] \<Rightarrow> Inl KFail
      | chunk # rest \<Rightarrow>
          (case chunk of
             None \<Rightarrow> Inl KFail
           | Some b \<Rightarrow>
               bind_res (demand (b \<noteq> [])) (\<lambda>_.
               bind_res (demand (length (data @ b) < 65536)) (\<lambda>_. read_while fin (data @ b) rest))))"

declare read_while.simps [simp del]

definition welcomed :: "string \<Rightarrow> bool" where
  "welcomed data = contains_sub data '' 001 kernelproof ''"

definition ponged :: "string \<Rightarrow> bool" where
  "ponged data = (contains_sub data '' PONG '' \<and> contains_sub data '':kernel-proof'')"

definition register_and_ping :: "irc_session \<Rightarrow> kp_error + unit" where
  "register_and_ping ses =
     bind_res (connect_attempts (is_attempts ses)) (\<lambda>_.
     bind_res (demand (is_hello ses)) (\<lambda>_.
     bind_res (read_while welcomed [] (is_chunks ses)) (\<lambda>(data, rest).
     bind_res (demand (is_ping ses)) (\<lambda>_.
     bind_res (read_while ponged data rest) (\<lambda>_. Inr ())))))"

definition sizes_ok :: "launched \<Rightarrow> bool" where
  "sizes_ok la = (la_out la < MAX_LOG \<and> length (la_err la) < MAX_LOG)"

definition baseline :: "(nat \<Rightarrow> nat option) \<Rightarrow> campaign \<Rightarrow> kp_config \<Rightarrow> string \<Rightarrow> kp_error + row list" where
  "baseline dv c cfg label =
     (let la = spawn c cfg label None in
      bind_res (finally_stop la (register_and_ping (c_session c (spawn_argv c cfg label None)))) (\<lambda>_.
      bind_res (demand (sizes_ok la)) (\<lambda>_.
      trace_rows dv (la_trace la) False)))"

definition can_bind_all :: "campaign \<Rightarrow> string \<Rightarrow> kp_error + unit" where
  "can_bind_all c ph = demand (list_all (c_bind c ph) [fst (c_ports c), snd (c_ports c)])"

definition both_ports :: "campaign \<Rightarrow> int list" where
  "both_ports c = [fst (c_ports c), snd (c_ports c)]"

definition is_register :: "row \<Rightarrow> bool" where
  "is_register r = (r_op r = u ''io_uring_register'')"

definition is_injected :: "row \<Rightarrow> bool" where
  "is_injected r = contains_sub (r_line r) (u ''INJECTED'')"

fun index_of :: "'a \<Rightarrow> 'a list \<Rightarrow> nat" where
  "index_of x [] = 0"
| "index_of x (y # ys) = (if x = y then 0 else Suc (index_of x ys))"

definition check_injection :: "row list \<Rightarrow> nat \<Rightarrow> kp_error + unit" where
  "check_injection rows ordinal =
     (let regs = filter is_register rows;
          injected = filter is_injected regs
      in
      bind_res (demand (length injected = 1 \<and> contains_sub (r_args (hd injected)) PROBE)) (\<lambda>_.
      let same_pid = filter (\<lambda>r. r_pid r = r_pid (hd injected)) regs
      in demand (index_of (hd injected) same_pid + 1 = ordinal)))"

definition exited_badly :: "launched \<Rightarrow> bool" where
  "exited_badly la = (case la_exit la of None \<Rightarrow> False | Some code \<Rightarrow> code \<noteq> 0)"

definition fault ::
  "(nat \<Rightarrow> nat option) \<Rightarrow> campaign \<Rightarrow> kp_config \<Rightarrow> string \<Rightarrow> pystr \<Rightarrow> string \<Rightarrow> nat \<Rightarrow> kp_error + unit" where
  "fault dv c cfg label injection expected ordinal =
     (let la = spawn c cfg label (Some injection) in
      finally_stop la (
        bind_res (demand (exited_badly la)) (\<lambda>_.
        bind_res (demand (sizes_ok la)) (\<lambda>_.
        bind_res (demand (contains_sub (la_err la) expected)) (\<lambda>_.
        bind_res (trace_rows dv (la_trace la) True) (\<lambda>rows.
        bind_res (check_injection rows ordinal) (\<lambda>_.
        bind_res (prove_cleanup_and_no_submission dv rows (both_ports c)
                    (if label = ''later-shard'' then 2 else 1)) (\<lambda>_.
        can_bind_all c label))))))))"

section \<open>The campaign\<close>

definition in_phase :: "string \<Rightarrow> kp_error + 'a \<Rightarrow> (string \<times> kp_error) + 'a" where
  "in_phase ph r = (case r of Inl e \<Rightarrow> Inl (ph, e) | Inr x \<Rightarrow> Inr x)"

definition ports_ok :: "int \<times> int \<Rightarrow> bool" where
  "ports_ok ps = (fst ps \<noteq> snd ps \<and> list_all (\<lambda>p. p \<notin> {6667, 6680, 6697, 8080}) [fst ps, snd ps])"

definition arguments_phase :: "campaign \<Rightarrow> kp_error + unit" where
  "arguments_phase c =
     bind_res (demand (c_exists c)) (\<lambda>_.
     bind_res (require_res (c_supported c) KUnavailable) (\<lambda>_.
     bind_res (demand (length (c_expected c) = 64 \<and>
         list_all (\<lambda>x. adigit x \<or> 97 \<le> x \<and> x \<le> 102) (c_expected c) \<and> c_digest c = c_expected c)) (\<lambda>_.
     demand (ports_ok (c_ports c)))))"

definition review_config :: "campaign \<Rightarrow> kp_error + pystr" where
  "review_config c =
     (case c_review c of (code, subject, body) \<Rightarrow>
      bind_res (demand (code = 0 \<and> subject = Some (u ''kernel-proof.example.test''))) (\<lambda>_.
      bind_res (demand (count_sub body limits_header = 1 \<and> \<not> contains_sub body (u ''[io]'' @ [10]))) (\<lambda>_.
      Inr body)))"

definition one_shard :: "campaign \<Rightarrow> pystr \<Rightarrow> kp_config" where
  "one_shard c base = configure (c_root c) base ''single'' 1 False"

definition two_shards :: "campaign \<Rightarrow> pystr \<Rightarrow> kp_config" where
  "two_shards c base = configure (c_root c) base ''multi'' 2 False"

definition prepare_phase :: "campaign \<Rightarrow> kp_error + pystr" where
  "prepare_phase c =
     bind_res (review_config c) (\<lambda>base.
     bind_res (demand (c_check c (one_shard c base) = 0)) (\<lambda>_.
     bind_res (demand (c_check c (two_shards c base) = 0)) (\<lambda>_. Inr base)))"

definition control_single :: "(nat \<Rightarrow> nat option) \<Rightarrow> campaign \<Rightarrow> kp_config \<Rightarrow> kp_error + unit" where
  "control_single dv c one =
     bind_res (baseline dv c one ''control-single'') (\<lambda>rows.
     bind_res (probe_positions rows) (\<lambda>first.
     bind_res (demand (first \<noteq> [] \<and> hd first = 1)) (\<lambda>_.
     can_bind_all c ''control-single'')))"

definition control_multi :: "(nat \<Rightarrow> nat option) \<Rightarrow> campaign \<Rightarrow> kp_config \<Rightarrow> kp_error + nat" where
  "control_multi dv c two =
     bind_res (baseline dv c two ''control-multi'') (\<lambda>rows.
     bind_res (probe_positions rows) (\<lambda>probes.
     bind_res (demand (2 \<le> length probes \<and> hd probes = 1)) (\<lambda>_.
     bind_res (can_bind_all c ''control-multi'') (\<lambda>_. Inr (probes ! 1)))))"

definition errno_cases :: "(string \<times> string \<times> string) list" where
  "errno_cases = [(''denied'', ''error=EPERM'', ''KernelOpcodeProbeDenied''),
     (''resources'', ''error=ENOMEM'', ''KernelOpcodeProbeResources''),
     (''unavailable'', ''error=EINVAL'', ''KernelOpcodeProbeUnavailable'')]"

definition table_cases :: "(string \<times> string) list" where
  "table_cases = [(''malformed'', ''KernelOpcodeProbeMalformed''),
     (''incomplete'', ''KernelOpcodeProbeIncomplete''), (''missing-send'', ''KernelMissingSend'')]"

definition errno_fault :: "(nat \<Rightarrow> nat option) \<Rightarrow> campaign \<Rightarrow> kp_config \<Rightarrow> string \<times> string \<times> string \<Rightarrow> kp_error + unit" where
  "errno_fault dv c one cs =
     (case cs of (label, mode, expected) \<Rightarrow>
      fault dv c one label (u ''io_uring_register:'' @ u mode @ u '':when=1'') expected 1)"

definition table_fault :: "(nat \<Rightarrow> nat option) \<Rightarrow> campaign \<Rightarrow> kp_config \<Rightarrow> string \<times> string \<Rightarrow> kp_error + unit" where
  "table_fault dv c one cs =
     (case cs of (label, expected) \<Rightarrow>
      bind_res (probe_table label) (\<lambda>tbl.
      fault dv c one label (u ''io_uring_register:retval=0:poke_exit=@arg3='' @ tbl @ u '':when=1'') expected 1))"

definition sqpoll_injection :: pystr where
  "sqpoll_injection = u ''io_uring_setup:error=EPERM:when=1''"

definition sqpoll_phase :: "(nat \<Rightarrow> nat option) \<Rightarrow> campaign \<Rightarrow> pystr \<Rightarrow> kp_error + unit" where
  "sqpoll_phase dv c base =
     (let la = spawn c (configure (c_root c) base ''sqpoll'' 1 True) ''sqpoll'' (Some sqpoll_injection) in
      finally_stop la (
        bind_res (demand (exited_badly la)) (\<lambda>_.
        bind_res (trace_rows dv (la_trace la) True) (\<lambda>rows.
        let setups = filter (\<lambda>r. r_op r = u ''io_uring_setup'') rows in
        bind_res (demand (length setups = 1 \<and> contains_sub (r_args (hd setups)) (u ''IORING_SETUP_SQPOLL'') \<and>
            is_injected (hd setups))) (\<lambda>_.
        bind_res (demand (contains_sub (la_err la) ''cannot start server: Unsupported'')) (\<lambda>_.
        bind_res (prove_cleanup_and_no_submission dv rows (both_ports c) 0) (\<lambda>_.
        can_bind_all c ''sqpoll'')))))))"

definition recovery_phase :: "(nat \<Rightarrow> nat option) \<Rightarrow> campaign \<Rightarrow> kp_config \<Rightarrow> kp_error + unit" where
  "recovery_phase dv c one =
     bind_res (baseline dv c one ''recovery'') (\<lambda>_. can_bind_all c ''recovery'')"

definition kernel_main :: "(nat \<Rightarrow> nat option) \<Rightarrow> campaign \<Rightarrow> (string \<times> kp_error) + pystr" where
  "kernel_main dv c =
     bind_res (in_phase ''arguments'' (arguments_phase c)) (\<lambda>_.
     bind_res (in_phase ''prepare'' (prepare_phase c)) (\<lambda>base.
     let one = one_shard c base; two = two_shards c base in
     bind_res (in_phase ''control-single'' (control_single dv c one)) (\<lambda>_.
     bind_res (in_phase ''control-multi'' (control_multi dv c two)) (\<lambda>second.
     bind_res (map_res (\<lambda>cs. in_phase (fst cs) (errno_fault dv c one cs)) errno_cases) (\<lambda>_.
     bind_res (map_res (\<lambda>cs. in_phase (fst cs) (table_fault dv c one cs)) table_cases) (\<lambda>_.
     bind_res (in_phase ''later-shard'' (fault dv c two ''later-shard''
         (u ''io_uring_register:error=EPERM:when='' @ str_nat second) ''KernelOpcodeProbeDenied'' second)) (\<lambda>_.
     bind_res (in_phase ''sqpoll'' (sqpoll_phase dv c base)) (\<lambda>_.
     bind_res (in_phase ''recovery'' (recovery_phase dv c one)) (\<lambda>_.
     Inr (c_digest c))))))))))"

text \<open>The exit status of the script.\<close>

definition kernel_exit :: "(string \<times> kp_error) + pystr \<Rightarrow> int" where
  "kernel_exit r = (case r of Inr _ \<Rightarrow> 0 | Inl (_, KUnavailable) \<Rightarrow> 2 | Inl (_, KFail) \<Rightarrow> 1)"

end
