(* ===== verification/Kernel_Props.thy ===== *)
theory Kernel_Props
  imports Kernel_Probe
begin

text \<open>
  What a passing start-up campaign proves. A trace row opens, probes, enters, binds or closes a
  descriptor of a thread; \<open>rings_released\<close>, \<open>listeners_released\<close> and \<open>nothing_accepted\<close> say, over
  the positions of those rows, what the bookkeeping of the checker stands for.
\<close>

section \<open>Rows as events\<close>

lemma u_eq_iff [simp]: "u x = u y \<longleftrightarrow> x = y"
  by (metis u_def inj_map_eq_map inj_on_def of_char_eq_iff)

definition fd_of :: "(nat \<Rightarrow> nat option) \<Rightarrow> row \<Rightarrow> fd_key option" where
  "fd_of dv r = map_option (Pair (r_pid r)) (first_arg dv (r_args r))"

definition made_by :: "(nat \<Rightarrow> nat option) \<Rightarrow> string \<Rightarrow> row \<Rightarrow> fd_key option" where
  "made_by dv op r = (if r_op r = u op then map_option (Pair (r_pid r)) (returned dv (r_line r)) else None)"

abbreviation ring_opened :: "(nat \<Rightarrow> nat option) \<Rightarrow> row \<Rightarrow> fd_key option" where
  "ring_opened dv \<equiv> made_by dv ''io_uring_setup''"

abbreviation socket_opened :: "(nat \<Rightarrow> nat option) \<Rightarrow> row \<Rightarrow> fd_key option" where
  "socket_opened dv \<equiv> made_by dv ''socket''"

definition probed :: "(nat \<Rightarrow> nat option) \<Rightarrow> row \<Rightarrow> fd_key option" where
  "probed dv r = (if r_op r = u ''io_uring_register'' \<and> contains_sub (r_args r) PROBE then fd_of dv r else None)"

definition entered :: "(nat \<Rightarrow> nat option) \<Rightarrow> row \<Rightarrow> fd_key option" where
  "entered dv r = (if r_op r = u ''io_uring_enter'' then fd_of dv r else None)"

definition closed_fd :: "(nat \<Rightarrow> nat option) \<Rightarrow> row \<Rightarrow> fd_key option" where
  "closed_fd dv r = (if r_op r = u ''close'' \<and> returned_zero (r_line r) then fd_of dv r else None)"

definition bound_to :: "(nat \<Rightarrow> nat option) \<Rightarrow> row \<Rightarrow> fd_key \<Rightarrow> int \<Rightarrow> bool" where
  "bound_to dv r k port = (r_op r = u ''bind'' \<and> returned_zero (r_line r) \<and> fd_of dv r = Some k \<and>
     htons_port dv (r_args r) = Some port)"

definition accepting :: "(nat \<Rightarrow> nat option) \<Rightarrow> row \<Rightarrow> bool" where
  "accepting dv r = (r_op r \<in> {u ''accept'', u ''accept4''} \<and> fd_of dv r \<noteq> None)"

lemmas row_events = made_by_def fd_of_def probed_def entered_def closed_fd_def bound_to_def accepting_def

lemmas track_defs = track_def track_fd_def Let_def

lemma track_opened:
  assumes "track dv ports tk r = Some tk'" "ring_opened dv r = Some k"
  shows "map_of (tk_rings tk) k = None \<and> tk' = tk\<lparr>tk_rings := AList.update k False (tk_rings tk)\<rparr>"
  using assms by (auto simp: track_defs row_events split: if_splits)

lemma track_socket:
  assumes "track dv ports tk r = Some tk'" "socket_opened dv r = Some k"
  shows "map_of (tk_sockets tk) k = None \<and> tk' = tk\<lparr>tk_sockets := AList.update k None (tk_sockets tk)\<rparr>"
  using assms by (auto simp: track_defs row_events split: if_splits)

lemma track_probed:
  assumes "track dv ports tk r = Some tk'" "probed dv r = Some k"
  shows "map_of (tk_rings tk) k = Some False \<and>
    tk' = tk\<lparr>tk_rings := AList.update k True (tk_rings tk), tk_probes := tk_probes tk + 1\<rparr>"
  using assms by (auto simp: track_defs row_events split: if_splits)

lemma track_entered:
  assumes "track dv ports tk r = Some tk'" "entered dv r = Some k"
  shows "map_of (tk_rings tk) k \<noteq> Some True \<and> tk' = tk"
  using assms by (auto simp: track_defs row_events split: if_splits)

lemma track_closed:
  assumes "track dv ports tk r = Some tk'" "closed_fd dv r = Some k"
  shows "tk' = tk\<lparr>tk_rings := AList.delete k (tk_rings tk), tk_sockets := AList.delete k (tk_sockets tk)\<rparr>"
  using assms by (auto simp: track_defs row_events split: if_splits)

lemma track_bound:
  assumes "track dv ports tk r = Some tk'" "bound_to dv r k port" "port \<in> set ports"
    "map_of (tk_sockets tk) k \<noteq> None"
  shows "tk' = tk\<lparr>tk_sockets := AList.update k (Some port) (tk_sockets tk), tk_ports := List.insert port (tk_ports tk)\<rparr>"
  using assms by (auto simp: track_defs row_events split: if_splits)

lemma track_accepting: "accepting dv r \<Longrightarrow> track dv ports tk r = None"
  by (auto simp: track_defs row_events split: option.splits)

lemma track_other:
  assumes "track dv ports tk r = Some tk'" "ring_opened dv r = None" "socket_opened dv r = None"
    "probed dv r = None" "closed_fd dv r = None"
    "\<And>k port. bound_to dv r k port \<Longrightarrow> port \<in> set ports \<Longrightarrow> map_of (tk_sockets tk) k = None"
  shows "tk' = tk"
  using assms by (auto simp: track_defs row_events split: if_splits option.splits)


lemma track_ring_live:
  assumes "track dv ports tk r = Some tk'" "map_of (tk_rings tk) k = Some b" "closed_fd dv r \<noteq> Some k"
  shows "ring_opened dv r \<noteq> Some k \<and> (b \<longrightarrow> entered dv r \<noteq> Some k \<and> probed dv r \<noteq> Some k) \<and>
    map_of (tk_rings tk') k = Some (b \<or> probed dv r = Some k)"
  using assms
  by (auto simp: track_defs row_events update_conv' delete_conv' split: if_splits option.splits)

lemma track_socket_live:
  assumes "track dv ports tk r = Some tk'" "map_of (tk_sockets tk) k = Some v" "closed_fd dv r \<noteq> Some k"
  shows "\<exists>w. map_of (tk_sockets tk') k = Some w \<and> (v \<noteq> None \<longrightarrow> w \<noteq> None)"
  using assms
  by (auto simp: track_defs row_events update_conv' delete_conv' split: if_splits option.splits)

lemma track_socket_from:
  assumes "track dv ports tk r = Some tk'" "map_of (tk_sockets tk') k \<noteq> None"
  shows "socket_opened dv r = Some k \<or> map_of (tk_sockets tk) k \<noteq> None \<and> closed_fd dv r \<noteq> Some k"
  using assms
  by (auto simp: track_defs row_events update_conv' delete_conv' split: if_splits option.splits)

lemma track_ring_from:
  assumes "track dv ports tk r = Some tk'" "map_of (tk_rings tk') k \<noteq> None"
  shows "ring_opened dv r = Some k \<or> map_of (tk_rings tk) k \<noteq> None \<and> closed_fd dv r \<noteq> Some k"
  using assms
  by (auto simp: track_defs row_events update_conv' delete_conv' split: if_splits option.splits)

lemma track_ports_from:
  assumes "track dv ports tk r = Some tk'" "port \<in> set (tk_ports tk')" "port \<notin> set (tk_ports tk)"
  shows "\<exists>k. bound_to dv r k port \<and> map_of (tk_sockets tk) k \<noteq> None"
  using assms
  by (auto simp: track_defs row_events split: if_splits option.splits)

lemma track_probes_count:
  assumes "track dv ports tk r = Some tk'"
  shows "tk_probes tk' = tk_probes tk + (if probed dv r = None then 0 else 1)"
  using assms
  by (auto simp: track_defs row_events split: if_splits option.splits)


section \<open>Runs\<close>

lemma track_all_append:
  "track_all dv ports tk (xs @ ys) =
     (case track_all dv ports tk xs of None \<Rightarrow> None | Some tk' \<Rightarrow> track_all dv ports tk' ys)"
  by (induction xs arbitrary: tk) (auto split: option.splits)

lemma track_all_at:
  assumes "track_all dv ports tk (ys @ r # zs) = Some tk'"
  obtains t1 t2 where "track_all dv ports tk ys = Some t1" "track dv ports t1 r = Some t2"
    "track_all dv ports t2 zs = Some tk'"
  using assms by (auto simp: track_all_append split: option.splits)

text \<open>A descriptor is live after \<open>xs\<close> if some row of \<open>xs\<close> made it and none after that row closed it.\<close>

definition live_in :: "(row \<Rightarrow> fd_key option) \<Rightarrow> (row \<Rightarrow> fd_key option) \<Rightarrow> row list \<Rightarrow> fd_key \<Rightarrow> bool" where
  "live_in made ended xs k = (\<exists>a s w. xs = a @ s # w \<and> made s = Some k \<and> (\<forall>z \<in> set w. ended z \<noteq> Some k))"

lemma live_in_last: "made x = Some k \<Longrightarrow> live_in made ended (xs @ [x]) k"
  unfolding live_in_def by fastforce

lemma live_in_step: "live_in made ended xs k \<Longrightarrow> ended x \<noteq> Some k \<Longrightarrow> live_in made ended (xs @ [x]) k"
proof -
  assume "live_in made ended xs k" "ended x \<noteq> Some k"
  then obtain a s w where "xs @ [x] = a @ s # (w @ [x])" "made s = Some k"
    "\<forall>z \<in> set (w @ [x]). ended z \<noteq> Some k" unfolding live_in_def by auto
  then show ?thesis unfolding live_in_def by blast
qed

lemma live_ring:
  "track_all dv ports no_track xs = Some tk \<Longrightarrow> map_of (tk_rings tk) k \<noteq> None \<Longrightarrow>
   live_in (ring_opened dv) (closed_fd dv) xs k"
proof (induction xs arbitrary: tk rule: rev_induct)
  case (snoc x xs)
  then obtain t1 where t: "track_all dv ports no_track xs = Some t1" "track dv ports t1 x = Some tk"
    by (auto simp: track_all_append split: option.splits)
  from track_ring_from [OF t(2) snoc.prems(2)] show ?case
    using snoc.IH [OF t(1)] live_in_step live_in_last by blast
qed (simp add: no_track_def)

lemma live_socket:
  "track_all dv ports no_track xs = Some tk \<Longrightarrow> map_of (tk_sockets tk) k \<noteq> None \<Longrightarrow>
   live_in (socket_opened dv) (closed_fd dv) xs k"
proof (induction xs arbitrary: tk rule: rev_induct)
  case (snoc x xs)
  then obtain t1 where t: "track_all dv ports no_track xs = Some t1" "track dv ports t1 x = Some tk"
    by (auto simp: track_all_append split: option.splits)
  from track_socket_from [OF t(2) snoc.prems(2)] show ?case
    using snoc.IH [OF t(1)] live_in_step live_in_last by blast
qed (simp add: no_track_def)

lemma socket_stays:
  "track_all dv ports tk w = Some tk' \<Longrightarrow> map_of (tk_sockets tk) k = Some v \<Longrightarrow>
   \<forall>z \<in> set w. closed_fd dv z \<noteq> Some k \<Longrightarrow>
   \<exists>x. map_of (tk_sockets tk') k = Some x \<and> (v \<noteq> None \<longrightarrow> x \<noteq> None)"
proof (induction w arbitrary: tk v)
  case (Cons z w)
  then obtain t1 where t: "track dv ports tk z = Some t1" "track_all dv ports t1 w = Some tk'"
    by (auto split: option.splits)
  from track_socket_live [OF t(1) Cons.prems(2)] Cons.prems(3)
  obtain x where "map_of (tk_sockets t1) k = Some x" "v \<noteq> None \<longrightarrow> x \<noteq> None" by auto
  with Cons.IH [OF t(2)] Cons.prems(3) show ?case by fastforce
qed simp

lemma live_socket_tracked:
  assumes "track_all dv ports no_track xs = Some tk" "live_in (socket_opened dv) (closed_fd dv) xs k"
  shows "map_of (tk_sockets tk) k \<noteq> None"
proof -
  from assms(2) obtain a s w where x: "xs = a @ s # w" "socket_opened dv s = Some k"
    "\<forall>z \<in> set w. closed_fd dv z \<noteq> Some k" unfolding live_in_def by blast
  from assms(1) x(1) obtain t1 t2 where t: "track dv ports t1 s = Some t2" "track_all dv ports t2 w = Some tk"
    by (auto elim: track_all_at)
  from track_socket [OF t(1) x(2)] have "map_of (tk_sockets t2) k = Some None" by (simp add: update_conv')
  from socket_stays [OF t(2) this x(3)] show ?thesis by auto
qed

text \<open>The life of a ring after it is set up: up to its close it is not set up again, it is probed at
  most once, and it is not entered after the probe.\<close>

definition probe_quiet :: "(nat \<Rightarrow> nat option) \<Rightarrow> fd_key \<Rightarrow> row list \<Rightarrow> bool" where
  "probe_quiet dv k xs = (\<forall>x \<in> set xs. entered dv x \<noteq> Some k \<and> probed dv x \<noteq> Some k)"

definition ring_life :: "(nat \<Rightarrow> nat option) \<Rightarrow> fd_key \<Rightarrow> row list \<Rightarrow> bool" where
  "ring_life dv k zs = (\<exists>live c rest. zs = live @ c # rest \<and> closed_fd dv c = Some k \<and>
     (\<forall>x \<in> set live. closed_fd dv x \<noteq> Some k \<and> ring_opened dv x \<noteq> Some k) \<and>
     (\<forall>a p b. live = a @ p # b \<longrightarrow> probed dv p = Some k \<longrightarrow> probe_quiet dv k b))"

lemma tracked_ring_life:
  assumes "track_all dv ports tk zs = Some tk'" "tk_rings tk' = []" "map_of (tk_rings tk) k = Some b"
  shows "\<exists>live c rest. zs = live @ c # rest \<and> closed_fd dv c = Some k \<and>
     (\<forall>x \<in> set live. closed_fd dv x \<noteq> Some k \<and> ring_opened dv x \<noteq> Some k) \<and>
     (b \<longrightarrow> probe_quiet dv k live) \<and>
     (\<forall>a p b. live = a @ p # b \<longrightarrow> probed dv p = Some k \<longrightarrow> probe_quiet dv k b)"
  using assms
proof (induction zs arbitrary: tk b)
  case (Cons z zs)
  show ?case
  proof (cases "closed_fd dv z = Some k")
    case True
    then show ?thesis by (intro exI [of _ "[]"]) (auto simp: probe_quiet_def)
  next
    case False
    from Cons.prems(1) obtain t1 where t: "track dv ports tk z = Some t1" "track_all dv ports t1 zs = Some tk'"
      by (auto split: option.splits)
    note st = track_ring_live [OF t(1) Cons.prems(3) False]
    from Cons.IH [OF t(2) Cons.prems(2)] st obtain live c rest where l: "zs = live @ c # rest"
      "closed_fd dv c = Some k" "\<forall>x \<in> set live. closed_fd dv x \<noteq> Some k \<and> ring_opened dv x \<noteq> Some k"
      "b \<or> probed dv z = Some k \<longrightarrow> probe_quiet dv k live"
      "\<forall>a p b. live = a @ p # b \<longrightarrow> probed dv p = Some k \<longrightarrow> probe_quiet dv k b"
      by blast
    show ?thesis
    proof (rule exI [of _ "z # live"], rule exI [of _ c], rule exI [of _ rest], intro conjI allI impI)
      fix a p d assume "z # live = a @ p # d" "probed dv p = Some k"
      with l(4,5) show "probe_quiet dv k d" by (cases a) auto
    qed (use l st False in \<open>auto simp: probe_quiet_def\<close>)
  qed
qed simp


section \<open>The cleanup check\<close>

definition rings_released :: "(nat \<Rightarrow> nat option) \<Rightarrow> row list \<Rightarrow> bool" where
  "rings_released dv rows =
     (\<forall>ys r zs k. rows = ys @ r # zs \<longrightarrow> ring_opened dv r = Some k \<longrightarrow> ring_life dv k zs)"

definition probes_on_live_rings :: "(nat \<Rightarrow> nat option) \<Rightarrow> row list \<Rightarrow> bool" where
  "probes_on_live_rings dv rows =
     (\<forall>ys p zs k. rows = ys @ p # zs \<longrightarrow> probed dv p = Some k \<longrightarrow>
        live_in (ring_opened dv) (closed_fd dv) ys k)"

definition listens :: "(nat \<Rightarrow> nat option) \<Rightarrow> row list \<Rightarrow> row \<Rightarrow> fd_key \<Rightarrow> int \<Rightarrow> bool" where
  "listens dv before b k port =
     (bound_to dv b k port \<and> live_in (socket_opened dv) (closed_fd dv) before k)"

definition listeners_released :: "(nat \<Rightarrow> nat option) \<Rightarrow> int list \<Rightarrow> row list \<Rightarrow> bool" where
  "listeners_released dv ports rows =
     (\<forall>port \<in> set ports.
        (\<exists>ys b zs k. rows = ys @ b # zs \<and> listens dv ys b k port) \<and>
        (\<forall>ys b zs k. rows = ys @ b # zs \<longrightarrow> listens dv ys b k port \<longrightarrow>
           (\<exists>c \<in> set zs. closed_fd dv c = Some k)))"

definition clean_trace :: "(nat \<Rightarrow> nat option) \<Rightarrow> int list \<Rightarrow> nat \<Rightarrow> row list \<Rightarrow> bool" where
  "clean_trace dv ports n rows =
     (rings_released dv rows \<and> probes_on_live_rings dv rows \<and> listeners_released dv ports rows \<and>
      n \<le> length (filter (\<lambda>r. probed dv r \<noteq> None) rows) \<and> (\<forall>r \<in> set rows. \<not> accepting dv r))"

lemma track_all_probes:
  "track_all dv ports tk rows = Some tk' \<Longrightarrow>
   tk_probes tk' = tk_probes tk + length (filter (\<lambda>r. probed dv r \<noteq> None) rows)"
  by (induction rows arbitrary: tk) (auto dest: track_probes_count split: option.splits)

lemma track_all_accepting: "track_all dv ports tk rows = Some tk' \<Longrightarrow> r \<in> set rows \<Longrightarrow> \<not> accepting dv r"
  by (induction rows arbitrary: tk) (auto simp: track_accepting split: option.splits)

lemma tracked_port:
  "track_all dv ports no_track xs = Some tk \<Longrightarrow> port \<in> set (tk_ports tk) \<Longrightarrow>
   \<exists>ys b zs k. xs = ys @ b # zs \<and> listens dv ys b k port"
proof (induction xs arbitrary: tk rule: rev_induct)
  case (snoc x xs)
  then obtain t1 where t: "track_all dv ports no_track xs = Some t1" "track dv ports t1 x = Some tk"
    by (auto simp: track_all_append split: option.splits)
  show ?case
  proof (cases "port \<in> set (tk_ports t1)")
    case True
    from snoc.IH [OF t(1) True] obtain ys b zs k where "xs @ [x] = ys @ b # (zs @ [x])" "listens dv ys b k port"
      by auto
    then show ?thesis by blast
  next
    case False
    from track_ports_from [OF t(2) snoc.prems(2) False] live_socket [OF t(1)] show ?thesis
      unfolding listens_def by blast
  qed
qed (simp add: no_track_def)

lemma listener_closed:
  assumes run: "track_all dv ports no_track (ys @ b # zs) = Some tk"
    and none: "list_all (\<lambda>(_, v). v = None) (tk_sockets tk)"
    and l: "listens dv ys b k port" "port \<in> set ports"
  shows "\<exists>c \<in> set zs. closed_fd dv c = Some k"
proof (rule ccontr)
  assume "\<not> ?thesis"
  then have open_: "\<forall>z \<in> set zs. closed_fd dv z \<noteq> Some k" by blast
  obtain t1 t2 where t: "track_all dv ports no_track ys = Some t1" "track dv ports t1 b = Some t2"
    "track_all dv ports t2 zs = Some tk" by (rule track_all_at [OF run])
  have "map_of (tk_sockets t1) k \<noteq> None"
    using live_socket_tracked [OF t(1)] l(1) unfolding listens_def by blast
  then have "map_of (tk_sockets t2) k = Some (Some port)"
    using track_bound [OF t(2) _ l(2), of k] l(1) unfolding listens_def by (simp add: update_conv')
  from socket_stays [OF t(3) this open_] obtain q where "map_of (tk_sockets tk) k = Some (Some q)" by auto
  with none show False by (auto simp: list_all_iff dest: map_of_SomeD)
qed

lemma demand_Inr [simp]: "demand p = Inr x \<longleftrightarrow> p"
  by (auto simp: demand_def require_res_def)


lemma prove_cleanup_elim:
  assumes "prove_cleanup_and_no_submission dv rows ports n = Inr ()"
  obtains tk where "track_all dv ports no_track rows = Some tk" "n \<le> tk_probes tk" "tk_rings tk = []"
    "set (tk_ports tk) = set ports" "list_all (\<lambda>(_, v). v = None) (tk_sockets tk)"
  using assms unfolding prove_cleanup_and_no_submission_def by (auto split: option.splits)

lemma cleanup_checked:
  assumes "prove_cleanup_and_no_submission dv rows ports n = Inr ()"
  shows "clean_trace dv ports n rows"
proof -
  obtain tk where tk: "track_all dv ports no_track rows = Some tk" "n \<le> tk_probes tk" "tk_rings tk = []"
    "set (tk_ports tk) = set ports" "list_all (\<lambda>(_, v). v = None) (tk_sockets tk)"
    by (rule prove_cleanup_elim [OF assms])
  have "rings_released dv rows" unfolding rings_released_def ring_life_def
  proof (intro allI impI)
    fix ys r zs k assume r: "rows = ys @ r # zs" "ring_opened dv r = Some k"
    obtain t1 t2 where t: "track dv ports t1 r = Some t2" "track_all dv ports t2 zs = Some tk"
      by (rule track_all_at [OF tk(1) [unfolded r(1)]])
    from track_opened [OF t(1) r(2)] have "map_of (tk_rings t2) k = Some False" by (simp add: update_conv')
    from tracked_ring_life [OF t(2) tk(3) this]
    show "\<exists>live c rest. zs = live @ c # rest \<and> closed_fd dv c = Some k \<and>
       (\<forall>x \<in> set live. closed_fd dv x \<noteq> Some k \<and> ring_opened dv x \<noteq> Some k) \<and>
       (\<forall>a p b. live = a @ p # b \<longrightarrow> probed dv p = Some k \<longrightarrow> probe_quiet dv k b)" by blast
  qed
  moreover have "probes_on_live_rings dv rows" unfolding probes_on_live_rings_def
  proof (intro allI impI)
    fix ys p zs k assume p: "rows = ys @ p # zs" "probed dv p = Some k"
    obtain t1 t2 where t: "track_all dv ports no_track ys = Some t1" "track dv ports t1 p = Some t2"
      by (rule track_all_at [OF tk(1) [unfolded p(1)]])
    from track_probed [OF t(2) p(2)] have "map_of (tk_rings t1) k \<noteq> None" by simp
    then show "live_in (ring_opened dv) (closed_fd dv) ys k" by (rule live_ring [OF t(1)])
  qed
  moreover have "listeners_released dv ports rows" unfolding listeners_released_def
    using tracked_port [OF tk(1)] tk(4) listener_closed [OF _ tk(5)] tk(1) by blast
  ultimately show ?thesis unfolding clean_trace_def
    using track_all_probes [OF tk(1)] tk(2) track_all_accepting [OF tk(1)] by (auto simp: no_track_def)
qed

text \<open>C4: If the cleanup check accepts a trace, then every ring that was set up is closed later and
  between its probe and its close the thread that owns it neither submits to it nor probes it again;
  every probe is made on a ring that is open at that time and there are at least as many as
  demanded; every expected port is bound on an open socket, and each such socket is closed
  afterwards; and nothing is accepted.\<close>

theorem cleanup_check_sound:
  assumes "prove_cleanup_and_no_submission dv rows ports n = Inr ()"
  shows "clean_trace dv ports n rows"
  using assms by (rule cleanup_checked)

text \<open>C35: Descriptors are shared by the threads of a process, but the check tells rings apart by
  thread: a submission to a probed ring by a thread that set up no ring itself changes nothing in
  the verdict, wherever it stands in the trace.\<close>

theorem foreign_submission_unseen:
  assumes "r_op x = u ''io_uring_enter''"
    and "\<forall>r \<in> set xs. ring_opened dv r \<noteq> None \<longrightarrow> r_pid r \<noteq> r_pid x"
  shows "prove_cleanup_and_no_submission dv (xs @ x # ys) ports n =
    prove_cleanup_and_no_submission dv (xs @ ys) ports n"
proof -
  have "track dv ports tk x = Some tk" if t: "track_all dv ports no_track xs = Some tk" for tk
  proof -
    have "map_of (tk_rings tk) (r_pid x, f) = None" for f
    proof (rule ccontr)
      assume "map_of (tk_rings tk) (r_pid x, f) \<noteq> None"
      from live_ring [OF t this] obtain a s w where "xs = a @ s # w" "ring_opened dv s = Some (r_pid x, f)"
        unfolding live_in_def by blast
      with assms(2) show False by (auto simp: made_by_def split: if_splits)
    qed
    with assms(1) show ?thesis by (auto simp: track_defs split: option.splits)
  qed
  then have "track_all dv ports no_track (xs @ x # ys) = track_all dv ports no_track (xs @ ys)"
    by (auto simp: track_all_append split: option.splits)
  then show ?thesis by (simp add: prove_cleanup_and_no_submission_def)
qed


section \<open>Injection ordinals\<close>

abbreviation registers_of :: "row list \<Rightarrow> pystr \<Rightarrow> row list" where
  "registers_of rows pid \<equiv> filter (\<lambda>r. is_register r \<and> r_pid r = pid) rows"

lemma registers_by_thread:
  "map_of (foldl add_register [] rows) pid =
     (if registers_of rows pid = [] then None else Some (registers_of rows pid))"
  by (induction rows rule: rev_induct)
    (auto simp: add_register_def is_register_def update_conv' split: option.splits if_splits)

lemma ne_listI: "x \<in> set xs \<Longrightarrow> xs \<noteq> []"
  by auto

lemma registers_distinct: "distinct (map fst (foldl add_register [] rows))"
  by (induction rows rule: rev_induct) (auto simp: add_register_def distinct_update)

lemma probe_matches_Nil: "probe_matches xs = [] \<longleftrightarrow> (\<forall>r \<in> set xs. \<not> contains_sub (r_args r) PROBE)"
proof -
  have "probe_matches xs = [] \<longleftrightarrow> (\<forall>p \<in> set (enumerate 0 xs). \<not> contains_sub (r_args (snd p)) PROBE)"
    by (auto simp: probe_matches_def split: if_splits)
  also have "\<dots> \<longleftrightarrow> (\<forall>r \<in> set (map snd (enumerate 0 xs)). \<not> contains_sub (r_args r) PROBE)"
    unfolding set_map by blast
  finally show ?thesis by simp
qed

lemma probe_positions_sound:
  assumes "probe_positions rows = Inr ps"
  shows "\<exists>pid. ps = probe_matches (registers_of rows pid) \<and> ps \<noteq> [] \<and>
    (\<forall>r \<in> set rows. is_register r \<and> contains_sub (r_args r) PROBE \<longrightarrow> r_pid r = pid)"
proof -
  let ?b = "foldl add_register [] rows"
  let ?c = "[(pid, probe_matches entries). (pid, entries) \<leftarrow> ?b, probe_matches entries \<noteq> []]"
  from assms obtain cand where c: "?c = [cand]" "ps = snd cand"
    unfolding probe_positions_def Let_def by (auto simp: length_Suc_conv)
  obtain pid where pid: "cand = (pid, ps)" using c(2) by (cases cand) auto
  have "cand \<in> set ?c" by (simp add: c(1))
  then obtain es where es: "(pid, es) \<in> set ?b" "ps = probe_matches es" "ps \<noteq> []"
    using pid by (auto split: if_splits)
  then have "map_of ?b pid = Some es" using registers_distinct by (simp add: map_of_eq_Some_iff)
  then have e: "es = registers_of rows pid" by (simp add: registers_by_thread split: if_splits)
  have "r_pid r = pid" if r: "r \<in> set rows" "is_register r" "contains_sub (r_args r) PROBE" for r
  proof -
    let ?q = "r_pid r"
    have in_: "r \<in> set (registers_of rows ?q)" using r by simp
    then have "registers_of rows ?q \<noteq> []" by (rule ne_listI)
    then have "map_of ?b ?q = Some (registers_of rows ?q)" by (simp add: registers_by_thread)
    then have "(?q, registers_of rows ?q) \<in> set ?b" by (rule map_of_SomeD)
    moreover have "probe_matches (registers_of rows ?q) \<noteq> []" using in_ r(3) by (auto simp: probe_matches_Nil)
    ultimately have "(?q, probe_matches (registers_of rows ?q)) \<in> set ?c" by force
    then show ?thesis using c(1) pid by simp
  qed
  with es(2,3) e show ?thesis by blast
qed




section \<open>The campaign\<close>


lemma bind_res_Inr_iff: "bind_res r f = Inr y \<longleftrightarrow> (\<exists>x. r = Inr x \<and> f x = Inr y)"
  by (cases r) (simp_all add: bind_res_def)

lemma in_phase_Inr [simp]: "in_phase ph r = Inr x \<longleftrightarrow> r = Inr x"
  by (cases r) (simp_all add: in_phase_def)






lemma read_while_done: "read_while fin data chunks = Inr (out, rest) \<Longrightarrow> fin out"
  by (induction fin data chunks rule: read_while.induct)
    (subst (asm) read_while.simps, auto simp: bind_res_Inr_iff split: if_splits list.splits option.splits)





text \<open>An undisturbed run registers with the network: the daemon's bytes contain the welcome and the
  answer to the ping.\<close>

lemma register_and_ping_sound:
  assumes "register_and_ping ses = Inr ()"
  shows "\<exists>d1 d2 r1 r2. read_while welcomed [] (is_chunks ses) = Inr (d1, r1) \<and> welcomed d1 \<and>
    read_while ponged d1 r1 = Inr (d2, r2) \<and> ponged d2"
  using assms read_while_done by (fastforce simp: register_and_ping_def bind_res_Inr_iff)

section \<open>Reading a trace\<close>

lemma utf8_decode_ascii: "\<forall>c \<in> set s. of_char c < (128 :: nat) \<Longrightarrow> utf8_decode s = u s"
proof -
  assume a: "\<forall>c \<in> set s. of_char c < (128 :: nat)"
  have "concat (map utf8_char (u s)) = u s" using a by (induction s) (auto simp: u_def utf8_char_def)
  moreover have "list_all scalar (u s)" using a by (auto simp: u_def list_all_iff scalar_def)
  ultimately show ?thesis using utf8_decode_concat [of "u s"] by (simp add: utf8_decode_def u_def)
qed

lemma universal_newlines_id: "13 \<notin> set s \<Longrightarrow> universal_newlines s = s"
  by (induction s rule: universal_newlines.induct) auto

lemma splitlines_by_line:
  "\<forall>c \<in> set l. \<not> nl c \<and> c \<noteq> cr \<Longrightarrow> nl lf \<Longrightarrow> lf \<noteq> cr \<Longrightarrow>
   splitlines_by cr lf nl acc (l @ lf # s) = (rev acc @ l) # splitlines_by cr lf nl [] s"
proof (induction l arbitrary: acc)
  case Nil
  then show ?case by (cases s) auto
next
  case (Cons c l)
  then show ?case by (cases "l @ lf # s") auto
qed

lemma splitlines_by_lines:
  "\<forall>l \<in> set ls. \<forall>c \<in> set l. \<not> nl c \<and> c \<noteq> cr \<Longrightarrow> nl lf \<Longrightarrow> lf \<noteq> cr \<Longrightarrow>
   splitlines_by cr lf nl [] (concat (map (\<lambda>l. l @ [lf]) ls)) = ls"
  by (induction ls) (auto simp: splitlines_by_line)

definition written :: "string list \<Rightarrow> string" where
  "written ls = concat (map (\<lambda>l. l @ [CHR 10]) ls)"

definition plain_line :: "string \<Rightarrow> bool" where
  "plain_line l = list_all (\<lambda>c. 32 \<le> (of_char c :: nat) \<and> (of_char c :: nat) < 127 \<and> (of_char c :: nat) \<noteq> 60) l"

lemma u_written: "u (written ls) = concat (map (\<lambda>l. l @ [10]) (map u ls))"
  by (induction ls) (simp_all add: written_def u_def)

inductive_cases in_lang_SeqE: "in_lang (Seq a b) x"

lemma resumed_absent: "60 \<notin> set s \<Longrightarrow> re_search resumed_re s = None"
proof (rule ccontr)
  assume n: "60 \<notin> set s" and "re_search resumed_re s \<noteq> None"
  moreover have p: "plain resumed_re" by (simp add: resumed_re_def plain_lit dot_def none_of_def)
  ultimately obtain x m v where m: "s = x @ m @ v" "in_lang resumed_re m" using re_search_iff by blast
  from m(2) obtain a where "in_lang (lit (u ''<... '')) a" "set a \<subseteq> set m"
    unfolding resumed_re_def seqs.simps list.case by (auto elim: in_lang_SeqE)
  then have "60 \<in> set m" by (auto simp: in_lang_lit u_def)
  with m(1) n show False by simp
qed

text \<open>A trace written line by line, in printable characters and without marks of interrupted calls,
  is read as the rows of its lines in their order, whether or not the reading is strict.\<close>

theorem trace_lines_read:
  assumes "\<forall>l \<in> set ls. plain_line l" "length (written ls) < MAX_LOG"
  shows "trace_rows dv (Some (written ls)) strict = Inr (List.map_filter (row_of dv) (map u ls))"
proof -
  have ascii: "\<forall>c \<in> set (written ls). of_char c < (128 :: nat) \<and> of_char c \<noteq> (60 :: nat) \<and> of_char c \<noteq> (13 :: nat)"
  proof
    fix c assume "c \<in> set (written ls)"
    then consider "c = CHR 10" | l where "l \<in> set ls" "c \<in> set l"
      by (auto simp: written_def split: if_splits)
    then show "of_char c < (128 :: nat) \<and> of_char c \<noteq> (60 :: nat) \<and> of_char c \<noteq> (13 :: nat)"
      using assms(1) by cases (simp, fastforce simp: plain_line_def list_all_iff)
  qed
  then have d: "utf8_decode (written ls) = u (written ls)" by (simp add: utf8_decode_ascii)
  have n: "60 \<notin> set (u (written ls))" "13 \<notin> set (u (written ls))"
    using ascii unfolding u_def set_map by (metis imageE)+
  have "str_splitlines (u (written ls)) = map u ls"
    using assms(1) unfolding u_written str_splitlines_def
    by (intro splitlines_by_lines) (auto simp: plain_line_def list_all_iff u_def unewline_def, fastforce+)
  moreover have "\<not> contains_sub (u (written ls)) (u ''<unfinished ...>'')"
  proof
    assume "contains_sub (u (written ls)) (u ''<unfinished ...>'')"
    moreover have "60 \<in> set (u ''<unfinished ...>'')" by (simp add: u_def)
    ultimately show False using n(1) unfolding contains_sub_iff by (metis Un_iff set_append)
  qed
  ultimately show ?thesis
    using assms(2) n by (simp add: trace_rows_def Let_def d universal_newlines_id resumed_absent bind_res_def demand_def require_res_def)
qed

section \<open>An example\<close>

text \<open>A campaign in which every run leaves the trace it should: each call as its name and the rest of
  the line.\<close>

type_synonym call = "string \<times> string"

definition call_line :: "call \<Rightarrow> string" where
  "call_line cl = ''7 '' @ fst cl @ ''('' @ snd cl"

definition call_row :: "call \<Rightarrow> row" where
  "call_row cl = \<lparr>r_pid = u ''7'', r_op = u (fst cl), r_args = u (snd cl), r_line = u (call_line cl)\<rparr>"

definition demo_bound :: "call list" where
  "demo_bound = [(''socket'', '')=3''), (''bind'', ''3,sin_port=htons(1))=0''),
     (''socket'', '')=4''), (''bind'', ''4,sin_port=htons(2))=0'')]"

definition demo_closed :: "call list" where
  "demo_closed = [(''close'', ''4)=0''), (''close'', ''3)=0'')]"

definition demo_probe :: "string \<Rightarrow> string \<Rightarrow> call list" where
  "demo_probe fd res = [(''io_uring_setup'', '')='' @ fd),
     (''io_uring_register'', fd @ '',IORING_REGISTER_PROBE)='' @ res)]"

definition demo_single :: "call list" where
  "demo_single = demo_bound @ demo_probe ''5'' ''0''"

definition demo_multi :: "call list" where
  "demo_multi = demo_bound @ demo_probe ''5'' ''0'' @ demo_probe ''6'' ''0''"

definition demo_fault :: "call list" where
  "demo_fault = demo_bound @ demo_probe ''5'' ''INJECTED'' @ [(''close'', ''5)=0'')] @ demo_closed"

definition demo_later :: "call list" where
  "demo_later = demo_bound @ demo_probe ''5'' ''0'' @ demo_probe ''6'' ''INJECTED'' @
     [(''close'', ''6)=0''), (''close'', ''5)=0'')] @ demo_closed"

definition demo_sqpoll :: "call list" where
  "demo_sqpoll = demo_bound @ [(''io_uring_setup'', ''IORING_SETUP_SQPOLL)=INJECTED'')] @ demo_closed"

definition demo_calls :: "call list" where
  "demo_calls = remdups (demo_single @ demo_multi @ demo_fault @ demo_later @ demo_sqpoll)"

definition demo_trace :: "pystr \<Rightarrow> call list" where
  "demo_trace path =
     (if path = u ''/t/later-shard.trace'' then demo_later
      else if path = u ''/t/sqpoll.trace'' then demo_sqpoll
      else if path = u ''/t/control-multi.trace'' then demo_multi
      else if path \<in> {u ''/t/control-single.trace'', u ''/t/recovery.trace''} then demo_single
      else demo_fault)"

definition demo_errors :: string where
  "demo_errors = concat (map (\<lambda>(_, _, d). d) errno_cases) @ concat (map snd table_cases) @
     ''cannot start server: Unsupported''"

definition demo_launched :: "pystr \<Rightarrow> launched" where
  "demo_launched path = \<lparr>la_exit = Some 1, la_stopped = True, la_out = 0, la_err = demo_errors,
     la_trace = Some (written (map call_line (demo_trace path)))\<rparr>"

definition demo_irc_session :: irc_session where
  "demo_irc_session = \<lparr>is_attempts = [(False, True)], is_hello = True, is_ping = True,
     is_chunks = [Some '':s 001 kernelproof :hi'', Some '':s PONG s :kernel-proof'']\<rparr>"

definition demo_campaign :: campaign where
  "demo_campaign = \<lparr>c_exists = True, c_supported = True, c_binary = u ''/b'', c_digest = replicate 64 48,
     c_expected = replicate 64 48, c_root = u ''/t'', c_ports = (1, 2),
     c_review = (0, Some (u ''kernel-proof.example.test''), limits_header), c_check = (\<lambda>_. 0),
     c_launch = (\<lambda>argv _. demo_launched (argv ! 7)), c_session = (\<lambda>_. demo_irc_session), c_bind = (\<lambda>_ _. True)\<rparr>"

definition no_dv :: "nat \<Rightarrow> nat option" where
  "no_dv c = None"

lemma demo_calls_read: "\<forall>cl \<in> set demo_calls. row_of no_dv (u (call_line cl)) = Some (call_row cl)"
  by code_simp







lemma demo_later_checks:
  "check_injection (map call_row demo_later) 2 = Inr ()"
  "prove_cleanup_and_no_submission no_dv (map call_row demo_later) [1, 2] 2 = Inr ()"
  by code_simp+




lemma demo_launched_fields [simp]:
  "exited_badly (demo_launched path)" "la_stopped (demo_launched path)" "sizes_ok (demo_launched path)"
  "la_err (demo_launched path) = demo_errors"
proof -
  have "length demo_errors < MAX_LOG" "0 < MAX_LOG" by code_simp+
  then show "exited_badly (demo_launched path)" "la_stopped (demo_launched path)" "sizes_ok (demo_launched path)"
    "la_err (demo_launched path) = demo_errors"
    by (simp_all add: demo_launched_def exited_badly_def sizes_ok_def)
qed

lemma demo_ports [simp]:
  "both_ports demo_campaign = [1, 2]" "can_bind_all demo_campaign ph = Inr ()"
  by (simp_all add: both_ports_def can_bind_all_def demo_campaign_def demand_def require_res_def)

lemma demo_demand [simp]: "p \<Longrightarrow> demand p = Inr ()"
  by (simp add: demand_def require_res_def)

lemma demo_bind [simp]: "bind_res (Inr x) f = f x"
  by (simp add: bind_res_def)







theorem cleanup_check_sound_witness:
  "prove_cleanup_and_no_submission no_dv (map call_row demo_later) [1, 2] 2 = Inr () \<and>
   clean_trace no_dv [1, 2] 2 (map call_row demo_later)"
  using cleanup_check_sound [OF demo_later_checks(2)] demo_later_checks(2) by blast

text \<open>Thread 8 enters the ring that thread 7 set up and probed.\<close>

definition demo_intruder :: row where
  "demo_intruder = \<lparr>r_pid = u ''8'', r_op = u ''io_uring_enter'', r_args = u ''5, 1, 0)=1'', r_line = u ''8 io_uring_enter(5, 1, 0)=1''\<rparr>"

theorem foreign_submission_unseen_witness:
  "prove_cleanup_and_no_submission no_dv
     (map call_row (take 8 demo_later) @ demo_intruder # map call_row (drop 8 demo_later)) [1, 2] 2 = Inr ()"
proof -
  have "prove_cleanup_and_no_submission no_dv
      (map call_row (take 8 demo_later) @ demo_intruder # map call_row (drop 8 demo_later)) [1, 2] 2 =
    prove_cleanup_and_no_submission no_dv (map call_row (take 8 demo_later) @ map call_row (drop 8 demo_later)) [1, 2] 2"
    by (rule foreign_submission_unseen) (auto simp: demo_intruder_def call_row_def)
  also have "\<dots> = Inr ()" using demo_later_checks(2) by (simp flip: map_append)
  finally show ?thesis .
qed

theorem trace_lines_read_witness:
  "trace_rows no_dv (Some (written [''7 close(4)=0''])) True = Inr [call_row (''close'', ''4)=0'')]"
proof -
  have "(''close'', ''4)=0'') \<in> set demo_calls" by code_simp
  then have "row_of no_dv (u ''7 close(4)=0'') = Some (call_row (''close'', ''4)=0''))"
    using demo_calls_read by (fastforce simp: call_line_def)
  moreover have "plain_line ''7 close(4)=0''" "length (written [''7 close(4)=0'']) < MAX_LOG" by code_simp+
  ultimately show ?thesis using trace_lines_read [of "[''7 close(4)=0'']" no_dv True] by (simp add: List.map_filter_simps)
qed

end
