(* ===== verification/Websocket.thy ===== *)
theory Websocket
  imports PyText Octets Machines
begin

text \<open>
  The WebSocket clients of three smoke tests: \<open>ws_frame\<close>, \<open>ws_recv_text\<close> and \<open>ws_connect\<close> of
  \<open>src/tools/upgrade_smoke.py\<close>, \<open>Client\<close> of \<open>src/tools/openbsd_runtime_smoke.py\<close> and
  \<open>WebSocketClient\<close> of \<open>src/tools/windows_full_daemon_smoke.py\<close>. The four bytes of \<open>os.urandom(4)\<close>
  are an argument; the socket is the list of the results of \<open>recv\<close>: \<open>None\<close> for a time-out, the empty
  string at the end of the stream. A list that ends is a deadline that passes.
\<close>

unbundle bit_operations_syntax

datatype ws_error =
    WsTimeout
  | WsClosed
  | WsRuntime string
  | WsValue string
  | WsOverflow
  | WsAssert string
  | WsEof string
  | WsUnicode

section \<open>Frames that are sent\<close>

definition mask_bytes :: "octets \<Rightarrow> octets \<Rightarrow> octets" where
  "mask_bytes key payload = map (\<lambda>(i, v). v XOR key ! (i mod 4)) (enumerate 0 payload)"

definition ws_frame :: "octets \<Rightarrow> octets \<Rightarrow> ws_error + octets" where
  "ws_frame key payload =
     (let n = length payload in
      if n < 126 then Inr ([0x81, 0x80 OR of_nat n] @ key @ mask_bytes key payload)
      else if n < 65536 then Inr ([0x81, 0x80 OR 126] @ to_bytes_big 2 n @ key @ mask_bytes key payload)
      else Inl WsOverflow)"

definition ob_frame :: "octets \<Rightarrow> 8 word \<Rightarrow> octets \<Rightarrow> ws_error + octets" where
  "ob_frame key opcode payload =
     (let n = length payload in
      if n < 126 then Inr ([0x80 OR opcode, 0x80 OR of_nat n] @ key @ mask_bytes key payload)
      else if n \<le> 65535
      then Inr ([0x80 OR opcode, 0xFE] @ to_bytes_big 2 n @ key @ mask_bytes key payload)
      else Inl (WsValue ''fixture frame too large''))"

definition wd_send_frame :: "octets \<Rightarrow> 8 word \<Rightarrow> octets \<Rightarrow> ws_error + octets" where
  "wd_send_frame key opcode payload =
     (if length payload \<ge> 126 then Inl (WsAssert ''smoke client only sends short WebSocket frames'')
      else Inr ([0x80 OR opcode, 0x80 OR of_nat (length payload)] @ key @ mask_bytes key payload))"

section \<open>The text reader of the upgrade test\<close>

text \<open>The payload length and where the payload starts; \<open>None\<close> while the extended length is not there.\<close>

definition ws_length :: "octets \<Rightarrow> (nat \<times> nat) option" where
  "ws_length buf =
     (let n = unat (buf ! 1 AND 0x7F) in
      if n = 126 then (if length buf < 4 then None else Some (from_bytes_big (slice 2 4 buf), 4))
      else if n = 127 then (if length buf < 10 then None else Some (from_bytes_big (slice 2 10 buf), 10))
      else Some (n, 2))"

definition ws_complete :: "octets \<Rightarrow> (nat \<times> nat) option" where
  "ws_complete buf =
     (if length buf < 2 then None
      else case ws_length buf of None \<Rightarrow> None
        | Some (n, off) \<Rightarrow> if length buf < off + n then None else Some (n, off))"

lemma ws_complete_bounds:
  assumes "ws_complete buf = Some (n, off)"
  shows "2 \<le> off" "off + n \<le> length buf"
  using assms by (auto simp: ws_complete_def ws_length_def Let_def split: if_splits option.splits)

lemma ws_complete_shrinks: "ws_complete buf = Some (n, off) \<Longrightarrow> length buf - (off + n) < length buf"
  using ws_complete_bounds [of buf n off] by linarith

definition ws_gain :: "nat \<Rightarrow> nat \<Rightarrow> octets \<Rightarrow> octets" where
  "ws_gain n off buf = (if buf ! 0 AND 0x0F \<in> {1, 2} then slice off (off + n) buf @ [10] else [])"

function ws_parse :: "octets \<Rightarrow> octets \<Rightarrow> octets \<times> octets" where
  "ws_parse buf text =
     (case ws_complete buf of
        None \<Rightarrow> (buf, text)
      | Some (n, off) \<Rightarrow>
          ws_parse (drop (off + n) buf) (text @ ws_gain n off buf))"
  by pat_completeness auto
termination
  by (relation "measure (\<lambda>(buf, _). length buf)") (auto dest: ws_complete_shrinks)

declare ws_parse.simps [simp del]

fun ws_recv_from :: "octets \<Rightarrow> octets \<Rightarrow> octets \<Rightarrow> octets option list \<Rightarrow> octets" where
  "ws_recv_from needle buf text [] = text"
| "ws_recv_from needle buf text (c # cs) =
     (if contains_sub text needle then text
      else case c of
        None \<Rightarrow> text
      | Some chunk \<Rightarrow>
          if chunk = [] then text
          else (case ws_parse (buf @ chunk) text of (buf', text') \<Rightarrow> ws_recv_from needle buf' text' cs))"

definition ws_recv_text :: "octets \<Rightarrow> octets option list \<Rightarrow> pystr" where
  "ws_recv_text needle cs = utf8_decode (chars (ws_recv_from needle [] [] cs))"

fun recv_until_from :: "octets \<Rightarrow> octets \<Rightarrow> octets option list \<Rightarrow> octets \<times> octets option list" where
  "recv_until_from needle buf [] = (buf, [])"
| "recv_until_from needle buf (c # cs) =
     (case c of
        None \<Rightarrow> (buf, cs)
      | Some chunk \<Rightarrow>
          if chunk = [] then (buf, cs)
          else if contains_sub (buf @ chunk) needle then (buf @ chunk, cs)
          else recv_until_from needle (buf @ chunk) cs)"

definition ws_connect :: "octets option list \<Rightarrow> ws_error + octets option list" where
  "ws_connect cs =
     (case recv_until_from (ascii [CHR 13, CHR 10, CHR 13, CHR 10]) [] cs of (resp, rest) \<Rightarrow>
      if \<not> contains_sub (utf8_decode (chars resp)) (map of_char ''101'')
      then Inl (WsRuntime ''WebSocket upgrade refused'') else Inr rest)"

section \<open>The client of the OpenBSD test\<close>

record ob_client =
  ob_wire :: octets
  ob_fragment :: "octets option"
  ob_irc :: octets
  ob_seen :: "octets list"
  ob_sent :: octets
  ob_drawn :: nat

definition crlf8 :: octets where
  "crlf8 = [13, 10]"

definition utf8_ok :: "octets \<Rightarrow> bool" where
  "utf8_ok payload = (decode_strict (chars payload) \<noteq> None)"

definition ob_frame_out :: "(nat \<Rightarrow> octets) \<Rightarrow> 8 word \<Rightarrow> octets \<Rightarrow> ob_client \<Rightarrow> ws_error option \<times> ob_client" where
  "ob_frame_out rand opcode payload c =
     (let c1 = c\<lparr>ob_drawn := ob_drawn c + 1\<rparr> in
      case ob_frame (rand (ob_drawn c)) opcode payload of
        Inl e \<Rightarrow> (Some e, c1)
      | Inr w \<Rightarrow> (None, c1\<lparr>ob_sent := ob_sent c1 @ w\<rparr>))"

text \<open>\<open>send\<close>: one frame for each non-empty line, or the bytes as they are.\<close>

fun ob_frames_out :: "(nat \<Rightarrow> octets) \<Rightarrow> octets list \<Rightarrow> ob_client \<Rightarrow> ws_error option \<times> ob_client" where
  "ob_frames_out rand [] c = (None, c)"
| "ob_frames_out rand (l # ls) c =
     (if l = [] then ob_frames_out rand ls c
      else case ob_frame_out rand 1 l c of
        (Some e, c') \<Rightarrow> (Some e, c')
      | (None, c') \<Rightarrow> ob_frames_out rand ls c')"

definition ob_send :: "(nat \<Rightarrow> octets) \<Rightarrow> bool \<Rightarrow> octets \<Rightarrow> ob_client \<Rightarrow> ws_error option \<times> ob_client" where
  "ob_send rand ws payload c =
     (if ws then ob_frames_out rand (split_sub crlf8 payload) c
      else (None, c\<lparr>ob_sent := ob_sent c @ payload\<rparr>))"

text \<open>What happens to one complete frame: \<open>None\<close> is \<open>continue\<close>.\<close>

type_synonym ob_step = "ob_client \<times> (ws_error + octets) option"

definition ob_deliver :: "octets \<Rightarrow> ob_client \<Rightarrow> ob_step" where
  "ob_deliver payload c = (c, Some (if utf8_ok payload then Inr (payload @ crlf8) else Inl WsUnicode))"

definition ob_handle :: "(nat \<Rightarrow> octets) \<Rightarrow> bool \<Rightarrow> 8 word \<Rightarrow> octets \<Rightarrow> ob_client \<Rightarrow> ob_step" where
  "ob_handle rand final opcode payload c =
     (if opcode = 1 then
        (if ob_fragment c \<noteq> None then (c, Some (Inl (WsRuntime ''nested WSS text fragment'')))
         else if \<not> final then (c\<lparr>ob_fragment := Some payload\<rparr>, None)
         else ob_deliver payload c)
      else if opcode = 0 then
        (case ob_fragment c of
           None \<Rightarrow> (c, Some (Inl (WsRuntime ''orphan WSS continuation'')))
         | Some f \<Rightarrow>
             let c1 = c\<lparr>ob_fragment := Some (f @ payload)\<rparr> in
             if length (f @ payload) > 2 ^ 20
             then (c1, Some (Inl (WsRuntime ''oversize fragmented WSS message'')))
             else if \<not> final then (c1, None)
             else ob_deliver (f @ payload) (c1\<lparr>ob_fragment := None\<rparr>))
      else if opcode = 2 then (c, Some (Inl (WsRuntime ''binary frame on WSS text subprotocol'')))
      else if opcode = 9 then
        (case ob_frame_out rand 10 payload c of (Some e, c') \<Rightarrow> (c', Some (Inl e)) | (None, c') \<Rightarrow> (c', None))
      else if opcode = 8 then (c, Some (Inl WsClosed))
      else (c, None))"

definition ob_take :: "(nat \<Rightarrow> octets) \<Rightarrow> nat \<Rightarrow> nat \<Rightarrow> ob_client \<Rightarrow> ob_step" where
  "ob_take rand n off c =
     (let w = ob_wire c in
      ob_handle rand (w ! 0 AND 0x80 \<noteq> 0) (w ! 0 AND 0x0F) (slice off (off + n) w)
        (c\<lparr>ob_wire := drop (off + n) w\<rparr>))"

datatype ob_next = Refuse ws_error | Frame nat nat | More

definition ob_look :: "octets \<Rightarrow> ob_next" where
  "ob_look w =
     (if length w < 2 then More
      else case ws_length w of
        None \<Rightarrow> More
      | Some (n, off) \<Rightarrow>
          if w ! 1 AND 0x80 \<noteq> 0 then Refuse (WsRuntime ''masked server frame'')
          else if n > 2 ^ 20 then Refuse (WsValue ''oversize server frame'')
          else if length w \<ge> off + n then Frame n off
          else More)"

lemma ob_handle_wire: "ob_wire (fst (ob_handle rand final opcode payload c)) = ob_wire c"
  by (auto simp: ob_handle_def ob_deliver_def ob_frame_out_def Let_def split: option.splits sum.splits)

lemma ob_look_frame:
  "ob_look w = Frame n off \<Longrightarrow> 2 \<le> off \<and> off + n \<le> length w"
  by (auto simp: ob_look_def ws_length_def Let_def split: if_splits option.splits)

lemma ob_take_shrinks:
  "ob_look (ob_wire c) = Frame n off \<Longrightarrow> ob_take rand n off c = (c', r) \<Longrightarrow>
   length (ob_wire c') < length (ob_wire c)"
  using ob_handle_wire [of rand] ob_look_frame [of "ob_wire c" n off]
  by (auto simp: ob_take_def Let_def dest!: arg_cong [where f = "\<lambda>x. length (ob_wire (fst x))"])

function ob_recv_ws ::
  "(nat \<Rightarrow> octets) \<Rightarrow> ob_client \<Rightarrow> octets option list \<Rightarrow> ob_client \<times> octets option list \<times> (ws_error + octets)" where
  "ob_recv_ws rand c cs =
     (case ob_look (ob_wire c) of
        Refuse e \<Rightarrow> (c, cs, Inl e)
      | Frame n off \<Rightarrow>
          (case ob_take rand n off c of
             (c', Some r) \<Rightarrow> (c', cs, r)
           | (c', None) \<Rightarrow> ob_recv_ws rand c' cs)
      | More \<Rightarrow>
          (case cs of
             [] \<Rightarrow> (c, [], Inl WsTimeout)
           | x # cs' \<Rightarrow>
               (case x of
                  None \<Rightarrow> (c, cs', Inl WsTimeout)
                | Some chunk \<Rightarrow>
                    if chunk = [] then (c, cs', Inl WsClosed)
                    else ob_recv_ws rand (c\<lparr>ob_wire := ob_wire c @ chunk\<rparr>) cs')))"
  by pat_completeness auto
termination
  by (relation "measures [\<lambda>(_, _, cs). length cs, \<lambda>(_, c, _). length (ob_wire c)]") (auto dest: ob_take_shrinks [OF _ sym])

declare ob_recv_ws.simps [simp del]

definition ob_recv ::
  "(nat \<Rightarrow> octets) \<Rightarrow> bool \<Rightarrow> ob_client \<Rightarrow> octets option list \<Rightarrow> ob_client \<times> octets option list \<times> (ws_error + octets)" where
  "ob_recv rand ws c cs =
     (if ws then ob_recv_ws rand c cs
      else case cs of
        [] \<Rightarrow> (c, [], Inl WsTimeout)
      | x # cs' \<Rightarrow>
          (case x of
             None \<Rightarrow> (c, cs', Inl WsTimeout)
           | Some chunk \<Rightarrow> (c, cs', if chunk = [] then Inl WsClosed else Inr chunk)))"

definition ob_collect ::
  "(nat \<Rightarrow> octets) \<Rightarrow> bool \<Rightarrow> ob_client \<Rightarrow> octets option list \<Rightarrow> ob_client \<times> octets option list \<times> (ws_error + octets list)" where
  "ob_collect rand ws c cs =
     (case ob_recv rand ws c cs of
        (c', cs', Inl e) \<Rightarrow> (c', cs', Inl e)
      | (c', cs', Inr data) \<Rightarrow>
          let ps = split_sub crlf8 (ob_irc c' @ data); lines = butlast ps
          in (c'\<lparr>ob_irc := last ps, ob_seen := ob_seen c' @ lines\<rparr>, cs', Inr lines))"

text \<open>Every successful read consumes a result of \<open>recv\<close> or part of the buffer, so \<open>until\<close> ends.\<close>

lemma ob_take_no_timeout: "ob_take rand n off c = (c', Some r) \<Longrightarrow> r \<noteq> Inl WsTimeout"
  by (auto simp: ob_take_def ob_handle_def ob_deliver_def ob_frame_out_def ob_frame_def Let_def
      split: if_splits option.splits sum.splits)

lemma ob_look_no_timeout: "ob_look w \<noteq> Refuse WsTimeout"
  by (auto simp: ob_look_def split: if_splits option.splits)

lemma ob_recv_ws_progress:
  "ob_recv_ws rand c cs = (c', cs', r) \<Longrightarrow>
   length cs' < length cs \<or> cs' = cs \<and> (r = Inl WsTimeout \<longrightarrow> cs = []) \<and>
     ((\<exists>m. r = Inr m) \<longrightarrow> length (ob_wire c') < length (ob_wire c))"
proof (induction rand c cs rule: ob_recv_ws.induct)
  case (1 rand c cs)
  show ?case
  proof (cases "ob_look (ob_wire c)")
    case (Frame n off)
    obtain c1 x where t: "ob_take rand n off c = (c1, x)" by fastforce
    note s = ob_take_shrinks [OF Frame t]
    show ?thesis
    proof (cases x)
      case None
      have "ob_recv_ws rand c1 cs = (c', cs', r)"
        using "1.prems" by (subst (asm) ob_recv_ws.simps) (simp add: Frame t None)
      from "1.IH"(1) [OF Frame t [symmetric] None this] s show ?thesis by fastforce
    next
      case (Some y)
      with t have "y \<noteq> Inl WsTimeout" using ob_take_no_timeout by blast
      with Some show ?thesis using "1.prems" s by (subst (asm) ob_recv_ws.simps) (auto simp: Frame t)
    qed
  next
    case More
    show ?thesis
    proof (cases "\<exists>chunk cs1. cs = Some chunk # cs1 \<and> chunk \<noteq> []")
      case True
      then obtain chunk cs1 where c: "cs = Some chunk # cs1" "chunk \<noteq> []" by blast
      have "ob_recv_ws rand (c\<lparr>ob_wire := ob_wire c @ chunk\<rparr>) cs1 = (c', cs', r)"
        using "1.prems" by (subst (asm) ob_recv_ws.simps) (simp add: More c)
      from "1.IH"(2) [OF More c(1) refl c(2) this] c(1) show ?thesis by auto
    next
      case False
      then show ?thesis using "1.prems"
        by (subst (asm) ob_recv_ws.simps) (auto simp: More split: list.splits option.splits if_splits)
    qed
  qed (use "1.prems" ob_look_no_timeout in \<open>subst (asm) ob_recv_ws.simps, auto\<close>)
qed

lemma ob_collect_progress:
  assumes "ob_collect rand ws c cs = (c', cs', r)"
  shows "length cs' < length cs \<or> cs' = cs \<and> (r = Inl WsTimeout \<longrightarrow> cs = []) \<and>
     ((\<exists>m. r = Inr m) \<longrightarrow> length (ob_wire c') < length (ob_wire c))"
proof -
  obtain c1 cs1 r1 where t: "ob_recv rand ws c cs = (c1, cs1, r1)" using prod_cases3 by blast
  have "length cs1 < length cs \<or> cs1 = cs \<and> (r1 = Inl WsTimeout \<longrightarrow> cs = []) \<and> ((\<exists>m. r1 = Inr m) \<longrightarrow> length (ob_wire c1) < length (ob_wire c))"
    using t ob_recv_ws_progress [of rand c cs c1 cs1 r1]
    by (auto simp: ob_recv_def split: if_splits list.splits option.splits)
  then show ?thesis using assms t by (auto simp: ob_collect_def Let_def split: sum.splits)
qed

function ob_until ::
  "(nat \<Rightarrow> octets) \<Rightarrow> bool \<Rightarrow> octets \<Rightarrow> ob_client \<Rightarrow> octets option list \<Rightarrow>
    ob_client \<times> octets option list \<times> (ws_error + octets list)" where
  "ob_until rand ws token c cs =
     (case ob_collect rand ws c cs of
        (c', cs', Inl e) \<Rightarrow>
          if e = WsTimeout \<and> cs \<noteq> [] then ob_until rand ws token c' cs' else (c', cs', Inl e)
      | (c', cs', Inr lines) \<Rightarrow>
          if list_ex (\<lambda>l. contains_sub l token) lines then (c', cs', Inr lines)
          else ob_until rand ws token c' cs')"
  by pat_completeness auto
termination
  by (relation "measures [\<lambda>(_, _, _, _, cs). length cs, \<lambda>(_, _, _, c, _). length (ob_wire c)]")
    (auto dest: ob_collect_progress [OF sym])

declare ob_until.simps [simp del]

section \<open>The client of the Windows daemon test\<close>

record wd_client =
  wd_pending :: octets
  wd_lines :: "pystr list"
  wd_sent :: octets
  wd_drawn :: nat

definition MAX_FRAME :: nat where
  "MAX_FRAME = 1024 * 1024"

text \<open>\<open>read_exact\<close>: \<open>None\<close> is the stream ending between two reads.\<close>

fun read_exact :: "nat \<Rightarrow> octets \<Rightarrow> octets option list \<Rightarrow> octets \<times> octets option list \<times> (ws_error + octets option)" where
  "read_exact n pending [] =
     (if length pending < n then (pending, [], Inl WsTimeout)
      else (drop n pending, [], Inr (Some (take n pending))))"
| "read_exact n pending (c # cs) =
     (if length pending < n then
        (case c of
           None \<Rightarrow> (pending, cs, Inl WsTimeout)
         | Some chunk \<Rightarrow>
             if chunk = []
             then (pending, cs, if pending = [] then Inr None else Inl (WsEof ''WebSocket stream ended inside a frame''))
             else read_exact n (pending @ chunk) cs)
      else (drop n pending, c # cs, Inr (Some (take n pending))))"

definition need_bytes ::
  "string \<Rightarrow> octets \<times> octets option list \<times> (ws_error + octets option) \<Rightarrow> octets \<times> octets option list \<times> (ws_error + octets)" where
  "need_bytes msg r =
     (case r of
        (p, cs, Inl e) \<Rightarrow> (p, cs, Inl e)
      | (p, cs, Inr None) \<Rightarrow> (p, cs, Inl (WsEof msg))
      | (p, cs, Inr (Some bs)) \<Rightarrow> (p, cs, Inr bs))"

definition read_length ::
  "nat \<Rightarrow> octets \<Rightarrow> octets option list \<Rightarrow> octets \<times> octets option list \<times> (ws_error + nat)" where
  "read_length n pending cs =
     (if n = 126 \<or> n = 127
      then (case need_bytes ''WebSocket extended length missing'' (read_exact (if n = 126 then 2 else 8) pending cs) of
              (p, cs', Inl e) \<Rightarrow> (p, cs', Inl e)
            | (p, cs', Inr raw) \<Rightarrow> (p, cs', Inr (from_bytes_big raw)))
      else (pending, cs, Inr n))"

definition read_body ::
  "8 word \<Rightarrow> nat \<Rightarrow> octets \<Rightarrow> octets option list \<Rightarrow> octets \<times> octets option list \<times> (ws_error + (8 word \<times> octets) option)" where
  "read_body opcode n pending cs =
     (if n > MAX_FRAME then (pending, cs, Inl (WsAssert ''WebSocket frame exceeded''))
      else case need_bytes ''WebSocket frame payload missing'' (read_exact n pending cs) of
        (p, cs', Inl e) \<Rightarrow> (p, cs', Inl e)
      | (p, cs', Inr payload) \<Rightarrow> (p, cs', Inr (Some (opcode, payload))))"

definition read_frame ::
  "octets \<Rightarrow> octets option list \<Rightarrow> octets \<times> octets option list \<times> (ws_error + (8 word \<times> octets) option)" where
  "read_frame pending cs =
     (case read_exact 2 pending cs of
        (p, cs1, Inl e) \<Rightarrow> (p, cs1, Inl e)
      | (p, cs1, Inr None) \<Rightarrow> (p, cs1, Inr None)
      | (p, cs1, Inr (Some head)) \<Rightarrow>
          let first = head ! 0; second = head ! 1; opcode = first AND 0x0F in
          if first AND 0x70 \<noteq> 0 \<or> second AND 0x80 \<noteq> 0
          then (p, cs1, Inl (WsAssert ''server sent reserved bits or a masked WebSocket frame''))
          else if opcode \<in> {1, 8, 9, 10} \<and> first AND 0x80 = 0
          then (p, cs1, Inl (WsAssert ''server fragmented a text or control frame''))
          else (case read_length (unat (second AND 0x7F)) p cs1 of
                  (p', cs', Inl e) \<Rightarrow> (p', cs', Inl e)
                | (p', cs', Inr n) \<Rightarrow> read_body opcode n p' cs'))"

text \<open>The bytes that are still to be handed out.\<close>

definition unread :: "octets \<Rightarrow> octets option list \<Rightarrow> octets" where
  "unread pending cs = pending @ concat (map (\<lambda>c. case c of None \<Rightarrow> [] | Some b \<Rightarrow> b) cs)"

lemma read_exact_takes:
  "read_exact n p cs = (p', cs', Inr (Some bs)) \<Longrightarrow> length bs = n \<and> unread p cs = bs @ unread p' cs'"
  by (induction n p cs arbitrary: p' rule: read_exact.induct)
    (auto simp: unread_def split: if_splits option.splits)

lemma need_bytes_Inr: "need_bytes msg r = (p, cs, Inr bs) \<longleftrightarrow> r = (p, cs, Inr (Some bs))"
  by (auto simp: need_bytes_def split: prod.splits sum.splits option.splits)

lemma read_length_shrinks:
  "read_length n p cs = (p', cs', Inr m) \<Longrightarrow> length (unread p' cs') \<le> length (unread p cs)"
  by (auto simp: read_length_def need_bytes_Inr split: if_splits prod.splits sum.splits dest!: read_exact_takes)

lemma read_body_shrinks:
  "read_body op n p cs = (p', cs', Inr (Some f)) \<Longrightarrow> length (unread p' cs') \<le> length (unread p cs)"
  by (auto simp: read_body_def need_bytes_Inr split: if_splits prod.splits sum.splits dest!: read_exact_takes)

lemma read_frame_shrinks:
  assumes "read_frame p cs = (p', cs', Inr (Some f))"
  shows "length (unread p' cs') < length (unread p cs)"
proof -
  obtain p1 cs1 head p2 cs2 n where h: "read_exact 2 p cs = (p1, cs1, Inr (Some head))"
    "read_length (unat (head ! 1 AND 0x7F)) p1 cs1 = (p2, cs2, Inr n)"
    "read_body (head ! 0 AND 0x0F) n p2 cs2 = (p', cs', Inr (Some f))"
    using assms by (auto simp: read_frame_def Let_def split: prod.splits sum.splits option.splits if_splits)
  from read_exact_takes [OF h(1)] read_length_shrinks [OF h(2)] read_body_shrinks [OF h(3)]
  show ?thesis by (metis add_2_eq_Suc le_imp_less_Suc length_append less_SucI order.strict_trans1 order_trans)
qed

definition wd_send :: "(nat \<Rightarrow> octets) \<Rightarrow> 8 word \<Rightarrow> octets \<Rightarrow> wd_client \<Rightarrow> ws_error option \<times> wd_client" where
  "wd_send rand opcode payload c =
     (case wd_send_frame (rand (wd_drawn c)) opcode payload of
        Inl e \<Rightarrow> (Some e, c)
      | Inr w \<Rightarrow> (None, c\<lparr>wd_sent := wd_sent c @ w, wd_drawn := wd_drawn c + 1\<rparr>))"

fun pop_line :: "pystr \<Rightarrow> pystr list \<Rightarrow> pystr option \<times> pystr list" where
  "pop_line marker [] = (None, [])"
| "pop_line marker (l # ls) = (if contains_sub l marker then (Some l, ls) else pop_line marker ls)"

definition text_lines :: "octets \<Rightarrow> pystr list option" where
  "text_lines payload = map_option str_splitlines (decode_strict (chars payload))"

text \<open>\<open>until\<close> on one frame: \<open>None\<close> is the next round of the loop.\<close>

definition wd_frame :: "(nat \<Rightarrow> octets) \<Rightarrow> 8 word \<Rightarrow> octets \<Rightarrow> wd_client \<Rightarrow> ws_error option \<times> wd_client" where
  "wd_frame rand opcode payload c =
     (if opcode = 1 then
        (case text_lines payload of
           None \<Rightarrow> (Some WsUnicode, c)
         | Some ls \<Rightarrow> (None, c\<lparr>wd_lines := wd_lines c @ ls\<rparr>))
      else if opcode = 9 then wd_send rand 10 payload c
      else if opcode = 8 then (Some WsClosed, c)
      else if opcode \<noteq> 10 then (Some (WsAssert ''unexpected WebSocket opcode''), c)
      else (None, c))"

lemma wd_frame_pending: "wd_frame rand op b c = (r, c') \<Longrightarrow> wd_pending c' = wd_pending c"
  by (auto simp: wd_frame_def wd_send_def split: if_splits option.splits sum.splits)

function wd_until ::
  "(nat \<Rightarrow> octets) \<Rightarrow> pystr \<Rightarrow> wd_client \<Rightarrow> octets option list \<Rightarrow> wd_client \<times> octets option list \<times> (ws_error + pystr)" where
  "wd_until rand marker c cs =
     (case pop_line marker (wd_lines c) of
        (Some l, ls) \<Rightarrow> (c\<lparr>wd_lines := ls\<rparr>, cs, Inr l)
      | (None, ls) \<Rightarrow>
          (case read_frame (wd_pending c) cs of
             (p, cs', Inl e) \<Rightarrow> (c\<lparr>wd_lines := ls, wd_pending := p\<rparr>, cs', Inl e)
           | (p, cs', Inr None) \<Rightarrow> (c\<lparr>wd_lines := ls, wd_pending := p\<rparr>, cs', Inl WsClosed)
           | (p, cs', Inr (Some (opcode, payload))) \<Rightarrow>
               (case wd_frame rand opcode payload (c\<lparr>wd_lines := ls, wd_pending := p\<rparr>) of
                  (Some e, c') \<Rightarrow> (c', cs', Inl e)
                | (None, c') \<Rightarrow> wd_until rand marker c' cs')))"
  by pat_completeness auto
termination
  by (relation "measure (\<lambda>(_, _, c, cs). length (unread (wd_pending c) cs))")
    (auto dest!: read_frame_shrinks [OF sym] wd_frame_pending [OF sym])

declare wd_until.simps [simp del]

definition WS_LIVE :: octets where
  "WS_LIVE = ascii ''ws-live''"

function control_pong ::
  "(nat \<Rightarrow> octets) \<Rightarrow> wd_client \<Rightarrow> octets option list \<Rightarrow> wd_client \<times> octets option list \<times> (ws_error + unit)" where
  "control_pong rand c cs =
     (case read_frame (wd_pending c) cs of
        (p, cs', Inl e) \<Rightarrow> (c\<lparr>wd_pending := p\<rparr>, cs', Inl e)
      | (p, cs', Inr None) \<Rightarrow> (c\<lparr>wd_pending := p\<rparr>, cs', Inl WsClosed)
      | (p, cs', Inr (Some (opcode, payload))) \<Rightarrow>
          let c1 = c\<lparr>wd_pending := p\<rparr> in
          if opcode = 10
          then (c1, cs', if payload \<noteq> WS_LIVE then Inl (WsAssert ''wrong WebSocket control pong'') else Inr ())
          else if opcode \<noteq> 1 \<and> opcode \<noteq> 9
          then (c1, cs', Inl (WsAssert ''unexpected WebSocket opcode before pong''))
          else (case wd_frame rand opcode payload c1 of
                  (Some e, c') \<Rightarrow> (c', cs', Inl e)
                | (None, c') \<Rightarrow> control_pong rand c' cs'))"
  by pat_completeness auto
termination
  by (relation "measure (\<lambda>(_, c, cs). length (unread (wd_pending c) cs))")
    (auto dest!: read_frame_shrinks [OF sym] wd_frame_pending [OF sym])

declare control_pong.simps [simp del]

definition control_ping ::
  "(nat \<Rightarrow> octets) \<Rightarrow> wd_client \<Rightarrow> octets option list \<Rightarrow> wd_client \<times> octets option list \<times> (ws_error + unit)" where
  "control_ping rand c cs =
     (case wd_send rand 9 WS_LIVE c of
        (Some e, c') \<Rightarrow> (c', cs, Inl e)
      | (None, c') \<Rightarrow> control_pong rand c' cs)"

text \<open>The HTTP upgrade.\<close>

fun read_head :: "octets \<Rightarrow> octets option list \<Rightarrow> octets \<times> octets option list \<times> (ws_error + unit)" where
  "read_head pending [] =
     (if contains_sub pending (crlf8 @ crlf8) then (pending, [], Inr ())
      else if length pending > 8192 then (pending, [], Inl (WsAssert ''WebSocket response head exceeded 8 KiB''))
      else (pending, [], Inl WsTimeout))"
| "read_head pending (c # cs) =
     (if contains_sub pending (crlf8 @ crlf8) then (pending, c # cs, Inr ())
      else if length pending > 8192
      then (pending, c # cs, Inl (WsAssert ''WebSocket response head exceeded 8 KiB''))
      else case c of
        None \<Rightarrow> (pending, cs, Inl WsTimeout)
      | Some chunk \<Rightarrow>
          if chunk = [] then (pending, cs, Inl WsClosed) else read_head (pending @ chunk) cs)"

fun parse_headers :: "pystr list \<Rightarrow> (pystr \<times> pystr) list \<Rightarrow> ws_error + (pystr \<times> pystr) list" where
  "parse_headers [] acc = Inr acc"
| "parse_headers (l # ls) acc =
     (case partition_sub l (u '':'') of (k, sep, v) \<Rightarrow>
      if sep = [] then Inl (WsAssert ''malformed WebSocket upgrade header'')
      else parse_headers ls ((str_lower k, str_strip v) # acc))"

definition check_upgrade :: "octets \<Rightarrow> ws_error + unit" where
  "check_upgrade head =
     (if list_ex (\<lambda>b. 128 \<le> unat b) head then Inl WsUnicode
      else
        let lines = split_sub [13, 10] (map unat head) in
        if hd lines \<noteq> u ''HTTP/1.1 101 Switching Protocols'' then Inl (WsAssert ''WebSocket upgrade returned'')
        else case parse_headers (tl lines) [] of
          Inl e \<Rightarrow> Inl e
        | Inr hs \<Rightarrow>
            if map_of hs (u ''sec-websocket-accept'') \<noteq> Some (u ''s3pPLMBiTxaQ9kYGzzhZRbK+xOo='')
            then Inl (WsAssert ''WebSocket upgrade returned the wrong accept digest'')
            else if map_of hs (u ''sec-websocket-protocol'') \<noteq> Some (u ''text.ircv3.net'')
            then Inl (WsAssert ''WebSocket upgrade did not select text.ircv3.net'')
            else Inr ())"

definition upgrade :: "wd_client \<Rightarrow> octets option list \<Rightarrow> wd_client \<times> octets option list \<times> (ws_error + unit)" where
  "upgrade c cs =
     (case read_head (wd_pending c) cs of
        (p, cs', Inl e) \<Rightarrow> (c\<lparr>wd_pending := p\<rparr>, cs', Inl e)
      | (p, cs', Inr _) \<Rightarrow>
          (case split1 (crlf8 @ crlf8) p of
             [head, rest] \<Rightarrow> (c\<lparr>wd_pending := rest\<rparr>, cs', check_upgrade head)
           | _ \<Rightarrow> (c\<lparr>wd_pending := p\<rparr>, cs', Inl WsClosed)))"

end
