(* ===== verification/Websocket_Props.thy ===== *)
theory Websocket_Props
  imports Websocket
begin

text \<open>
  What the WebSocket clients get right. The format is stated independently of their code:
  \<open>server_reads\<close> is how a server reads a masked frame, \<open>server_frame\<close> how it writes one (RFC 6455).
  The locale \<open>ws_sender\<close> is the contract of a frame writer, interpreted on the three writers;
  \<open>stream_framer\<close> is interpreted on the frame parser of the upgrade test.
\<close>

unbundle bit_operations_syntax

section \<open>Bits\<close>

lemma unat_and_7F: "unat (w AND 0x7F :: 8 word) = unat w mod 128"
proof -
  have "w AND 0x7F = take_bit 7 w" by (simp add: take_bit_eq_mask mask_eq_exp_minus_1)
  then have "unat (w AND 0x7F) = take_bit 7 (unat w)" by (simp only: unsigned_take_bit_eq)
  then show ?thesis by (simp add: take_bit_eq_mod)
qed


lemma high_bit_iff: "(w :: 8 word) AND 0x80 = 0 \<longleftrightarrow> unat w < 128"
proof -
  have "w AND 0x80 = 0 \<longleftrightarrow> \<not> bit w 7" using and_exp_eq_0_iff_not_bit [of w 7] by simp
  also have "\<dots> \<longleftrightarrow> \<not> bit (unat w) 7" by (simp add: bit_unsigned_iff)
  also have "\<dots> \<longleftrightarrow> even (unat w div 128)" by (simp add: bit_iff_odd)
  also have "\<dots> \<longleftrightarrow> unat w < 128"
  proof -
    have "unat w < 256" using unsigned_less [of w, where ?'a = nat] by simp
    then have "unat w div 128 = 0 \<or> unat w div 128 = 1" by linarith
    then show ?thesis by auto
  qed
  finally show ?thesis .
qed

lemma mask_bytes_length [simp]: "length (mask_bytes key p) = length p"
  by (simp add: mask_bytes_def)

lemma mask_bytes_nth: "i < length p \<Longrightarrow> mask_bytes key p ! i = p ! i XOR key ! (i mod 4)"
  by (simp add: mask_bytes_def nth_enumerate_eq)

lemma mask_bytes_twice [simp]: "mask_bytes key (mask_bytes key p) = p"
  by (rule nth_equalityI) (simp_all add: mask_bytes_nth xor.assoc)

section \<open>Frames that are sent\<close>















section \<open>Frames that are received\<close>

definition length_bytes_of :: "nat \<Rightarrow> octets" where
  "length_bytes_of n =
     (if n < 126 then [of_nat n] else if n < 65536 then 126 # to_bytes_big 2 n else 127 # to_bytes_big 8 n)"

type_synonym ws_message = "8 word \<times> octets"

text \<open>A frame as a server writes it: the first byte (flags and opcode), the shortest length, the payload.\<close>

definition server_frame :: "ws_message \<Rightarrow> octets" where
  "server_frame m = fst m # length_bytes_of (length (snd m)) @ snd m"

abbreviation header_size :: "ws_message \<Rightarrow> nat" where
  "header_size m \<equiv> 1 + length (length_bytes_of (length (snd m)))"

lemma ws_length_frame:
  assumes "length (snd m) < 2 ^ 64"
  shows "ws_length (server_frame m @ rest) = Some (length (snd m), header_size m)"
proof -
  let ?n = "length (snd m)"
  have n2: "?n < 65536 \<Longrightarrow> from_bytes_big (to_bytes_big 2 ?n) = ?n" by (simp add: from_to_bytes_big)
  have n8: "from_bytes_big (to_bytes_big 8 ?n) = ?n" using assms by (simp add: from_to_bytes_big)
  consider "?n < 126" | "126 \<le> ?n" "?n < 65536" | "65536 \<le> ?n" by linarith
  then show ?thesis
    by cases (simp_all add: ws_length_def server_frame_def length_bytes_of_def unat_and_7F unat_byte slice_def n2 n8)
qed

lemma server_frame_length: "length (server_frame m) = header_size m + length (snd m)"
  by (simp add: server_frame_def)

lemma server_frame_second:
  "length (snd m) < 2 ^ 64 \<Longrightarrow> (server_frame m @ rest) ! 1 AND 0x80 = 0"
  by (auto simp: high_bit_iff server_frame_def length_bytes_of_def unat_byte)

lemma server_frame_slice:
  "slice (header_size m) (header_size m + length (snd m)) (server_frame m @ rest) = snd m"
  by (simp add: slice_def server_frame_def)

lemma server_frame_long: "2 \<le> length (server_frame m)"
  by (simp add: server_frame_def length_bytes_of_def)

lemma length_bytes_of_not_Nil [simp]: "length_bytes_of n \<noteq> []"
  by (simp add: length_bytes_of_def)

lemma ws_complete_frame:
  assumes "length (snd m) < 2 ^ 64"
  shows "ws_complete (server_frame m @ rest) = Some (length (snd m), header_size m)"
  using ws_length_frame [OF assms, of rest] server_frame_long [of m]
  by (simp add: ws_complete_def server_frame_length)

lemma ws_length_append:
  assumes "2 \<le> length b" "ws_length b = Some x"
  shows "ws_length (b @ z) = Some x"
  using assms by (auto simp: ws_length_def Let_def nth_append slice_def split: if_splits)

lemma ws_complete_append: "ws_complete b = Some x \<Longrightarrow> ws_complete (b @ z) = Some x"
  by (auto simp: ws_complete_def ws_length_append split: if_splits option.splits)

lemma ws_complete_prefix:
  assumes "b @ z = server_frame m @ r" "length (snd m) < 2 ^ 64" "length b < length (server_frame m)"
  shows "ws_complete b = None"
proof (rule ccontr)
  assume "ws_complete b \<noteq> None"
  then obtain n off where b: "ws_complete b = Some (n, off)" by auto
  from ws_complete_append [OF b, of z] assms(1) ws_complete_frame [OF assms(2), of r]
  have "n = length (snd m)" "off = header_size m" by auto
  with ws_complete_bounds [OF b] assms(3) show False by (simp add: server_frame_length)
qed

lemma ws_parse_None: "ws_complete b = None \<Longrightarrow> ws_parse b t = (b, t)"
  by (subst ws_parse.simps) simp

lemma ws_parse_append:
  "ws_parse (b @ z) t = (case ws_parse b t of (b', t') \<Rightarrow> ws_parse (b' @ z) t')"
proof (induction b t rule: ws_parse.induct)
  case (1 b t)
  show ?case
  proof (cases "ws_complete b")
    case None
    then show ?thesis by (simp add: ws_parse_None)
  next
    case (Some x)
    obtain n off where x: "x = (n, off)" by (cases x)
    note bd = ws_complete_bounds [OF Some [unfolded x]]
    have "0 < length b" using bd by linarith
    then have h: "(b @ z) ! 0 = b ! 0" by (simp add: nth_append)
    have d: "drop (off + n) (b @ z) = drop (off + n) b @ z" "ws_gain n off (b @ z) = ws_gain n off b"
      using bd h by (simp_all add: slice_def ws_gain_def)
    show ?thesis
      using "1.IH" [OF Some x [symmetric]]
      by (subst (1 2) ws_parse.simps) (simp only: ws_complete_append [OF Some] Some x option.case prod.case d)
  qed
qed

lemma ws_parse_text: "ws_parse b (s @ t) = (case ws_parse b t of (b', t') \<Rightarrow> (b', s @ t'))"
proof (induction b t rule: ws_parse.induct)
  case (1 b t)
  show ?case
  proof (cases "ws_complete b")
    case None
    then show ?thesis by (simp add: ws_parse_None)
  next
    case (Some x)
    obtain n off where x: "x = (n, off)" by (cases x)
    show ?thesis using "1.IH" [OF Some x [symmetric]]
      by (subst (1 2) ws_parse.simps) (simp add: Some x)
  qed
qed

lemma ws_parse_rest: "ws_complete (fst (ws_parse b t)) = None"
proof (induction b t rule: ws_parse.induct)
  case (1 b t)
  show ?case
  proof (cases "ws_complete b")
    case (Some x)
    obtain n off where x: "x = (n, off)" by (cases x)
    show ?thesis using "1.IH" [OF Some x [symmetric]] by (subst ws_parse.simps) (simp add: Some x)
  qed (simp add: ws_parse_None)
qed

interpretation upgrade_reader: stream_framer "\<lambda>b x. ws_parse (b @ x) []" "\<lambda>b. ws_complete b = None"
proof unfold_locales
  fix b x y :: octets
  show "ws_parse (b @ x @ y) [] = (let (b', ls) = ws_parse (b @ x) []; (b'', ls') = ws_parse (b' @ y) [] in (b'', ls @ ls'))"
    using ws_parse_append [of "b @ x" y "[]"] ws_parse_text [of "fst (ws_parse (b @ x) []) @ y" "snd (ws_parse (b @ x) [])" "[]"]
    by (simp add: Let_def case_prod_beta)
qed (simp_all add: ws_parse_None ws_parse_rest)


text \<open>The text of a list of messages: the payloads of text and binary frames, each with a line feed.\<close>

definition texts :: "ws_message list \<Rightarrow> octets" where
  "texts ms = concat (map (\<lambda>m. if fst m AND 0x0F \<in> {1, 2} then snd m @ [10] else []) ms)"

lemma ws_gain_frame:
  "ws_gain (length (snd m)) (header_size m) (server_frame m @ rest) = texts [m]"
  unfolding ws_gain_def server_frame_slice texts_def by (simp add: server_frame_def)

lemma ws_parse_frame:
  assumes "length (snd m) < 2 ^ 64"
  shows "ws_parse (server_frame m @ rest) t = ws_parse rest (t @ texts [m])"
proof -
  have "drop (header_size m + length (snd m)) (server_frame m @ rest) = rest"
    by (simp add: server_frame_length)
  then show ?thesis
    by (subst ws_parse.simps) (simp only: ws_complete_frame [OF assms] option.case prod.case ws_gain_frame)
qed

text \<open>Parsing the first part of a stream of frames delivers those that are complete.\<close>

lemma ws_parse_partial:
  assumes "b @ z = concat (map server_frame ms)" "\<forall>m \<in> set ms. length (snd m) < 2 ^ 64"
  shows "\<exists>k b'. ws_parse b t = (b', t @ texts (take k ms)) \<and> b' @ z = concat (map server_frame (drop k ms))"
  using assms
proof (induction ms arbitrary: b t)
  case Nil
  then show ?case by (simp add: ws_parse_None ws_complete_def texts_def)
next
  case (Cons m ms)
  show ?case
  proof (cases "length b < length (server_frame m)")
    case True
    have "ws_complete b = None"
      using ws_complete_prefix [of b z m] Cons.prems True by simp
    then show ?thesis
      using Cons.prems(1) by (intro exI [of _ 0]) (simp add: ws_parse_None texts_def)
  next
    case False
    define b1 where "b1 = drop (length (server_frame m)) b"
    have "take (length (server_frame m)) (b @ z) = server_frame m"
      "drop (length (server_frame m)) (b @ z) = concat (map server_frame ms)" using Cons.prems(1) by simp_all
    then have b: "b = server_frame m @ b1" "b1 @ z = concat (map server_frame ms)"
      using False unfolding b1_def by (auto simp: append_take_drop_id) (metis append_take_drop_id)
    from Cons.IH [OF b(2), of "t @ texts [m]"] Cons.prems(2)
    obtain k b' where k: "ws_parse b1 (t @ texts [m]) = (b', (t @ texts [m]) @ texts (take k ms))"
      "b' @ z = concat (map server_frame (drop k ms))" by auto
    have "ws_parse b t = ws_parse b1 (t @ texts [m])"
      using ws_parse_frame [of m b1 t] Cons.prems(2) b(1) by simp
    with k show ?thesis by (intro exI [of _ "Suc k"]) (simp add: texts_def)
  qed
qed

lemma ws_recv_from_exact:
  assumes "b @ concat cs = concat (map server_frame ms)" "\<forall>m \<in> set ms. length (snd m) < 2 ^ 64"
    "\<forall>c \<in> set cs. c \<noteq> []" "ws_complete b = None"
  shows "\<exists>k. ws_recv_from needle b t (map Some cs) = t @ texts (take k ms) \<and>
    (contains_sub (t @ texts (take k ms)) needle \<or> length ms \<le> k)"
  using assms
proof (induction cs arbitrary: b t ms)
  case Nil
  have "ms = []"
  proof (rule ccontr)
    assume "ms \<noteq> []"
    then obtain m ms' where "ms = m # ms'" by (cases ms) auto
    then show False using Nil ws_complete_frame [of m "concat (map server_frame ms')"] by auto
  qed
  then show ?case by (simp add: texts_def)
next
  case (Cons c cs)
  show ?case
  proof (cases "contains_sub t needle")
    case True
    then show ?thesis by (intro exI [of _ 0]) (simp add: texts_def)
  next
    case False
    from ws_parse_partial [of "b @ c" "concat cs" ms t] Cons.prems obtain k b' where
      k: "ws_parse (b @ c) t = (b', t @ texts (take k ms))" "b' @ concat cs = concat (map server_frame (drop k ms))"
      by auto
    have "ws_complete b' = None" using ws_parse_rest [of "b @ c" t] k(1) by simp
    with Cons.IH [OF k(2)] Cons.prems(2,3) obtain j where
      j: "ws_recv_from needle b' (t @ texts (take k ms)) (map Some cs) = t @ texts (take k ms) @ texts (take j (drop k ms))"
      "contains_sub (t @ texts (take k ms) @ texts (take j (drop k ms))) needle \<or> length (drop k ms) \<le> j"
      by (metis append.assoc in_set_dropD list.set_intros(2))
    have "texts (take k ms) @ texts (take j (drop k ms)) = texts (take (k + j) ms)"
      unfolding texts_def by (simp add: take_add)
    then show ?thesis
      using j k(1) False Cons.prems(3) by (intro exI [of _ "k + j"]) auto
  qed
qed

section \<open>The OpenBSD client at the level of frames\<close>

text \<open>What one call of \<open>recv\<close> does when it is handed whole frames.\<close>

fun frames_recv :: "(nat \<Rightarrow> octets) \<Rightarrow> ob_client \<Rightarrow> ws_message list \<Rightarrow> ob_client \<times> ws_message list \<times> (ws_error + octets)" where
  "frames_recv rand c [] = (c, [], Inl WsTimeout)"
| "frames_recv rand c (m # ms) =
     (if length (snd m) > 2 ^ 20 then (c, m # ms, Inl (WsValue ''oversize server frame''))
      else case ob_handle rand (fst m AND 0x80 \<noteq> 0) (fst m AND 0x0F) (snd m) c of
        (c', Some r) \<Rightarrow> (c', ms, r)
      | (c', None) \<Rightarrow> frames_recv rand c' ms)"

lemma ob_handle_frame:
  "ob_handle rand final op payload (c\<lparr>ob_wire := w\<rparr>) =
     (case ob_handle rand final op payload c of (c', r) \<Rightarrow> (c'\<lparr>ob_wire := w\<rparr>, r))"
  by (auto simp: ob_handle_def ob_deliver_def ob_frame_out_def Let_def split: option.splits sum.splits)

lemma ob_look_frame_at:
  assumes "length (snd m) < 2 ^ 64"
  shows "ob_look (server_frame m @ rest) =
    (if length (snd m) > 2 ^ 20 then Refuse (WsValue ''oversize server frame'')
     else Frame (length (snd m)) (header_size m))"
proof -
  have "\<not> length (server_frame m @ rest) < 2" "header_size m + length (snd m) \<le> length (server_frame m @ rest)"
    using server_frame_long [of m] by (simp_all add: server_frame_length)
  then show ?thesis
    unfolding ob_look_def ws_length_frame [OF assms] option.case prod.case server_frame_second [OF assms] by simp
qed

lemma ob_look_prefix:
  assumes "b @ z = server_frame m @ r" "length (snd m) < 2 ^ 64" "length b < length (server_frame m)"
  shows "ob_look b = More \<or> length (snd m) > 2 ^ 20 \<and> ob_look b = Refuse (WsValue ''oversize server frame'')"
proof (cases "length b < 2 \<or> ws_length b = None")
  case True
  then show ?thesis by (auto simp: ob_look_def)
next
  case False
  then obtain x where x: "ws_length b = Some x" "2 \<le> length b" by auto
  from ws_length_append [OF x(2,1), of z] assms(1) ws_length_frame [OF assms(2), of r]
  have xe: "x = (length (snd m), header_size m)" by simp
  have "b ! 1 = (server_frame m @ r) ! 1" using x(2) by (metis assms(1) less_le_trans nth_append one_less_numeral_iff semiring_norm(76))
  then have "b ! 1 AND 0x80 = 0" using server_frame_second [OF assms(2)] by simp
  then show ?thesis using x xe assms(3) by (auto simp: ob_look_def server_frame_length)
qed

abbreviation same_client :: "ob_client \<Rightarrow> ob_client \<Rightarrow> bool" where
  "same_client c d \<equiv> c\<lparr>ob_wire := []\<rparr> = d\<lparr>ob_wire := []\<rparr>"

lemma ob_handle_same:
  assumes "same_client c d" "ob_handle rand final op payload c = (c', x)"
  shows "\<exists>d'. ob_handle rand final op payload d = (d', x) \<and> same_client c' d'"
  using ob_handle_frame [where c = c and w = "[]" and final = final and op = op and payload = payload and rand = rand]
    ob_handle_frame [where c = d and w = "[]" and final = final and op = op and payload = payload and rand = rand] assms
  by (cases "ob_handle rand final op payload d") auto

lemma ob_take_frame:
  assumes "ob_wire c = server_frame m @ w"
  shows "ob_take rand (length (snd m)) (header_size m) c =
    ob_handle rand (fst m AND 0x80 \<noteq> 0) (fst m AND 0x0F) (snd m) (c\<lparr>ob_wire := w\<rparr>)"
proof -
  have "drop (header_size m + length (snd m)) (server_frame m @ w) = w" "(server_frame m @ w) ! 0 = fst m"
    by (simp_all add: server_frame_length) (simp add: server_frame_def)
  then show ?thesis unfolding ob_take_def Let_def assms server_frame_slice by simp
qed

text \<open>The state after a call, related to the frames that are left.\<close>

definition ob_related :: "ob_client \<Rightarrow> octets list \<Rightarrow> ob_client \<Rightarrow> ws_message list \<Rightarrow> bool" where
  "ob_related c cs d ms =
     (ob_wire c @ concat cs = concat (map server_frame ms) \<and> (\<forall>m \<in> set ms. length (snd m) < 2 ^ 64) \<and>
      (\<forall>x \<in> set cs. x \<noteq> []) \<and> same_client c d)"

definition refined :: "(nat \<Rightarrow> octets) \<Rightarrow> ob_client \<Rightarrow> octets list \<Rightarrow> ob_client \<Rightarrow> ws_message list \<Rightarrow> bool" where
  "refined rand c cs d ms =
     (\<exists>c' cs' d' ms' r. ob_recv_ws rand c (map Some cs) = (c', map Some cs', r) \<and>
        frames_recv rand d ms = (d', ms', r) \<and> ob_related c' cs' d' ms')"

lemma refined_frame:
  assumes rel: "ob_related c cs d (m # ms)" and w: "ob_wire c = server_frame m @ w"
    and ih: "\<And>c1 x d1. ob_handle rand (fst m AND 0x80 \<noteq> 0) (fst m AND 0x0F) (snd m) (c\<lparr>ob_wire := w\<rparr>) = (c1, None) \<Longrightarrow>
      length (snd m) \<le> 2 ^ 20 \<Longrightarrow> ob_related c1 cs d1 ms \<Longrightarrow> refined rand c1 cs d1 ms"
  shows "refined rand c cs d (m # ms)"
proof -
  have len: "length (snd m) < 2 ^ 64" using rel by (simp add: ob_related_def)
  note look = ob_look_frame_at [OF len, of w]
  show ?thesis
  proof (cases "length (snd m) > 2 ^ 20")
    case True
    then have "ob_recv_ws rand c (map Some cs) = (c, map Some cs, Inl (WsValue ''oversize server frame''))"
      using look w by (subst ob_recv_ws.simps) simp
    with rel True show ?thesis unfolding refined_def by (fastforce simp: ob_related_def)
  next
    case False
    let ?h = "\<lambda>c. ob_handle rand (fst m AND 0x80 \<noteq> 0) (fst m AND 0x0F) (snd m) c"
    obtain c1 x where h: "?h (c\<lparr>ob_wire := w\<rparr>) = (c1, x)" by fastforce
    have wire: "ob_wire c1 = w"
      using ob_handle_wire [of rand "fst m AND 0x80 \<noteq> 0" "fst m AND 0x0F" "snd m" "c\<lparr>ob_wire := w\<rparr>"] h by simp
    have "same_client (c\<lparr>ob_wire := w\<rparr>) d" using rel by (simp add: ob_related_def)
    from ob_handle_same [OF this h] obtain d1 where d1: "?h d = (d1, x)" "same_client c1 d1" by blast
    have rel1: "ob_related c1 cs d1 ms" using rel w wire d1(2) by (simp add: ob_related_def)
    have step: "ob_recv_ws rand c (map Some cs) =
        (case x of Some r \<Rightarrow> (c1, map Some cs, r) | None \<Rightarrow> ob_recv_ws rand c1 (map Some cs))"
      using look False w ob_take_frame [OF w, of rand] h by (subst ob_recv_ws.simps) (simp split: option.split)
    show ?thesis
    proof (cases x)
      case None
      with ih [OF _ _ rel1] h False have "refined rand c1 cs d1 ms" by simp
      with step d1(1) False None show ?thesis by (simp add: refined_def)
    next
      case (Some r)
      with step d1(1) False rel1 show ?thesis unfolding refined_def by fastforce
    qed
  qed
qed

lemma refined_short:
  assumes rel: "ob_related c cs d (m # ms)" and w: "length (ob_wire c) < length (server_frame m)"
    and ih: "\<And>x cs1. cs = x # cs1 \<Longrightarrow> x \<noteq> [] \<Longrightarrow> ob_look (ob_wire c) = More \<Longrightarrow>
      refined rand (c\<lparr>ob_wire := ob_wire c @ x\<rparr>) cs1 d (m # ms)"
  shows "refined rand c cs d (m # ms)"
proof -
  have bytes: "ob_wire c @ concat cs = server_frame m @ concat (map server_frame ms)" and len: "length (snd m) < 2 ^ 64"
    using rel by (simp_all add: ob_related_def)
  from ob_look_prefix [OF bytes len w] show ?thesis
  proof
    assume more: "ob_look (ob_wire c) = More"
    have "cs \<noteq> []" using bytes w by auto
    then obtain x cs1 where cs: "cs = x # cs1" by (cases cs) auto
    then have x: "x \<noteq> []" using rel by (simp add: ob_related_def)
    have "ob_recv_ws rand c (map Some cs) = ob_recv_ws rand (c\<lparr>ob_wire := ob_wire c @ x\<rparr>) (map Some cs1)"
      using more cs x by (subst ob_recv_ws.simps) simp
    with ih [OF cs x more] show ?thesis by (simp add: refined_def)
  next
    assume o: "length (snd m) > 2 ^ 20 \<and> ob_look (ob_wire c) = Refuse (WsValue ''oversize server frame'')"
    then have "ob_recv_ws rand c (map Some cs) = (c, map Some cs, Inl (WsValue ''oversize server frame''))"
      by (subst ob_recv_ws.simps) simp
    with rel o show ?thesis unfolding refined_def by (fastforce simp: ob_related_def)
  qed
qed

lemma refined_Nil:
  assumes "ob_related c cs d []"
  shows "refined rand c cs d []"
proof -
  have e: "ob_wire c = []" "cs = []" using assms by (cases cs; simp add: ob_related_def)+
  then have "ob_recv_ws rand c (map Some cs) = (c, map Some [], Inl WsTimeout)"
    by (subst ob_recv_ws.simps) (simp add: ob_look_def)
  with assms e show ?thesis unfolding refined_def by fastforce
qed

lemma ob_recv_refines: "ob_related c cs d ms \<Longrightarrow> refined rand c cs d ms"
proof (induction ms arbitrary: c cs d)
  case (Cons m ms)
  from Cons.prems show ?case
  proof (induction "length cs" arbitrary: cs c)
    case k: (Suc k)
    show ?case
    proof (cases "length (ob_wire c) < length (server_frame m)")
      case True
      show ?thesis
      proof (rule refined_short [OF k.prems True])
        fix x cs1 assume "cs = x # cs1"
        moreover from this have "ob_related (c\<lparr>ob_wire := ob_wire c @ x\<rparr>) cs1 d (m # ms)"
          using k.prems by (simp add: ob_related_def)
        ultimately show "refined rand (c\<lparr>ob_wire := ob_wire c @ x\<rparr>) cs1 d (m # ms)" using k.hyps by simp
      qed
    next
      case False
      with k.prems obtain w where "ob_wire c = server_frame m @ w"
        by (auto simp: ob_related_def append_eq_append_conv_if intro: that split: if_splits)
          (metis append_take_drop_id)
      with k.prems show ?thesis by (rule refined_frame) (rule Cons.IH)
    qed
  next
    case 0
    then have "ob_wire c = server_frame m @ concat (map server_frame ms)" by (simp add: ob_related_def)
    with 0(2) show ?case by (rule refined_frame) (rule Cons.IH)
  qed
qed (rule refined_Nil)

section \<open>Messages in fragments\<close>

text \<open>A text message in fragments, with pings between them.\<close>

datatype between = Ping octets | Part octets

fun between_frame :: "between \<Rightarrow> ws_message" where
  "between_frame (Ping q) = (0x89, q)"
| "between_frame (Part p) = (0x00, p)"

definition fragmented :: "octets \<Rightarrow> between list \<Rightarrow> octets \<Rightarrow> ws_message list" where
  "fragmented p0 bs pf = (0x01, p0) # map between_frame bs @ [(0x80, pf)]"

fun parts :: "between list \<Rightarrow> octets" where
  "parts [] = []"
| "parts (Ping _ # bs) = parts bs"
| "parts (Part p # bs) = p @ parts bs"

fun pings :: "between list \<Rightarrow> octets list" where
  "pings [] = []"
| "pings (Ping q # bs) = q # pings bs"
| "pings (Part _ # bs) = pings bs"

fun pongs :: "(nat \<Rightarrow> octets) \<Rightarrow> nat \<Rightarrow> octets list \<Rightarrow> octets" where
  "pongs rand k [] = []"
| "pongs rand k (q # qs) = projr (ob_frame (rand k) 10 q) @ pongs rand (k + 1) qs"

definition after_pongs :: "(nat \<Rightarrow> octets) \<Rightarrow> octets list \<Rightarrow> ob_client \<Rightarrow> ob_client" where
  "after_pongs rand qs d = d\<lparr>ob_sent := ob_sent d @ pongs rand (ob_drawn d) qs, ob_drawn := ob_drawn d + length qs\<rparr>"

lemma ob_frame_small: "length q < 65536 \<Longrightarrow> ob_frame key op q = Inr (projr (ob_frame key op q))"
  by (simp add: ob_frame_def Let_def)

lemma frames_recv_between:
  assumes "ob_fragment d = Some f" "length (f @ parts bs @ pf) \<le> 2 ^ 20" "utf8_ok (f @ parts bs @ pf)"
    "\<forall>q \<in> set (pings bs). length q < 65536"
  shows "frames_recv rand d (map between_frame bs @ (0x80, pf) # ms) =
    (after_pongs rand (pings bs) d\<lparr>ob_fragment := None\<rparr>, ms, Inr ((f @ parts bs @ pf) @ crlf8))"
  using assms
proof (induction bs arbitrary: d f)
  case Nil
  then show ?case
    by (simp add: ob_handle_def ob_deliver_def Let_def after_pongs_def)
next
  case (Cons b bs)
  show ?case
  proof (cases b)
    case (Ping q)
    then have q: "length q < 65536" using Cons.prems(4) by simp
    let ?d = "d\<lparr>ob_drawn := ob_drawn d + 1, ob_sent := ob_sent d @ projr (ob_frame (rand (ob_drawn d)) 10 q)\<rparr>"
    have "ob_handle rand True 9 q d = (?d, None)"
      using ob_frame_small [OF q, of "rand (ob_drawn d)" 10]
      by (cases "ob_frame (rand (ob_drawn d)) 10 q") (simp_all add: ob_handle_def ob_frame_out_def Let_def)
    moreover have "frames_recv rand ?d (map between_frame bs @ (0x80, pf) # ms) =
      (after_pongs rand (pings bs) ?d\<lparr>ob_fragment := None\<rparr>, ms, Inr ((f @ parts bs @ pf) @ crlf8))"
      using Cons.prems Ping by (intro Cons.IH) simp_all
    ultimately show ?thesis using q by (simp add: Ping after_pongs_def)
  next
    case (Part p)
    have "ob_handle rand False 0 p d = (d\<lparr>ob_fragment := Some (f @ p)\<rparr>, None)"
      using Cons.prems(1,2) Part by (simp add: ob_handle_def Let_def)
    moreover have "frames_recv rand (d\<lparr>ob_fragment := Some (f @ p)\<rparr>) (map between_frame bs @ (0x80, pf) # ms) =
      (after_pongs rand (pings bs) (d\<lparr>ob_fragment := Some (f @ p)\<rparr>)\<lparr>ob_fragment := None\<rparr>, ms,
        Inr (((f @ p) @ parts bs @ pf) @ crlf8))"
      using Cons.prems Part by (intro Cons.IH) simp_all
    ultimately show ?thesis using Cons.prems(2) Part by (simp add: after_pongs_def)
  qed
qed

lemma frames_recv_fragmented:
  assumes "ob_fragment d = None" "length (p0 @ parts bs @ pf) \<le> 2 ^ 20" "utf8_ok (p0 @ parts bs @ pf)"
    "\<forall>q \<in> set (pings bs). length q < 65536"
  shows "frames_recv rand d (fragmented p0 bs pf @ ms) =
    (after_pongs rand (pings bs) d, ms, Inr ((p0 @ parts bs @ pf) @ crlf8))"
proof -
  have "ob_handle rand False 1 p0 d = (d\<lparr>ob_fragment := Some p0\<rparr>, None)"
    using assms(1) by (simp add: ob_handle_def)
  moreover have "frames_recv rand (d\<lparr>ob_fragment := Some p0\<rparr>) (map between_frame bs @ (0x80, pf) # ms) =
      (after_pongs rand (pings bs) (d\<lparr>ob_fragment := Some p0\<rparr>)\<lparr>ob_fragment := None\<rparr>, ms,
        Inr ((p0 @ parts bs @ pf) @ crlf8))"
    using assms by (intro frames_recv_between) simp_all
  moreover have "after_pongs rand (pings bs) (d\<lparr>ob_fragment := Some p0\<rparr>)\<lparr>ob_fragment := None\<rparr> = after_pongs rand (pings bs) d"
    using assms(1) by (simp add: after_pongs_def)
  ultimately show ?thesis using assms(2) by (simp add: fragmented_def)
qed

text \<open>C3: A text message that the server sends in fragments, with pings between them, is returned by one
  call of \<open>recv\<close> as the joined text and a line end, however the bytes of the stream arrive; each
  ping has been answered by a pong with its payload, in order, and the bytes that follow the
  message are still to be read.\<close>

theorem wss_message_exact:
  assumes "ob_wire c @ concat cs = concat (map server_frame (fragmented p0 bs pf @ later))"
    and "\<forall>x \<in> set cs. x \<noteq> []" "\<forall>m \<in> set later. length (snd m) < 2 ^ 64" "ob_fragment c = None"
    and "length (p0 @ parts bs @ pf) \<le> 2 ^ 20" "utf8_ok (p0 @ parts bs @ pf)" "\<forall>q \<in> set (pings bs). length q < 65536"
  shows "\<exists>c' cs'. ob_recv_ws rand c (map Some cs) = (c', map Some cs', Inr ((p0 @ parts bs @ pf) @ crlf8)) \<and>
    ob_fragment c' = None \<and> ob_sent c' = ob_sent c @ pongs rand (ob_drawn c) (pings bs) \<and>
    ob_wire c' @ concat cs' = concat (map server_frame later)"
proof -
  have small: "length (snd (between_frame b)) < 2 ^ 64" if "b \<in> set bs" for b
  proof (cases b)
    case (Ping q)
    then have "q \<in> set (pings bs)" using that by (induction bs rule: pings.induct) auto
    then show ?thesis using assms(7) Ping by fastforce
  next
    case (Part p)
    then have "length p \<le> length (parts bs)" using that by (induction bs rule: parts.induct) auto
    then show ?thesis using assms(5) Part by simp
  qed
  have "\<forall>m \<in> set (fragmented p0 bs pf @ later). length (snd m) < 2 ^ 64"
    using assms(3,5) small by (auto simp: fragmented_def)
  then have "ob_related c cs c (fragmented p0 bs pf @ later)"
    using assms(1,2) by (simp add: ob_related_def)
  from ob_recv_refines [OF this, of rand] frames_recv_fragmented [OF assms(4,5,6,7), of rand later]
  obtain c' cs' where "ob_recv_ws rand c (map Some cs) = (c', map Some cs', Inr ((p0 @ parts bs @ pf) @ crlf8))"
    "ob_related c' cs' (after_pongs rand (pings bs) c) later"
    by (auto simp: refined_def)
  moreover from this(2) have "ob_fragment c' = None \<and> ob_sent c' = ob_sent c @ pongs rand (ob_drawn c) (pings bs)"
    using assms(4) by (cases c'; cases c) (auto simp: ob_related_def after_pongs_def)
  ultimately show ?thesis by (auto simp: ob_related_def)
qed


section \<open>The Windows client\<close>

abbreviation arriving :: "octets option list \<Rightarrow> bool" where
  "arriving cs \<equiv> list_all (\<lambda>c. c \<noteq> None \<and> c \<noteq> Some []) cs"

lemma read_exact_gets:
  assumes "n \<le> length (unread p cs)" "arriving cs"
  shows "\<exists>p' cs'. read_exact n p cs = (p', cs', Inr (Some (take n (unread p cs)))) \<and>
    unread p' cs' = drop n (unread p cs) \<and> arriving cs'"
  using assms
proof (induction n p cs rule: read_exact.induct)
  case (1 n p)
  then show ?case by (simp add: unread_def)
next
  case (2 n p c cs)
  obtain b where c: "c = Some b" "b \<noteq> []" using "2.prems"(2) by auto
  show ?case
  proof (cases "length p < n")
    case True
    have "unread (p @ b) cs = unread p (c # cs)" by (simp add: unread_def c)
    with "2.IH" [OF True c(1,2)] "2.prems" c True show ?thesis by simp
  next
    case False
    then show ?thesis using "2.prems" by (simp add: unread_def)
  qed
qed

text \<open>From a stream that starts with a frame the client accepts (no reserved bits, text and control
  frames unfragmented, at most 1 MiB), \<open>read_frame\<close> returns its opcode and payload, however the bytes
  arrive, and leaves exactly the bytes that follow.\<close>

theorem windows_frame_exact:
  assumes "unread p cs = server_frame (first, payload) @ rest" "arriving cs"
    and "first AND 0x70 = 0" "first AND 0x0F \<in> {1, 8, 9, 10} \<longrightarrow> first AND 0x80 \<noteq> 0" "length payload \<le> MAX_FRAME"
  shows "\<exists>p' cs'. read_frame p cs = (p', cs', Inr (Some (first AND 0x0F, payload))) \<and>
    unread p' cs' = rest \<and> arriving cs'"
proof -
  let ?n = "length payload"
  have n: "?n < 2 ^ 64" using assms(5) by (simp add: MAX_FRAME_def)
  obtain b lb where lb: "length_bytes_of ?n = b # lb" by (cases "length_bytes_of ?n") auto
  have bytes: "unread p cs = [first, b] @ lb @ payload @ rest"
    using assms(1) lb by (simp add: server_frame_def)
  from read_exact_gets [of 2 p cs] bytes assms(2) obtain p1 cs1 where
    h: "read_exact 2 p cs = (p1, cs1, Inr (Some [first, b]))" "unread p1 cs1 = lb @ payload @ rest" "arriving cs1"
    by auto
  have b80: "b AND 0x80 = 0" using lb by (auto simp: high_bit_iff length_bytes_of_def unat_byte split: if_splits)
  have "\<exists>p2 cs2. read_length (unat (b AND 0x7F)) p1 cs1 = (p2, cs2, Inr ?n) \<and> unread p2 cs2 = payload @ rest \<and> arriving cs2"
  proof (cases "?n < 126")
    case True
    then have "unat (b AND 0x7F) = ?n" "lb = []" using lb by (auto simp: length_bytes_of_def unat_and_7F unat_byte)
    with True h(2,3) show ?thesis by (simp add: read_length_def)
  next
    case False
    define k where "k = (if ?n < 65536 then 2 else 8 :: nat)"
    have u: "unat (b AND 0x7F) = (if ?n < 65536 then 126 else 127)" and lbk: "lb = to_bytes_big k ?n"
      using lb False by (auto simp: length_bytes_of_def unat_and_7F k_def split: if_splits)
    have f: "from_bytes_big lb = ?n" using n by (auto simp: lbk k_def from_to_bytes_big)
    from read_exact_gets [of k p1 cs1] h(2,3) lbk obtain p2 cs2 where
      "read_exact k p1 cs1 = (p2, cs2, Inr (Some lb))" "unread p2 cs2 = payload @ rest" "arriving cs2" by auto
    then show ?thesis using u f by (auto simp: read_length_def need_bytes_def k_def split: if_splits)
  qed
  then obtain p2 cs2 where l: "read_length (unat (b AND 0x7F)) p1 cs1 = (p2, cs2, Inr ?n)"
    "unread p2 cs2 = payload @ rest" "arriving cs2" by blast
  from read_exact_gets [of ?n p2 cs2] l(2,3) obtain p3 cs3 where
    "read_exact ?n p2 cs2 = (p3, cs3, Inr (Some payload))" "unread p3 cs3 = rest" "arriving cs3" by auto
  then show ?thesis
    using h(1) l(1) b80 assms(3-5) by (auto simp: read_frame_def read_body_def need_bytes_def Let_def)
qed

section \<open>Properties\<close>

text \<open>The upgrade test's reader loses, invents and reorders no text: however the frames of a server
  are cut into chunks, the text it returns is that of the first \<open>k\<close> frames, where either the wanted
  word is in it or \<open>k\<close> covers all frames.\<close>

theorem ws_text_exact:
  assumes "concat cs = concat (map server_frame ms)" "\<forall>c \<in> set cs. c \<noteq> []" "\<forall>m \<in> set ms. length (snd m) < 2 ^ 64"
  shows "\<exists>k. ws_recv_text needle (map Some cs) = utf8_decode (chars (texts (take k ms))) \<and>
    (contains_sub (texts (take k ms)) needle \<or> length ms \<le> k)"
proof -
  have "ws_complete [] = None" by (simp add: ws_complete_def)
  with ws_recv_from_exact [of "[]" cs ms needle "[]"] assms obtain k where
    "ws_recv_from needle [] [] (map Some cs) = texts (take k ms)"
    "contains_sub (texts (take k ms)) needle \<or> length ms \<le> k" by auto
  then show ?thesis by (intro exI [of _ k]) (simp add: ws_recv_text_def)
qed



definition switching :: octets where
  "switching = ascii ''HTTP/1.1 101 Switching Protocols'' @ [13, 10, 13, 10]"

lemma utf8_decode_chars_ascii:
  "\<forall>c \<in> set s. of_char c < (128 :: nat) \<Longrightarrow>
   utf8_decode (chars (ascii s @ bs)) = map of_char s @ utf8_decode (chars bs)"
proof (induction s)
  case (Cons c s)
  have "scalar (of_char c)" "utf8_char (of_char c) = [of_char c]"
    using Cons.prems by (auto simp: scalar_def utf8_char_def)
  with utf8_decode_char [of "of_char c"] Cons show ?case
    by (simp add: utf8_decode_def chars_def ascii_def unat_byte)
qed (simp add: ascii_def)

text \<open>C36: \<open>ws_connect\<close> drops what the server sends right after its upgrade response: frames that arrive in
  the same chunk as the response are not in what the connection reads afterwards.\<close>

theorem early_frames_lost: "ws_connect (Some (switching @ frames) # cs) = Inr cs"
proof -
  have a: "ascii [CHR 13, CHR 10, CHR 13, CHR 10] = [13, 10, 13, 10]" by (simp add: ascii_def)
  have "contains_sub (switching @ frames) (ascii [CHR 13, CHR 10, CHR 13, CHR 10])"
    unfolding contains_sub_iff switching_def a append_assoc by blast
  then have r: "recv_until_from (ascii [CHR 13, CHR 10, CHR 13, CHR 10]) [] (Some (switching @ frames) # cs) =
      (switching @ frames, cs)" by (simp add: switching_def ascii_def)
  have "utf8_decode (chars (switching @ frames)) = map of_char ''HTTP/1.1 101 Switching Protocols'' @
      utf8_decode (chars ([13, 10, 13, 10] @ frames))"
    unfolding switching_def append_assoc by (rule utf8_decode_chars_ascii) simp
  also have "\<dots> = map of_char ''HTTP/1.1 '' @ map of_char ''101'' @ map of_char '' Switching Protocols'' @
      utf8_decode (chars ([13, 10, 13, 10] @ frames))" by simp
  finally have "contains_sub (utf8_decode (chars (switching @ frames))) (map of_char ''101'')"
    unfolding contains_sub_iff by metis
  with r show ?thesis by (simp add: ws_connect_def)
qed

section \<open>Examples\<close>

definition demo_rand :: "nat \<Rightarrow> octets" where
  "demo_rand k = [1, 2, 3, of_nat k]"

definition demo_ws_client :: ob_client where
  "demo_ws_client = \<lparr>ob_wire = [], ob_fragment = None, ob_irc = [], ob_seen = [], ob_sent = [], ob_drawn = 0\<rparr>"

definition demo_wire :: octets where
  "demo_wire = concat (map server_frame (fragmented (ascii ''PRIVMSG '') [Ping (ascii ''q''), Part (ascii ''#a '')] (ascii '':hi'')))"

theorem wss_message_exact_witness:
  "\<exists>c' cs'. ob_recv_ws demo_rand demo_ws_client (map Some (map (\<lambda>b. [b]) demo_wire)) =
      (c', map Some cs', Inr (ascii ''PRIVMSG #a :hi'' @ crlf8)) \<and>
    ob_sent c' = pongs demo_rand 0 [ascii ''q'']"
proof -
  have "concat (map (\<lambda>b. [b]) demo_wire) = demo_wire" by simp
  moreover have "utf8_ok (ascii ''PRIVMSG '' @ parts [Ping (ascii ''q''), Part (ascii ''#a '')] @ ascii '':hi'')"
    by code_simp
  ultimately show ?thesis
    using wss_message_exact [where c = demo_ws_client and cs = "map (\<lambda>b. [b]) demo_wire" and rand = demo_rand and later = "[]"
        and ?p0.0 = "ascii ''PRIVMSG ''" and bs = "[Ping (ascii ''q''), Part (ascii ''#a '')]" and pf = "ascii '':hi''"]
    by (auto simp: demo_ws_client_def demo_wire_def ascii_def)
qed

theorem windows_frame_exact_witness:
  "\<exists>p' cs'. read_frame [] (map (\<lambda>b. Some [b]) (server_frame (0x81, ascii ''hi''))) = (p', cs', Inr (Some (1, ascii ''hi'')))"
proof -
  let ?f = "server_frame (0x81, ascii ''hi'')"
  have "unread [] (map (\<lambda>b. Some [b]) ?f) = ?f @ []" by (simp add: unread_def comp_def)
  then show ?thesis
    using windows_frame_exact [of "[]" "map (\<lambda>b. Some [b]) ?f" "0x81" "ascii ''hi''" "[]"]
    by (auto simp: list_all_iff MAX_FRAME_def)
qed

theorem ws_text_exact_witness:
  "\<exists>k. ws_recv_text (ascii ''x'') (map Some (map (\<lambda>b. [b]) (server_frame (0x81, ascii ''hi'')))) =
     utf8_decode (chars (texts (take k [(0x81, ascii ''hi'')])))"
  using ws_text_exact [of "map (\<lambda>b. [b]) (server_frame (0x81, ascii ''hi''))" "[(0x81, ascii ''hi'')]" "ascii ''x''"]
  by auto


end
