(* ===== verification/Image_Tools.thy ===== *)
theory Image_Tools
  imports PyText PyRegex Octets
begin

text \<open>
  The tools around the QEMU image tests, \<open>src/qemu-verify/\<close>: \<open>memscan.py\<close> (offsets of signatures in a
  memory dump), \<open>mkcpio.py\<close> (a newc archive), \<open>ppm2png.py\<close> (a screenshot as PNG) and \<open>hmp.py\<close> (the
  monitor client). Files are byte strings; opening files and sockets is left out. \<open>zlib.compress\<close>
  and \<open>zlib.crc32\<close> are arguments. \<open>None\<close> is an exception that ends the tool.
\<close>

section \<open>memscan: signatures in a dump\<close>

text \<open>The inner loop: \<open>buf.find(needle, start)\<close> until there is none.\<close>

function scan_buf :: "octets \<Rightarrow> octets \<Rightarrow> nat \<Rightarrow> nat list" where
  "scan_buf needle buf pos =
     (case find_sub (drop pos buf) needle of
        None \<Rightarrow> []
      | Some j \<Rightarrow> if pos + j < length buf then (pos + j) # scan_buf needle buf (pos + j + 1) else [pos + j])"
  by pat_completeness auto
termination
  by (relation "measure (\<lambda>(_, buf, s). length buf - s)") auto


declare scan_buf.simps [simp del]

fun find_chunks :: "octets \<Rightarrow> octets \<Rightarrow> int \<Rightarrow> octets list \<Rightarrow> int list" where
  "find_chunks needle carry off [] = []"
| "find_chunks needle carry off (data # cs) =
     (let buf = carry @ data;
          carry' = (if length needle > 1 then drop (length buf - (length needle - 1)) buf else [])
      in map (\<lambda>i. off - int (length carry) + int i) (scan_buf needle buf 0) @
         find_chunks needle carry' (off + int (length data)) cs)"

definition CHUNK :: nat where
  "CHUNK = 2 ^ 20"

function read_chunks :: "nat \<Rightarrow> octets \<Rightarrow> octets list" where
  "read_chunks k data = (if data = [] \<or> k = 0 then [] else take k data # read_chunks k (drop k data))"
  by pat_completeness auto
termination
  by (relation "measure (\<lambda>(_, data). length data)") auto

declare read_chunks.simps [simp del]

definition find_all :: "octets \<Rightarrow> octets \<Rightarrow> int list" where
  "find_all data needle = find_chunks needle [] 0 (read_chunks CHUNK data)"

definition needles :: "octets list" where
  "needles = map ascii [''070701'', ''boot.wim'', ''TRAILER!!!'', ''MSWIM'']"

definition memscan :: "octets \<Rightarrow> (octets \<times> int list) list" where
  "memscan data = map (\<lambda>n. (n, find_all data n)) needles"

definition occurrences :: "'a list \<Rightarrow> 'a list \<Rightarrow> nat \<Rightarrow> nat list" where
  "occurrences needle s from = filter (\<lambda>i. startswith (drop i s) needle) [from..<length s]"

lemma upt_split: "a \<le> b \<Longrightarrow> b \<le> c \<Longrightarrow> [a..<c] = [a..<b] @ [b..<c]"
  by (metis le_add_diff_inverse upt_add_eq_append)

lemma scan_buf_exact: "needle \<noteq> [] \<Longrightarrow> scan_buf needle buf pos = occurrences needle buf pos"
proof (induction needle buf pos rule: scan_buf.induct)
  case (1 needle buf pos)
  have short: "\<not> startswith [] needle" using "1.prems" by (simp add: startswith_def)
  show ?case
  proof (cases "find_sub (drop pos buf) needle")
    case None
    have "\<not> startswith (drop i buf) needle" if "pos \<le> i" for i
    proof
      assume "startswith (drop i buf) needle"
      then obtain t where "drop i buf = needle @ t" by (auto simp: startswith_iff)
      then have "drop (i - pos) (drop pos buf) = needle @ t" using that by simp
      then have "drop pos buf = take (i - pos) (drop pos buf) @ needle @ t" by (metis append_take_drop_id)
      then have "contains_sub (drop pos buf) needle" unfolding contains_sub_iff by metis
      with None show False by (simp add: contains_sub_def)
    qed
    then show ?thesis using None by (subst scan_buf.simps) (auto simp: occurrences_def filter_empty_conv)
  next
    case (Some j)
    note f = find_sub_startswith [OF Some] find_sub_bound [OF Some]
    have n: "pos + j < length buf" using f(2) "1.prems" by (cases needle) auto
    have "\<not> startswith (drop i buf) needle" if "pos \<le> i" "i < pos + j" for i
      using find_sub_minimal [OF Some, of "i - pos"] that by (simp add: add.commute)
    then have "filter (\<lambda>i. startswith (drop i buf) needle) [pos..<pos + j] = []"
      by (auto simp: filter_empty_conv)
    moreover have "[pos..<length buf] = [pos..<pos + j] @ (pos + j) # [pos + j + 1..<length buf]"
      using n upt_split [of pos "pos + j" "length buf"] upt_conv_Cons [of "pos + j" "length buf"] by simp
    ultimately have "occurrences needle buf pos = (pos + j) # occurrences needle buf (pos + j + 1)"
      using f(1) by (simp add: occurrences_def add.commute)
    then show ?thesis using "1.IH" [OF Some n "1.prems"] n Some by (subst scan_buf.simps) simp
  qed
qed


text \<open>The last bytes that may begin an occurrence which the next chunk ends.\<close>

abbreviation tail_of :: "nat \<Rightarrow> 'a list \<Rightarrow> 'a list" where
  "tail_of k s \<equiv> drop (length s - k) s"

lemma occurrences_tail:
  assumes "needle \<noteq> []"
  shows "map (\<lambda>i. length s - length (tail_of k s) + i) (occurrences needle (tail_of k s @ d) 0) =
    filter (\<lambda>i. startswith (drop i (s @ d)) needle) [length s - k..<length (s @ d)]"
proof -
  let ?a = "length s - k"
  have a: "length s - length (tail_of k s) = ?a" by simp
  have d: "drop i (tail_of k s @ d) = drop (?a + i) (s @ d)" for i by (simp add: add.commute)
  have "[?a..<length (s @ d)] = map (\<lambda>i. ?a + i) [0..<length (tail_of k s @ d)]"
    using map_add_upt [of ?a "length (tail_of k s @ d)"] by (simp add: add.commute)
  then show ?thesis unfolding occurrences_def a d by (simp add: filter_map comp_def)
qed

lemma occurrences_done:
  assumes "needle \<noteq> []" "length needle - 1 = k"
  shows "filter (\<lambda>i. startswith (drop i (s @ d @ e)) needle) [length s - k..<length (s @ d) - k] =
    filter (\<lambda>i. startswith (drop i (s @ d)) needle) [length s - k..<length (s @ d)]"
proof -
  let ?n = "length (s @ d)"
  have l: "length needle = k + 1" using assms by (cases needle) auto
  have same: "startswith (drop i (s @ d @ e)) needle \<longleftrightarrow> startswith (drop i (s @ d)) needle" if "i < ?n - k" for i
  proof -
    have "drop i (s @ d @ e) = drop i (s @ d) @ e" using that by simp
    moreover have "length needle \<le> length (drop i (s @ d))" using that l by simp
    ultimately show ?thesis using startswith_short [of "drop i (s @ d)" e needle] startswith_mono by metis
  qed
  have none: "\<not> startswith (drop i (s @ d)) needle" if "?n - k \<le> i" "i < ?n" for i
    using startswith_length [of "drop i (s @ d)" needle] that l by fastforce
  have "[length s - k..<?n] = [length s - k..<?n - k] @ [?n - k..<?n]"
    by (rule upt_split) auto
  moreover have "filter (\<lambda>i. startswith (drop i (s @ d)) needle) [?n - k..<?n] = []"
    using none by (auto simp: filter_empty_conv)
  moreover have "filter (\<lambda>i. startswith (drop i (s @ d @ e)) needle) [length s - k..<?n - k] =
      filter (\<lambda>i. startswith (drop i (s @ d)) needle) [length s - k..<?n - k]"
    by (rule filter_cong [OF refl], rule same) simp
  ultimately show ?thesis by (simp only: filter_append append_Nil2)
qed

lemma tail_of_tail: "tail_of k (tail_of k s @ d) = tail_of k (s @ d)"
  by (cases "k \<le> length s") (simp_all add: add.commute)

lemma find_chunks_exact:
  assumes "needle \<noteq> []" "k = length needle - 1"
  shows "find_chunks needle (tail_of k s) (int (length s)) cs =
    map int (filter (\<lambda>i. startswith (drop i (s @ concat cs)) needle) [length s - k..<length (s @ concat cs)])"
  using assms
proof (induction cs arbitrary: s)
  case Nil
  have "\<not> startswith (drop i s) needle" if "length s - k \<le> i" "i < length s" for i
    using startswith_length [of "drop i s" needle] that Nil by fastforce
  then show ?case by (auto simp: filter_empty_conv)
next
  case (Cons d cs)
  let ?P = "\<lambda>i. startswith (drop i (s @ d @ concat cs)) needle"
  have carry: "(if length needle > 1 then tail_of k (tail_of k s @ d) else []) = tail_of k (s @ d)"
    using Cons.prems by (cases "length needle > 1") (simp_all only: tail_of_tail if_True if_False, simp)
  have "find_chunks needle (tail_of k s) (int (length s)) (d # cs) =
      map (\<lambda>i. int (length s) - int (length (tail_of k s)) + int i) (occurrences needle (tail_of k s @ d) 0) @
      find_chunks needle (tail_of k (s @ d)) (int (length s) + int (length d)) cs"
    by (simp only: find_chunks.simps Let_def Cons.prems(2) [symmetric] carry scan_buf_exact [OF Cons.prems(1)])
  also have "map (\<lambda>i. int (length s) - int (length (tail_of k s)) + int i) (occurrences needle (tail_of k s @ d) 0) =
      map int (map (\<lambda>i. length s - length (tail_of k s) + i) (occurrences needle (tail_of k s @ d) 0))"
    by (simp add: of_nat_diff)
  also have "\<dots> = map int (filter ?P [length s - k..<length (s @ d) - k])"
    using occurrences_tail [of needle s k d] occurrences_done [of needle k s d "concat cs"] Cons.prems by simp
  also have "find_chunks needle (tail_of k (s @ d)) (int (length s) + int (length d)) cs =
      map int (filter ?P [length (s @ d) - k..<length (s @ d @ concat cs)])"
    using Cons.IH [of "s @ d"] Cons.prems by simp
  finally show ?case
    using upt_split [of "length s - k" "length (s @ d) - k" "length (s @ d @ concat cs)"] by simp
qed

lemma concat_read_chunks: "0 < k \<Longrightarrow> concat (read_chunks k data) = data"
proof (induction k data rule: read_chunks.induct)
  case (1 k data)
  then show ?case by (cases "data = []") (subst read_chunks.simps, simp)+
qed

text \<open>C10: The scan of a dump reports exactly the offsets at which the signature stands, each once and in
  order, also where it crosses the border of two chunks.\<close>

theorem find_all_exact:
  assumes "needle \<noteq> []"
  shows "find_all data needle = map int (occurrences needle data 0)"
proof -
  have "0 < CHUNK" by (simp add: CHUNK_def)
  with find_chunks_exact [OF assms refl, of "[]" "read_chunks CHUNK data"] show ?thesis
    by (simp add: find_all_def concat_read_chunks occurrences_def)
qed


section \<open>mkcpio: an archive\<close>

fun digits16 :: "nat \<Rightarrow> nat list" where
  "digits16 n = (if n < 16 then [n] else digits16 (n div 16) @ [n mod 16])"

declare digits16.simps [simp del]

definition hex_byte :: "nat \<Rightarrow> 8 word" where
  "hex_byte d = (if d < 10 then of_nat (48 + d) else of_nat (87 + d))"

definition hex08 :: "nat \<Rightarrow> octets" where
  "hex08 v = (let ds = digits16 v in replicate (8 - length ds) 48 @ map hex_byte ds)"

definition pad4 :: "nat \<Rightarrow> nat" where
  "pad4 n = (4 - n mod 4) mod 4"

definition cpio_header :: "nat list \<Rightarrow> octets" where
  "cpio_header vs = ascii ''070701'' @ concat (map hex08 vs)"

definition cpio_entry :: "nat \<Rightarrow> octets \<Rightarrow> octets \<Rightarrow> octets" where
  "cpio_entry ino arcname data =
     (let name = arcname @ [0] in
      cpio_header [ino, 33188, 0, 0, 1, 0, length data, 0, 0, 0, 0, length name, 0] @ name @
      replicate (pad4 (110 + length name)) 0 @ data @ replicate (pad4 (length data)) 0)"

definition TRAILER :: octets where
  "TRAILER = ascii ''TRAILER!!!'' @ [0]"

definition cpio_trailer :: "nat \<Rightarrow> octets" where
  "cpio_trailer ino =
     cpio_header [ino, 0, 0, 0, 1, 0, 0, 0, 0, 0, 0, length TRAILER, 0] @ TRAILER @
     replicate (pad4 (110 + length TRAILER)) 0"

fun cpio_entries :: "nat \<Rightarrow> (octets \<times> octets) list \<Rightarrow> octets" where
  "cpio_entries ino [] = cpio_trailer ino"
| "cpio_entries ino ((arcname, data) # fs) = cpio_entry ino arcname data @ cpio_entries (ino + 1) fs"

definition cpio_archive :: "(octets \<times> octets) list \<Rightarrow> octets" where
  "cpio_archive fs =
     (let body = cpio_entries 1 fs in body @ replicate ((512 - length body mod 512) mod 512) 0)"

text \<open>The command line: \<open>arcname=path\<close>; a specification without \<open>=\<close> raises, as does a file that cannot
  be read.\<close>

definition mkcpio :: "(string \<Rightarrow> octets option) \<Rightarrow> string list \<Rightarrow> octets option" where
  "mkcpio read specs =
     map_option cpio_archive (those (map (\<lambda>spec.
       case split1 ''='' spec of
         [arcname, path] \<Rightarrow> map_option (Pair (ascii arcname)) (read path)
       | _ \<Rightarrow> None) specs))"

















lemma pad4_aligned: "(n + pad4 n) mod 4 = 0"
proof -
  have "(n + pad4 n) mod 4 = (n mod 4 + pad4 n) mod 4" by (simp add: mod_add_left_eq)
  moreover have "n mod 4 = 0 \<or> n mod 4 = 1 \<or> n mod 4 = 2 \<or> n mod 4 = 3" by linarith
  ultimately show ?thesis by (auto simp: pad4_def)
qed







section \<open>ppm2png: a screenshot\<close>

definition readline :: "octets \<Rightarrow> octets \<times> octets" where
  "readline bs =
     (let l = takeWhile (\<lambda>b. b \<noteq> 10) bs in
      case drop (length l) bs of [] \<Rightarrow> (l, []) | x # r \<Rightarrow> (l @ [x], r))"

lemma readline_append: "readline bs = (l, r) \<Longrightarrow> bs = l @ r"
proof -
  assume a: "readline bs = (l, r)"
  have "bs = takeWhile (\<lambda>b. b \<noteq> 10) bs @ drop (length (takeWhile (\<lambda>b. b \<noteq> 10) bs)) bs"
    by (metis append_eq_conv_conj takeWhile_eq_take append_take_drop_id)
  with a show ?thesis by (auto simp: readline_def Let_def split: list.splits)
qed

function skip_comments :: "octets \<Rightarrow> octets \<times> octets" where
  "skip_comments bs =
     (case readline bs of (line, rest) \<Rightarrow>
        if startswith line (ascii ''#'') then skip_comments rest else (line, rest))"
  by pat_completeness auto
termination
  by (relation "measure length") (auto dest!: readline_append [OF sym] simp: startswith_iff ascii_def)

declare skip_comments.simps [simp del]

definition byte_strip :: "octets \<Rightarrow> string" where
  "byte_strip bs = strip_by byte_space (chars bs)"

definition ppm_size :: "octets \<Rightarrow> (int \<times> int) option" where
  "ppm_size line =
     (case map byte_int (split_ws byte_space (chars line)) of
        [Some w, Some h] \<Rightarrow> Some (w, h)
      | _ \<Rightarrow> None)"

definition ppm_read :: "octets \<Rightarrow> (int \<times> int \<times> octets) option" where
  "ppm_read bs =
     (case readline bs of (magic, r0) \<Rightarrow>
      if byte_strip magic \<noteq> ''P6'' then None
      else case skip_comments r0 of (line, r1) \<Rightarrow>
        (case ppm_size line of
           None \<Rightarrow> None
         | Some (w, h) \<Rightarrow>
             (case readline r1 of (maxval, r2) \<Rightarrow>
                if byte_int (byte_strip maxval) \<noteq> Some 255 then None
                else
                  let n = w * h * 3; px = (if n < 0 then r2 else take (nat n) r2)
                  in if int (length px) \<noteq> n then None else Some (w, h, px))))"

definition pack_u32 :: "int \<Rightarrow> octets option" where
  "pack_u32 n = (if 0 \<le> n \<and> n < 2 ^ 32 then Some (to_bytes_big 4 (nat n)) else None)"

definition png_raw :: "nat \<Rightarrow> nat \<Rightarrow> octets \<Rightarrow> octets" where
  "png_raw w h px = concat (map (\<lambda>y. 0 # slice (y * w * 3) ((y + 1) * w * 3) px) [0..<h])"

definition png_chunk :: "(octets \<Rightarrow> nat) \<Rightarrow> octets \<Rightarrow> octets \<Rightarrow> octets option" where
  "png_chunk crc32 typ data =
     map_option (\<lambda>n. n @ typ @ data @ to_bytes_big 4 (crc32 (typ @ data) mod 2 ^ 32)) (pack_u32 (int (length data)))"

definition PNG_SIGNATURE :: octets where
  "PNG_SIGNATURE = [0x89, 0x50, 0x4E, 0x47, 13, 10, 0x1A, 10]"

definition png_write :: "(octets \<Rightarrow> octets) \<Rightarrow> (octets \<Rightarrow> nat) \<Rightarrow> int \<Rightarrow> int \<Rightarrow> octets \<Rightarrow> octets option" where
  "png_write compress crc32 w h px =
     (case (pack_u32 w, pack_u32 h) of
        (Some wb, Some hb) \<Rightarrow>
          (case (png_chunk crc32 (ascii ''IHDR'') (wb @ hb @ [8, 2, 0, 0, 0]),
                 png_chunk crc32 (ascii ''IDAT'') (compress (png_raw (nat w) (nat h) px)),
                 png_chunk crc32 (ascii ''IEND'') []) of
             (Some a, Some b, Some c) \<Rightarrow> Some (PNG_SIGNATURE @ a @ b @ c)
           | _ \<Rightarrow> None)
      | _ \<Rightarrow> None)"

definition ppm2png :: "(octets \<Rightarrow> octets) \<Rightarrow> (octets \<Rightarrow> nat) \<Rightarrow> octets \<Rightarrow> octets option" where
  "ppm2png compress crc32 bs =
     (case ppm_read bs of None \<Rightarrow> None | Some (w, h, px) \<Rightarrow> png_write compress crc32 w h px)"

text \<open>A reader of such images: the chunks with their checksums, the header for eight-bit colour, and the
  scan lines with their filter byte.\<close>

definition png_next :: "(octets \<Rightarrow> nat) \<Rightarrow> octets \<Rightarrow> (octets \<times> octets \<times> octets) option" where
  "png_next crc32 buf =
     (let n = from_bytes_big (take 4 buf); body = take (4 + n) (drop 4 buf) in
      if length buf < 12 + n \<or> take 4 (drop (8 + n) buf) \<noteq> to_bytes_big 4 (crc32 body mod 2 ^ 32) then None
      else Some (take 4 body, drop 4 body, drop (12 + n) buf))"

fun scan_lines :: "nat \<Rightarrow> nat \<Rightarrow> octets \<Rightarrow> (octets list) option" where
  "scan_lines w h raw =
     (if h = 0 then (if raw = [] then Some [] else None)
      else if length raw < 1 + 3 * w \<or> hd raw \<noteq> 0 then None
      else map_option ((#) (take (3 * w) (tl raw))) (scan_lines w (h - 1) (drop (1 + 3 * w) raw)))"

declare scan_lines.simps [simp del]

definition png_read :: "(octets \<Rightarrow> octets) \<Rightarrow> (octets \<Rightarrow> nat) \<Rightarrow> octets \<Rightarrow> (nat \<times> nat \<times> octets list) option" where
  "png_read decompress crc32 png =
     (if take 8 png \<noteq> PNG_SIGNATURE then None
      else case png_next crc32 (drop 8 png) of
        Some (t1, hdr, r1) \<Rightarrow>
          (case png_next crc32 r1 of
             Some (t2, idat, r2) \<Rightarrow>
               (case png_next crc32 r2 of
                  Some (t3, d3, []) \<Rightarrow>
                    if t1 = ascii ''IHDR'' \<and> length hdr = 13 \<and> drop 8 hdr = [8, 2, 0, 0, 0] \<and> t2 = ascii ''IDAT'' \<and>
                       t3 = ascii ''IEND'' \<and> d3 = []
                    then let w = from_bytes_big (take 4 hdr); h = from_bytes_big (take 4 (drop 4 hdr))
                      in map_option (\<lambda>ls. (w, h, ls)) (scan_lines w h (decompress idat))
                    else None
                | _ \<Rightarrow> None)
           | None \<Rightarrow> None)
      | None \<Rightarrow> None)"

lemma pack_u32_read: "pack_u32 n = Some bs \<longleftrightarrow> 0 \<le> n \<and> n < 2 ^ 32 \<and> bs = to_bytes_big 4 (nat n)"
  by (auto simp: pack_u32_def)

lemma png_next_chunk:
  assumes "length data < 2 ^ 32" "length typ = 4"
  shows "\<exists>c. png_chunk crc32 typ data = Some c \<and> png_next crc32 (c @ r) = Some (typ, data, r)"
proof -
  have "int (length data) < 2 ^ 32" using assms(1) by (metis of_nat_less_iff of_nat_numeral of_nat_power)
  then have p: "pack_u32 (int (length data)) = Some (to_bytes_big 4 (length data))" by (simp add: pack_u32_def)
  have f: "from_bytes_big (to_bytes_big 4 (length data)) = length data"
    using assms(1) by (simp add: from_to_bytes_big)
  show ?thesis using assms(2) by (simp add: png_chunk_def p png_next_def Let_def f)
qed

lemma scan_lines_rows:
  assumes "length px = w * h * 3"
  shows "scan_lines w h (png_raw w h px) = Some (map (\<lambda>y. slice (y * w * 3) ((y + 1) * w * 3) px) [0..<h])"
proof -
  have "k \<le> h \<Longrightarrow> scan_lines w k (concat (map (\<lambda>y. 0 # slice (y * w * 3) ((y + 1) * w * 3) px) [h - k..<h])) =
      Some (map (\<lambda>y. slice (y * w * 3) ((y + 1) * w * 3) px) [h - k..<h])" for k
  proof (induction k)
    case 0
    then show ?case by (subst scan_lines.simps) simp
  next
    case (Suc k)
    let ?row = "\<lambda>y. slice (y * w * 3) ((y + 1) * w * 3) px"
    have u: "[h - Suc k..<h] = (h - Suc k) # [h - k..<h]" using Suc.prems by (simp add: upt_conv_Cons Suc_diff_Suc)
    have "(h - Suc k + 1) * w * 3 \<le> length px"
      using Suc.prems mult_le_mono1 [of "h - Suc k + 1" h "w * 3"] assms by (simp add: ac_simps)
    then have "length (?row (h - Suc k)) = 3 * w"
      by (subst length_slice) (simp_all add: algebra_simps)
    then show ?case using Suc unfolding u by (subst scan_lines.simps) simp
  qed
  from this [of h] show ?thesis by (simp add: png_raw_def)
qed

lemma rows_join:
  assumes "length px = w * h * 3"
  shows "concat (map (\<lambda>y. slice (y * w * 3) ((y + 1) * w * 3) px) [0..<h]) = px"
proof -
  have "k \<le> h \<Longrightarrow> concat (map (\<lambda>y. slice (y * w * 3) ((y + 1) * w * 3) px) [0..<k]) = take (k * w * 3) px" for k
  proof (induction k)
    case (Suc k)
    have "take (Suc k * w * 3) px = take (k * w * 3) px @ slice (k * w * 3) ((k + 1) * w * 3) px"
      by (simp add: slice_def algebra_simps take_add [symmetric])
    then show ?case using Suc by simp
  qed simp
  from this [of h] assms show ?thesis by (simp add: ac_simps)
qed

text \<open>A screenshot that is read as \<open>w\<close> by \<open>h\<close> pixels is written as an image which a reader accepts,
  checksums included, and decodes to the same size and the same pixels, row by row.\<close>

theorem png_roundtrip:
  assumes "ppm_read bs = Some (int w, int h, px)" "w < 2 ^ 32" "h < 2 ^ 32"
    and "\<And>x. decompress (compress x) = x" "length (compress (png_raw w h px)) < 2 ^ 32"
  shows "\<exists>png rows. ppm2png compress crc32 bs = Some png \<and> png_read decompress crc32 png = Some (w, h, rows) \<and>
    concat rows = px \<and> length rows = h"
proof -
  have "int (length px) = int w * int h * 3"
    using assms(1) by (auto simp: ppm_read_def Let_def split: prod.splits if_splits option.splits)
  then have px: "length px = w * h * 3" by (metis of_nat_eq_iff of_nat_mult of_nat_numeral)
  have wh: "pack_u32 (int w) = Some (to_bytes_big 4 w)" "pack_u32 (int h) = Some (to_bytes_big 4 h)"
    using assms(2,3) by (simp_all add: pack_u32_def)
  let ?hdr = "to_bytes_big 4 w @ to_bytes_big 4 h @ [8, 2, 0, 0, 0]"
  obtain c where c: "png_chunk crc32 (ascii ''IEND'') [] = Some c" "png_next crc32 c = Some (ascii ''IEND'', [], [])"
    using png_next_chunk [of "[]" "ascii ''IEND''" crc32 "[]"] by auto
  obtain b where b: "png_chunk crc32 (ascii ''IDAT'') (compress (png_raw w h px)) = Some b"
    "png_next crc32 (b @ c) = Some (ascii ''IDAT'', compress (png_raw w h px), c)"
    using png_next_chunk [OF assms(5), of "ascii ''IDAT''" crc32 c] by auto
  obtain a where a: "png_chunk crc32 (ascii ''IHDR'') ?hdr = Some a"
    "png_next crc32 (a @ b @ c) = Some (ascii ''IHDR'', ?hdr, b @ c)"
    using png_next_chunk [of ?hdr "ascii ''IHDR''" crc32 "b @ c"] by auto
  have "ppm2png compress crc32 bs = Some (PNG_SIGNATURE @ a @ b @ c)"
    using assms(1) a(1) b(1) c(1) wh by (simp add: ppm2png_def png_write_def)
  moreover have "png_read decompress crc32 (PNG_SIGNATURE @ a @ b @ c) =
      Some (w, h, map (\<lambda>y. slice (y * w * 3) ((y + 1) * w * 3) px) [0..<h])"
    using a(2) b(2) c(2) assms(2-4) scan_lines_rows [OF px]
    by (simp add: png_read_def PNG_SIGNATURE_def Let_def from_to_bytes_big)
  ultimately show ?thesis using rows_join [OF px] by auto
qed


section \<open>hmp: the monitor\<close>

definition ESC :: char where
  "ESC = CHR 0x1B"

definition ANSI :: "char re" where
  "ANSI = alts
     [seqs [lit [ESC, CHR ''[''], Star (Chr (\<lambda>c. is_digit c \<or> c \<in> {CHR '';'', CHR ''?''})), Chr (\<lambda>c. is_upper c \<or> is_lower c)],
      seqs [lit [ESC], one_of ''()'', Chr (\<lambda>c. is_digit c \<or> is_upper c)],
      lit [CHR 0x00]]"

text \<open>Reading up to the prompt; \<open>None\<close> is a \<open>recv\<close> that raises, which ends the tool.\<close>

fun read_prompt :: "string \<Rightarrow> string option list \<Rightarrow> (string \<times> string option list) option" where
  "read_prompt buf [] = (if endswith buf ''(qemu) '' then Some (buf, []) else None)"
| "read_prompt buf (c # cs) =
     (if endswith buf ''(qemu) '' then Some (buf, c # cs)
      else case c of
        None \<Rightarrow> None
      | Some chunk \<Rightarrow> if chunk = [] then Some (buf, cs) else read_prompt (buf @ chunk) cs)"

definition blank_or_prompt :: "string \<Rightarrow> bool" where
  "blank_or_prompt line = (strip_by byte_space line \<in> {[], ''(qemu)''})"

definition hmp_lines :: "string \<Rightarrow> string \<Rightarrow> string list" where
  "hmp_lines cmd buf =
     (let lines = split_sub [CHR 0x0D, CHR 0x0A] (concat (re_split ANSI buf));
          lines1 = (if lines \<noteq> [] \<and> strip_by byte_space (hd lines) = cmd then tl lines else lines)
      in rev (dropWhile blank_or_prompt (rev lines1)))"

definition hmp :: "string \<Rightarrow> string option list \<Rightarrow> string option" where
  "hmp cmd cs =
     (case read_prompt [] cs of
        None \<Rightarrow> None
      | Some (_, cs1) \<Rightarrow>
          map_option (\<lambda>(buf, _). decode_replace (join [CHR 0x0D, CHR 0x0A] (hmp_lines cmd buf)) @ [CHR 0x0A])
            (read_prompt [] cs1))"

lemma rm_Seq_stuck: "rm a p s = [] \<Longrightarrow> rm (Seq a b) p s = []"
  by (simp add: rm.simps(3))

lemma ansi_stuck: "c \<noteq> ESC \<Longrightarrow> c \<noteq> CHR 0x00 \<Longrightarrow> rm ANSI p (c # s) = []"
  by (simp add: ANSI_def rm_Seq_stuck)

lemma no_escapes: "\<forall>c \<in> set s. c \<noteq> ESC \<and> c \<noteq> CHR 0x00 \<Longrightarrow> re_finditer_from ANSI i 0 p s = []"
proof (induction s arbitrary: i p)
  case Nil
  have "rm ANSI p [] = []" by (simp add: ANSI_def rm_Seq_stuck)
  then show ?case by simp
qed (simp add: ansi_stuck)

lemma find_sub_at: "c \<notin> set x \<Longrightarrow> find_sub (x @ (c # t) @ y) (c # t) = Some (length x)"
  by (induction x) (auto simp: startswith_def)

lemma split_sub_join_sep:
  assumes "\<forall>w \<in> set ws. c \<notin> set w" "ws \<noteq> []"
  shows "split_sub (c # t) (join (c # t) ws) = ws"
  using assms
proof (induction ws)
  case (Cons w ws)
  have nc: "\<not> contains_sub w (c # t)" using Cons.prems by (auto simp: contains_sub_iff)
  show ?case
  proof (cases ws)
    case Nil
    then show ?thesis using nc by (subst split_sub.simps) (simp add: contains_sub_def)
  next
    case (Cons v vs)
    have "split_sub (c # t) (w @ (c # t) @ join (c # t) ws) = w # split_sub (c # t) (join (c # t) ws)"
      using nc Cons.prems find_sub_at [of c w t] by (intro split_sub_terminated) auto
    with Cons.IH Cons.prems show ?thesis by (simp add: Cons join_Cons)
  qed
qed simp

text \<open>A reply without escape sequences: the echoed command and the prompt are cut off, the lines between
  are kept as they are.\<close>

theorem hmp_reply:
  assumes "\<forall>l \<in> set (cmd # body). CHR 0x0D \<notin> set l \<and> CHR 0x0A \<notin> set l \<and> ESC \<notin> set l \<and> CHR 0x00 \<notin> set l"
    and "strip_by byte_space cmd = cmd" "body \<noteq> []" "\<not> blank_or_prompt (last body)"
  shows "hmp_lines cmd (join [CHR 0x0D, CHR 0x0A] (cmd # body @ [''(qemu) ''])) = body"
proof -
  let ?ls = "cmd # body @ [''(qemu) '']"
  have p: "\<forall>l \<in> set ?ls. CHR 0x0D \<notin> set l \<and> ESC \<notin> set l \<and> CHR 0x00 \<notin> set l"
    using assms(1) by (auto simp: ESC_def)
  have "c \<noteq> ESC \<and> c \<noteq> CHR 0x00" if "c \<in> set (join [CHR 0x0D, CHR 0x0A] ls)"
    "\<forall>l \<in> set ls. ESC \<notin> set l \<and> CHR 0x00 \<notin> set l" for c ls
    using that by (induction "[CHR 0x0D, CHR 0x0A]" ls rule: join.induct) (auto simp: ESC_def)
  then have "re_finditer ANSI (join [CHR 0x0D, CHR 0x0A] ?ls) = []"
    unfolding re_finditer_def using p by (intro no_escapes) blast
  then have "concat (re_split ANSI (join [CHR 0x0D, CHR 0x0A] ?ls)) = join [CHR 0x0D, CHR 0x0A] ?ls"
    by (simp add: re_split_def)
  moreover have "split_sub [CHR 0x0D, CHR 0x0A] (join [CHR 0x0D, CHR 0x0A] ?ls) = ?ls"
    using p by (intro split_sub_join_sep) auto
  moreover have "blank_or_prompt ''(qemu) ''" by code_simp
  ultimately show ?thesis
    using assms(2-4) by (cases body rule: rev_cases) (simp_all add: hmp_lines_def)
qed

section \<open>Examples\<close>

theorem find_all_exact_witness:
  "find_all (ascii ''xMSWIMMSWIM'') (ascii ''MSWIM'') = [1, 6]"
proof -
  have "occurrences (ascii ''MSWIM'') (ascii ''xMSWIMMSWIM'') 0 = [1, 6]" by code_simp
  then show ?thesis using find_all_exact [of "ascii ''MSWIM''" "ascii ''xMSWIMMSWIM''"] by (simp add: ascii_def)
qed


definition demo_ppm :: octets where
  "demo_ppm = ascii ''P6'' @ [10] @ ascii ''# screen'' @ [10] @ ascii ''1 2'' @ [10] @ ascii ''255'' @ [10] @ [1, 2, 3, 4, 5, 6]"

theorem png_roundtrip_witness:
  "\<exists>png rows. ppm2png id length demo_ppm = Some png \<and> png_read id length png = Some (1, 2, rows) \<and>
     concat rows = [1, 2, 3, 4, 5, 6] \<and> length rows = 2"
proof -
  have "ppm_read demo_ppm = Some (int 1, int 2, [1, 2, 3, 4, 5, 6])" by code_simp
  moreover have "length (id (png_raw 1 2 [1, 2, 3, 4, 5, 6])) < 2 ^ 32" by code_simp
  ultimately show ?thesis using png_roundtrip [of demo_ppm 1 2 "[1, 2, 3, 4, 5, 6]" id id length] by simp
qed

theorem hmp_reply_witness:
  "hmp_lines ''info'' (join [CHR 0x0D, CHR 0x0A] [''info'', ''VM status: running'', ''(qemu) '']) = [''VM status: running'']"
proof -
  have "strip_by byte_space ''info'' = ''info''" "\<not> blank_or_prompt ''VM status: running''" by code_simp+
  then show ?thesis using hmp_reply [of "''info''" "[''VM status: running'']"] by (simp add: ESC_def)
qed

end
