(* ===== verification/Cloak_Audit.thy ===== *)
theory Cloak_Audit
  imports Octets
begin

text \<open>
  The oracle of the cloak audit, \<open>src/tools/cloak_audit_smoke.py\<close>: the independent reader of access
  checkpoints, the judgement of each child process's report, and the comparison of a rewritten
  checkpoint with its source. Offsets are kept as the code keeps them: a slice may come out short,
  an \<open>unpack_from\<close> past the end raises.
\<close>

datatype ca_error = StructError | Failure string

definition require_ca :: "bool \<Rightarrow> string \<Rightarrow> ca_error + unit" where
  "require_ca ok reason = require_res ok (Failure reason)"

section \<open>Little-endian fields\<close>

fun ints_little :: "nat list \<Rightarrow> octets \<Rightarrow> nat list" where
  "ints_little [] bs = []"
| "ints_little (w # ws) bs = from_bytes_little (take w bs) # ints_little ws (drop w bs)"

text \<open>\<open>struct.unpack_from\<close> for the unsigned codes of the given widths.\<close>

definition unpack_from :: "nat list \<Rightarrow> octets \<Rightarrow> nat \<Rightarrow> ca_error + nat list" where
  "unpack_from ws data pos =
     (if pos + sum_list ws \<le> length data then Inr (ints_little ws (drop pos data)) else Inl StructError)"

section \<open>Access checkpoints\<close>

record access_header =
  ah_magic :: octets
  ah_version :: nat
  ah_body :: nat
  ah_rows :: nat
  ah_tombstones :: nat
  ah_params :: "nat list"

record access_row =
  ar_channel :: octets
  ar_mask :: octets
  ar_issuer :: octets
  ar_level :: nat
  ar_duration :: "nat option"
  ar_expiry :: "nat option"
  ar_hlc :: nat
  ar_origin :: nat

type_synonym tombstone = "octets \<times> octets \<times> nat \<times> nat list"

text \<open>The format \<open><4sB3xIHHHHQQQQ\<close>; the three bytes of padding are skipped.\<close>

definition access_head :: "octets \<Rightarrow> ca_error + access_header" where
  "access_head data =
     (if length data < 52 then Inl StructError
      else
        let vs = ints_little [4, 2, 2, 2, 2, 8, 8, 8, 8] (drop 8 data)
        in Inr \<lparr>ah_magic = take 4 data, ah_version = from_bytes_little (slice 4 5 data),
             ah_body = vs ! 0, ah_rows = vs ! 1, ah_tombstones = vs ! 2, ah_params = drop 3 vs\<rparr>)"

definition nullable :: "octets \<Rightarrow> nat \<Rightarrow> nat \<Rightarrow> ca_error + (nat option \<times> nat)" where
  "nullable data pos present =
     bind_res (require_ca (present \<in> {0, 1}) ''access_nullable_tag'') (\<lambda>_.
     if present = 0 then Inr (None, pos)
     else bind_res (unpack_from [8] data pos) (\<lambda>vs. Inr (Some (hd vs), pos + 8)))"

definition read_row :: "octets \<Rightarrow> nat \<Rightarrow> ca_error + (access_row \<times> nat)" where
  "read_row data pos0 =
     bind_res (unpack_from [1, 1, 1, 1, 1, 1] data pos0) (\<lambda>vs.
     let c = vs ! 0; m = vs ! 1; s = vs ! 2;
         pos = pos0 + 6;
         channel = slice pos (pos + c) data;
         mk = slice (pos + c) (pos + c + m) data;
         issuer = slice (pos + c + m) (pos + c + m + s) data
     in bind_res (nullable data (pos + c + m + s) (vs ! 4)) (\<lambda>(duration, pos1).
        bind_res (nullable data pos1 (vs ! 5)) (\<lambda>(expiry, pos2).
        bind_res (unpack_from [8, 8] data pos2) (\<lambda>ws.
        Inr (\<lparr>ar_channel = channel, ar_mask = mk, ar_issuer = issuer, ar_level = vs ! 3,
               ar_duration = duration, ar_expiry = expiry, ar_hlc = ws ! 0, ar_origin = ws ! 1\<rparr>,
             pos2 + 16)))))"

definition read_tombstone :: "octets \<Rightarrow> nat \<Rightarrow> ca_error + (tombstone \<times> nat)" where
  "read_tombstone data pos0 =
     bind_res (unpack_from [1, 1, 1] data pos0) (\<lambda>vs.
     let c = vs ! 0; m = vs ! 1; pos = pos0 + 3
     in bind_res (unpack_from [8, 8, 8] data (pos + c + m)) (\<lambda>clocks.
        Inr ((slice pos (pos + c) data, slice (pos + c) (pos + c + m) data, vs ! 2, clocks), pos + c + m + 24)))"

text \<open>\<open>for _ in range(n)\<close> around one of the two readers.\<close>

fun read_many :: "(nat \<Rightarrow> ca_error + ('a \<times> nat)) \<Rightarrow> nat \<Rightarrow> nat \<Rightarrow> ca_error + ('a list \<times> nat)" where
  "read_many rd 0 pos = Inr ([], pos)"
| "read_many rd (Suc n) pos =
     bind_res (rd pos) (\<lambda>(x, pos1). bind_res (read_many rd n pos1) (\<lambda>(xs, pos2). Inr (x # xs, pos2)))"

definition access_rows :: "octets \<Rightarrow> ca_error + (access_header \<times> access_row list \<times> tombstone list)" where
  "access_rows data =
     bind_res (access_head data) (\<lambda>h.
     bind_res (require_ca (ah_magic h = ascii ''ACCS'' \<and> ah_version h = 1) ''access_header'') (\<lambda>_.
     bind_res (require_ca (length data = 52 + ah_body h + 32) ''access_length'') (\<lambda>_.
     bind_res (read_many (read_row data) (ah_rows h) 52) (\<lambda>(rows, pos).
     bind_res (read_many (read_tombstone data) (ah_tombstones h) pos) (\<lambda>(tombs, pos').
     bind_res (require_ca (int pos' = int (length data) - 32) ''access_consumption'') (\<lambda>_.
     Inr (h, rows, tombs)))))))"

section \<open>The comparison of a candidate with its source\<close>

type_synonym checkpoint = "access_header \<times> access_row list \<times> tombstone list"

definition user_part :: "octets \<Rightarrow> octets" where
  "user_part mk = takeWhile (\<lambda>b. b \<noteq> 64) mk"

fun check_pairs :: "nat \<Rightarrow> (access_row \<times> access_row) list \<Rightarrow> ca_error + unit" where
  "check_pairs i [] = Inr ()"
| "check_pairs i ((old, new) # ps) =
     bind_res (require_ca (old\<lparr>ar_mask := []\<rparr> = new\<lparr>ar_mask := []\<rparr>) ''issuer_expiry_clock_order_changed'') (\<lambda>_.
     bind_res
       (if i < 5
        then require_ca (ar_mask old \<noteq> ar_mask new \<and> user_part (ar_mask old) = user_part (ar_mask new)) ''verified_scope''
        else require_ca (old = new) ''unverified_rule_changed'') (\<lambda>_.
     check_pairs (i + 1) ps))"

definition check_candidate :: "checkpoint \<Rightarrow> checkpoint \<Rightarrow> ca_error + unit" where
  "check_candidate = (\<lambda>(head_before, before, tomb_before) (head_after, after, tomb_after).
     bind_res (require_ca (head_before\<lparr>ah_body := 0\<rparr> = head_after\<lparr>ah_body := 0\<rparr> \<and> tomb_before = tomb_after \<and>
       length tomb_before = 1) ''metadata_header_tombstones'') (\<lambda>_.
     bind_res (require_ca (int (ah_body head_after) - int (ah_body head_before) =
       sum_list (map (\<lambda>(old, new). int (length (ar_mask new)) - int (length (ar_mask old))) (zip before after)))
       ''body_length_mask_delta'') (\<lambda>_.
     bind_res (require_ca (length before = length after \<and> length after = 12 \<and>
       take 3 (ah_params head_before) = [31, 19, 271] \<and> take 2 (drop 3 (ah_params head_before)) = [100, 9])
       ''nonvacuous_source_parameters'') (\<lambda>_.
     bind_res (require_ca (card (set (map ar_hlc before)) = 12 \<and> (\<forall>r \<in> set before. ar_origin r = 9))
       ''nonvacuous_clocks'') (\<lambda>_.
     bind_res (require_ca (set (map ar_duration before) = {None, Some 0, Some 30} \<and>
       set (map ar_expiry before) = {None, Some 130} \<and> card (set (map ar_channel before)) = 2)
       ''nonvacuous_expiry_order'') (\<lambda>_.
     check_pairs 0 (zip before after)))))))"

section \<open>Child processes and their reports\<close>

definition CAPTURE_LIMIT :: nat where
  "CAPTURE_LIMIT = 2 * 2 ^ 20"

definition REFUSAL :: string where
  "REFUSAL = ''cloak-audit: audit refused'' @ [CHR 0x0A]"

definition EXPECTED :: "string list" where
  "EXPECTED = replicate 5 ''verified_replacement'' @ [''derivation_mismatch'', ''missing_witness'',
     ''ambiguous_host_glob'', ''unsupported_formula'', ''invalid_witness'', ''already_current'', ''witness_mismatch'']"

definition report_line :: "nat \<times> string \<Rightarrow> string" where
  "report_line p = ''row='' @ show_nat (fst p) @ '' classification='' @ snd p @ [CHR 0x0A]"

definition summary :: "string list \<Rightarrow> string" where
  "summary kinds = concat (map report_line (zip [0..<length kinds] kinds))"

datatype child = ChildTimeout | ChildLaunchError | Exited int string string

text \<open>\<open>invoke\<close>: the secrets in force, the work directory, the default search path, whether the child is the
  fixture builder, the case's flags, the child's arguments, what it did and whether the source files
  are unchanged afterwards. The state is the number of cases that passed.\<close>

definition judge_report :: "bool \<Rightarrow> bool \<Rightarrow> int \<Rightarrow> string option \<Rightarrow> string \<Rightarrow> string \<Rightarrow> ca_error + unit" where
  "judge_report builder file_failure expected expected_out stdout stderr =
     (if builder then require_ca (stdout = [] \<and> stderr = []) ''fixture_builder_report''
      else if expected = 0 then require_ca (stderr = [] \<and> Some stdout = expected_out) ''success_report''
      else if expected = 1 then
        (if file_failure
         then require_ca ((stdout = [] \<or> Some stdout = expected_out) \<and> stderr \<in> {[], take 1 REFUSAL}) ''bounded_disk_refusal''
         else bind_res (require_ca (stderr = REFUSAL) ''fixed_redacted_refusal'') (\<lambda>_.
              require_ca (stdout \<in> {[], summary EXPECTED}) ''refusal_report''))
      else require_ca (stdout = [] \<and> startswith stderr ''usage: onyx-server cloak-audit '') ''grammar_refusal'')"

definition invoke :: "string list \<Rightarrow> string \<Rightarrow> string \<Rightarrow> bool \<Rightarrow> bool \<Rightarrow> string list \<Rightarrow> int \<Rightarrow> string option \<Rightarrow>
    child \<Rightarrow> bool \<Rightarrow> nat \<Rightarrow> ca_error + (nat \<times> string)" where
  "invoke tokens work defpath builder file_failure args expected expected_out child unchanged cases =
     bind_res (require_ca (\<forall>t \<in> set tokens. \<not> contains_sub (join [CHR 0x00] args) t) ''secret_in_argv'') (\<lambda>_.
     bind_res (require_ca (\<forall>t \<in> set tokens. \<not> contains_sub (join [CHR 0x00] [defpath, work, ''1'']) t) ''secret_in_env'') (\<lambda>_.
     case child of
       ChildTimeout \<Rightarrow> Inl (Failure ''child_timeout'')
     | ChildLaunchError \<Rightarrow> Inl (Failure ''child_launch_failed'')
     | Exited returncode stdout stderr \<Rightarrow>
         bind_res (require_ca (length stdout \<le> CAPTURE_LIMIT \<and> length stderr \<le> CAPTURE_LIMIT) ''capture_limit'') (\<lambda>_.
         bind_res (require_ca (\<forall>t \<in> set tokens. \<not> contains_sub (stdout @ stderr) t) ''secret_in_report'') (\<lambda>_.
         bind_res (require_ca (\<not> contains_sub (stdout @ stderr) ''PRIVATE_'' \<and> \<not> contains_sub (stdout @ stderr) work)
           ''private_path_in_report'') (\<lambda>_.
         bind_res (require_ca (returncode = expected) ''child_status'') (\<lambda>_.
         bind_res (judge_report builder file_failure expected expected_out stdout stderr) (\<lambda>_.
         bind_res (require_ca unchanged ''fixture_input_changed'') (\<lambda>_.
         Inr (cases + 1, stdout)))))))))"

text \<open>\<open>arguments\<close>, with the fixture directory as a prefix of the file names.\<close>

definition cloak_arguments :: "string \<Rightarrow> string \<Rightarrow> string \<Rightarrow> string option \<Rightarrow> string option \<Rightarrow> string list" where
  "cloak_arguments fixtures kind witness output input_name =
     [''cloak-audit'', ''--kind'', kind, ''--input'',
      fixtures @ ''/'' @ (case input_name of Some n \<Rightarrow> if n = [] then kind @ ''.input'' else n | None \<Rightarrow> kind @ ''.input''),
      ''--witness'', fixtures @ ''/'' @ witness] @
     (case output of None \<Rightarrow> [] | Some f \<Rightarrow> [''--checkpoint-output'', f])"

section \<open>The format\<close>

fun pack_little :: "nat list \<Rightarrow> nat list \<Rightarrow> octets" where
  "pack_little (w # ws) (v # vs) = to_bytes_little w v @ pack_little ws vs"
| "pack_little _ _ = []"

fun fields_fit :: "nat list \<Rightarrow> nat list \<Rightarrow> bool" where
  "fields_fit [] [] = True"
| "fields_fit (w # ws) (v # vs) = (v < 256 ^ w \<and> fields_fit ws vs)"
| "fields_fit _ _ = False"

definition tag_of :: "nat option \<Rightarrow> nat" where
  "tag_of v = (if v = None then 0 else 1)"

definition enc_opt :: "nat option \<Rightarrow> octets" where
  "enc_opt v = (case v of None \<Rightarrow> [] | Some n \<Rightarrow> to_bytes_little 8 n)"

definition enc_row :: "access_row \<Rightarrow> octets" where
  "enc_row r =
     pack_little [1, 1, 1, 1, 1, 1] [length (ar_channel r), length (ar_mask r), length (ar_issuer r), ar_level r,
       tag_of (ar_duration r), tag_of (ar_expiry r)] @
     ar_channel r @ ar_mask r @ ar_issuer r @ enc_opt (ar_duration r) @ enc_opt (ar_expiry r) @
     pack_little [8, 8] [ar_hlc r, ar_origin r]"

definition opt_ok :: "nat option \<Rightarrow> bool" where
  "opt_ok v = (case v of None \<Rightarrow> True | Some n \<Rightarrow> n < 256 ^ 8)"

definition row_ok :: "access_row \<Rightarrow> bool" where
  "row_ok r = (length (ar_channel r) < 256 \<and> length (ar_mask r) < 256 \<and> length (ar_issuer r) < 256 \<and>
     ar_level r < 256 \<and> opt_ok (ar_duration r) \<and> opt_ok (ar_expiry r) \<and> ar_hlc r < 256 ^ 8 \<and> ar_origin r < 256 ^ 8)"

definition enc_tombstone :: "tombstone \<Rightarrow> octets" where
  "enc_tombstone t =
     (case t of (channel, mk, level, clocks) \<Rightarrow>
        pack_little [1, 1, 1] [length channel, length mk, level] @ channel @ mk @ pack_little [8, 8, 8] clocks)"

definition tombstone_ok :: "tombstone \<Rightarrow> bool" where
  "tombstone_ok t =
     (case t of (channel, mk, level, clocks) \<Rightarrow>
        length channel < 256 \<and> length mk < 256 \<and> level < 256 \<and> fields_fit [8, 8, 8] clocks)"

definition head_values :: "access_header \<Rightarrow> nat list" where
  "head_values h = ah_body h # ah_rows h # ah_tombstones h # ah_params h"

definition enc_head :: "access_header \<Rightarrow> octets \<Rightarrow> octets" where
  "enc_head h padding =
     ah_magic h @ to_bytes_little 1 (ah_version h) @ padding @ pack_little [4, 2, 2, 2, 2, 8, 8, 8, 8] (head_values h)"

definition enc_body :: "access_row list \<Rightarrow> tombstone list \<Rightarrow> octets" where
  "enc_body rows tombs = concat (map enc_row rows) @ concat (map enc_tombstone tombs)"

text \<open>A checkpoint image: header with three bytes of padding, rows, tombstones, 32 bytes of checksum.\<close>

definition access_image :: "access_header \<Rightarrow> octets \<Rightarrow> access_row list \<Rightarrow> tombstone list \<Rightarrow> octets \<Rightarrow> octets" where
  "access_image h padding rows tombs checksum = enc_head h padding @ enc_body rows tombs @ checksum"

definition image_ok :: "access_header \<Rightarrow> octets \<Rightarrow> access_row list \<Rightarrow> tombstone list \<Rightarrow> octets \<Rightarrow> bool" where
  "image_ok h padding rows tombs checksum =
     (ah_magic h = ascii ''ACCS'' \<and> ah_version h = 1 \<and> length padding = 3 \<and> length checksum = 32 \<and>
      fields_fit [4, 2, 2, 2, 2, 8, 8, 8, 8] (head_values h) \<and> ah_rows h = length rows \<and> ah_tombstones h = length tombs \<and>
      ah_body h = length (enc_body rows tombs) \<and> (\<forall>r \<in> set rows. row_ok r) \<and> (\<forall>t \<in> set tombs. tombstone_ok t))"

section \<open>The reader and the format\<close>

lemma ca_bind_Inr: "bind_res r f = Inr y \<longleftrightarrow> (\<exists>x. r = Inr x \<and> f x = Inr y)"
  by (cases r) (simp_all add: bind_res_def)

lemma require_ca_Inr: "require_ca ok reason = Inr x \<longleftrightarrow> ok"
  by (simp add: require_ca_def require_res_def)

lemmas ca_ok = ca_bind_Inr require_ca_Inr

lemma from_bytes_little_less: "from_bytes_little bs < 256 ^ length bs"
  using from_bytes_big_less [of "rev bs"] by (simp add: from_bytes_little_def)

lemma ints_pack:
  "fields_fit ws vs \<Longrightarrow> ints_little ws (pack_little ws vs @ rest) = vs"
  by (induction ws vs rule: fields_fit.induct) (simp_all add: from_to_bytes_little)

lemma pack_ints:
  "sum_list ws \<le> length bs \<Longrightarrow>
   fields_fit ws (ints_little ws bs) \<and> bs = pack_little ws (ints_little ws bs) @ drop (sum_list ws) bs"
proof (induction ws arbitrary: bs)
  case (Cons w ws)
  have l: "length (take w bs) = w" using Cons.prems by simp
  have "to_bytes_little w (from_bytes_little (take w bs)) = take w bs"
    using to_from_bytes_little [of "take w bs"] l by simp
  moreover have "from_bytes_little (take w bs) < 256 ^ w"
    using from_bytes_little_less [of "take w bs"] l by simp
  moreover have "sum_list ws \<le> length (drop w bs)" using Cons.prems by simp
  ultimately show ?case using Cons.IH [of "drop w bs"]
    by (simp add: add.commute)
qed simp

lemma fields_fit_pack_length: "fields_fit ws vs \<Longrightarrow> length (pack_little ws vs) = sum_list ws"
  by (induction ws vs rule: fields_fit.induct) simp_all

lemma fields_fit_length: "fields_fit ws vs \<Longrightarrow> length vs = length ws"
  by (induction ws vs rule: fields_fit.induct) simp_all

lemma unpack_from_Inr:
  assumes "0 < sum_list ws"
  shows "unpack_from ws data pos = Inr vs \<longleftrightarrow> fields_fit ws vs \<and> (\<exists>rest. drop pos data = pack_little ws vs @ rest)"
proof
  assume l: "unpack_from ws data pos = Inr vs"
  then have "sum_list ws \<le> length (drop pos data)" "vs = ints_little ws (drop pos data)"
    by (auto simp: unpack_from_def split: if_splits)
  with pack_ints show "fields_fit ws vs \<and> (\<exists>rest. drop pos data = pack_little ws vs @ rest)" by blast
next
  assume r: "fields_fit ws vs \<and> (\<exists>rest. drop pos data = pack_little ws vs @ rest)"
  then obtain rest where d: "drop pos data = pack_little ws vs @ rest" by blast
  from arg_cong [OF d, of length] r have "pos + sum_list ws \<le> length data"
    using assms by (simp add: fields_fit_pack_length)
  then show "unpack_from ws data pos = Inr vs" using r by (simp add: unpack_from_def d ints_pack)
qed

text \<open>A reader at an offset for a format: it succeeds exactly on an encoding of a value in range, and moves
  past it.\<close>

definition sits :: "octets \<Rightarrow> nat \<Rightarrow> octets \<Rightarrow> bool" where
  "sits data pos bs = (\<exists>rest. drop pos data = bs @ rest)"

lemma sits_Nil [simp]: "sits data pos []"
  by (simp add: sits_def)

lemma sits_append: "sits data pos (x @ y) \<longleftrightarrow> sits data pos x \<and> sits data (pos + length x) y"
proof
  assume "sits data pos x \<and> sits data (pos + length x) y"
  then obtain r where r: "drop pos data = x @ r" "sits data (pos + length x) y" by (auto simp: sits_def)
  have "drop (pos + length x) data = r" using r(1) by (simp add: drop_drop [symmetric] add.commute [of pos])
  then show "sits data pos (x @ y)" using r by (auto simp: sits_def)
next
  assume "sits data pos (x @ y)"
  then obtain r where r: "drop pos data = x @ y @ r" by (auto simp: sits_def)
  then have "drop (pos + length x) data = y @ r" by (simp add: drop_drop [symmetric] add.commute [of pos])
  with r show "sits data pos x \<and> sits data (pos + length x) y" by (auto simp: sits_def)
qed

lemma sits_length: "sits data pos bs \<Longrightarrow> bs \<noteq> [] \<Longrightarrow> pos + length bs \<le> length data"
proof -
  assume "sits data pos bs" "bs \<noteq> []"
  then obtain r where "drop pos data = bs @ r" by (auto simp: sits_def)
  from arg_cong [OF this, of length] \<open>bs \<noteq> []\<close> show ?thesis by (cases bs) auto
qed

lemma sits_slice: "sits data i (slice i j data)"
  unfolding sits_def slice_def by (metis append_take_drop_id)

lemma sits_slice_iff: "j \<le> length data \<Longrightarrow> length bs = j - i \<Longrightarrow> sits data i bs \<longleftrightarrow> slice i j data = bs"
  using sits_slice [of data i j] by (auto simp: sits_def slice_def)

lemma unpack_sits:
  "0 < sum_list ws \<Longrightarrow> unpack_from ws data pos = Inr vs \<longleftrightarrow> fields_fit ws vs \<and> sits data pos (pack_little ws vs)"
  by (simp add: unpack_from_Inr sits_def)

locale cursor =
  fixes rd :: "octets \<Rightarrow> nat \<Rightarrow> ca_error + ('a \<times> nat)" and enc :: "'a \<Rightarrow> octets" and ok :: "'a \<Rightarrow> bool"
  assumes reads: "rd data pos = Inr (x, pos') \<longleftrightarrow> ok x \<and> sits data pos (enc x) \<and> pos' = pos + length (enc x)"
begin

lemma reads_many:
  "read_many (rd data) n pos = Inr (xs, pos') \<longleftrightarrow>
   length xs = n \<and> (\<forall>x \<in> set xs. ok x) \<and> sits data pos (concat (map enc xs)) \<and>
   pos' = pos + length (concat (map enc xs))"
proof (induction n arbitrary: pos xs)
  case (Suc n)
  show ?case
    by (cases xs) (auto simp: ca_bind_Inr reads Suc.IH sits_append)
qed auto

end

lemma nullable_reads:
  "nullable data pos t = Inr (v, pos') \<longleftrightarrow>
   opt_ok v \<and> t = tag_of v \<and> sits data pos (enc_opt v) \<and> pos' = pos + length (enc_opt v)"
proof (cases v)
  case None
  then show ?thesis by (auto simp: nullable_def ca_ok opt_ok_def tag_of_def enc_opt_def)
next
  case (Some n)
  have "unpack_from [8] data pos = Inr vs \<and> hd vs = n \<longleftrightarrow> vs = [n] \<and> n < 256 ^ 8 \<and> sits data pos (to_bytes_little 8 n)" for vs
    by (cases vs rule: list.exhaust; cases "tl vs") (auto simp: unpack_sits)
  then show ?thesis using Some
    by (auto simp: nullable_def ca_ok opt_ok_def tag_of_def enc_opt_def)
qed

lemma pack_lengths [simp]:
  "length (pack_little [Suc 0, Suc 0, Suc 0] [a, b, c]) = 3"
  "length (pack_little [Suc 0, Suc 0, Suc 0, Suc 0, Suc 0, Suc 0] [a, b, c, d, e, f]) = 6"
  "length (pack_little [8, 8] [a, b]) = 16"
  by simp_all

declare pack_little.simps [simp del]

lemma clock_pair: "pack_little [8, 8] [a, b] \<noteq> []"
  using pack_lengths(3) [of a b] by (metis list.size(3) zero_neq_numeral)

lemma fields_fit_3: "fields_fit [a, b, c] vs \<longleftrightarrow> (\<exists>x y z. vs = [x, y, z] \<and> x < 256 ^ a \<and> y < 256 ^ b \<and> z < 256 ^ c)"
  by (auto elim!: fields_fit.elims(2))

lemma fields_fit_2: "fields_fit [a, b] vs \<longleftrightarrow> (\<exists>x y. vs = [x, y] \<and> x < 256 ^ a \<and> y < 256 ^ b)"
  by (auto elim!: fields_fit.elims(2))

lemma fields_fit_6:
  "fields_fit [a, b, c, d, e, f] vs \<longleftrightarrow>
   (\<exists>x y z u v w. vs = [x, y, z, u, v, w] \<and> x < 256 ^ a \<and> y < 256 ^ b \<and> z < 256 ^ c \<and> u < 256 ^ d \<and>
      v < 256 ^ e \<and> w < 256 ^ f)"
  by (auto elim!: fields_fit.elims(2))

interpretation tombstone_cursor: cursor read_tombstone enc_tombstone tombstone_ok
proof
  fix data :: octets and pos pos' :: nat and t :: tombstone
  obtain channel mk level clocks where t: "t = (channel, mk, level, clocks)" by (cases t)
  show "read_tombstone data pos = Inr (t, pos') \<longleftrightarrow>
    tombstone_ok t \<and> sits data pos (enc_tombstone t) \<and> pos' = pos + length (enc_tombstone t)"
  proof
    assume "read_tombstone data pos = Inr (t, pos')"
    then obtain c m where h: "c < 256" "m < 256" "level < 256" "sits data pos (pack_little [1, 1, 1] [c, m, level])"
      "fields_fit [8, 8, 8] clocks" "sits data (pos + 3 + c + m) (pack_little [8, 8, 8] clocks)"
      "channel = slice (pos + 3) (pos + 3 + c) data" "mk = slice (pos + 3 + c) (pos + 3 + c + m) data"
      "pos' = pos + 3 + c + m + 24"
      by (auto simp: read_tombstone_def t ca_ok Let_def unpack_sits fields_fit_3)
    have l: "length (pack_little [8, 8, 8] clocks) = 24" using fields_fit_pack_length [OF h(5)] by simp
    then have "pos + 3 + c + m + 24 \<le> length data" using sits_length [OF h(6)] by force
    then have lc: "length channel = c" "length mk = m" using h(7,8) by (simp_all add: length_slice)
    show "tombstone_ok t \<and> sits data pos (enc_tombstone t) \<and> pos' = pos + length (enc_tombstone t)"
      using h l lc sits_slice [of data "pos + 3" "pos + 3 + c"] sits_slice [of data "pos + 3 + c" "pos + 3 + c + m"]
      by (simp add: t tombstone_ok_def enc_tombstone_def sits_append add.assoc)
  next
    assume r: "tombstone_ok t \<and> sits data pos (enc_tombstone t) \<and> pos' = pos + length (enc_tombstone t)"
    then have ok: "length channel < 256" "length mk < 256" "level < 256" "fields_fit [8, 8, 8] clocks"
      by (simp_all add: t tombstone_ok_def)
    have l: "length (pack_little [8, 8, 8] clocks) = 24" using fields_fit_pack_length [OF ok(4)] by simp
    have e: "sits data pos (pack_little [1, 1, 1] [length channel, length mk, level])"
      "sits data (pos + 3) channel" "sits data (pos + 3 + length channel) mk"
      "sits data (pos + 3 + length channel + length mk) (pack_little [8, 8, 8] clocks)"
      using r by (simp_all add: t enc_tombstone_def sits_append add.assoc)
    have "pos + 3 + length channel + length mk + 24 \<le> length data" using sits_length [OF e(4)] l by force
    then have "slice (pos + 3) (pos + 3 + length channel) data = channel"
      "slice (pos + 3 + length channel) (pos + 3 + length channel + length mk) data = mk"
      using e(2,3) by (simp_all add: sits_slice_iff [symmetric])
    moreover have "unpack_from [1, 1, 1] data pos = Inr [length channel, length mk, level]"
      using e(1) ok by (simp add: unpack_sits)
    moreover have "unpack_from [8, 8, 8] data (pos + 3 + length channel + length mk) = Inr clocks"
      using e(4) ok by (simp add: unpack_sits)
    ultimately show "read_tombstone data pos = Inr (t, pos')"
      using r l by (simp add: read_tombstone_def bind_res_def Let_def t enc_tombstone_def)
  qed
qed

interpretation row_cursor: cursor read_row enc_row row_ok
proof
  fix data :: octets and pos pos' :: nat and r :: access_row
  show "read_row data pos = Inr (r, pos') \<longleftrightarrow>
    row_ok r \<and> sits data pos (enc_row r) \<and> pos' = pos + length (enc_row r)"
  proof
    assume "read_row data pos = Inr (r, pos')"
    then obtain c m s d e where h: "c < 256" "m < 256" "s < 256" "ar_level r < 256"
      "sits data pos (pack_little [1, 1, 1, 1, 1, 1] [c, m, s, ar_level r, d, e])"
      "nullable data (pos + 6 + c + m + s) d = Inr (ar_duration r, pos + 6 + c + m + s + length (enc_opt (ar_duration r)))"
      "nullable data (pos + 6 + c + m + s + length (enc_opt (ar_duration r))) e = Inr (ar_expiry r, pos' - 16)"
      "ar_hlc r < 256 ^ 8" "ar_origin r < 256 ^ 8" "sits data (pos' - 16) (pack_little [8, 8] [ar_hlc r, ar_origin r])"
      "ar_channel r = slice (pos + 6) (pos + 6 + c) data" "ar_mask r = slice (pos + 6 + c) (pos + 6 + c + m) data"
      "ar_issuer r = slice (pos + 6 + c + m) (pos + 6 + c + m + s) data" "16 \<le> pos'"
      by (auto simp: read_row_def ca_ok Let_def unpack_sits fields_fit_6 fields_fit_2 nullable_reads)
    have n: "opt_ok (ar_duration r)" "d = tag_of (ar_duration r)" "opt_ok (ar_expiry r)" "e = tag_of (ar_expiry r)"
      "sits data (pos + 6 + c + m + s) (enc_opt (ar_duration r))"
      "sits data (pos + 6 + c + m + s + length (enc_opt (ar_duration r))) (enc_opt (ar_expiry r))"
      "pos' - 16 = pos + 6 + c + m + s + length (enc_opt (ar_duration r)) + length (enc_opt (ar_expiry r))"
      using h(6,7) by (simp_all add: nullable_reads)
    have "pos' \<le> length data" using sits_length [OF h(10) clock_pair] h(14) by simp
    then have lc: "length (ar_channel r) = c" "length (ar_mask r) = m" "length (ar_issuer r) = s"
      using h(11-14) n(7) by (simp_all add: length_slice)
    have sl: "sits data (pos + 6) (ar_channel r)" "sits data (pos + 6 + c) (ar_mask r)"
      "sits data (pos + 6 + c + m) (ar_issuer r)" unfolding h(11-13) by (rule sits_slice)+
    have "pos' = pos + 6 + c + m + s + length (enc_opt (ar_duration r)) + length (enc_opt (ar_expiry r)) + 16"
      using n(7) h(14) by simp
    then show "row_ok r \<and> sits data pos (enc_row r) \<and> pos' = pos + length (enc_row r)"
      using h(1-5,8,9) h(10) [unfolded n(7)] n(1-6) sl by (simp add: row_ok_def enc_row_def sits_append lc add.assoc)
  next
    assume r: "row_ok r \<and> sits data pos (enc_row r) \<and> pos' = pos + length (enc_row r)"
    let ?c = "length (ar_channel r)" and ?m = "length (ar_mask r)" and ?s = "length (ar_issuer r)"
    let ?q = "pos + 6 + ?c + ?m + ?s" and ?d = "length (enc_opt (ar_duration r))" and ?e = "length (enc_opt (ar_expiry r))"
    have e: "sits data pos (pack_little [1, 1, 1, 1, 1, 1] [?c, ?m, ?s, ar_level r, tag_of (ar_duration r), tag_of (ar_expiry r)])"
      "sits data (pos + 6) (ar_channel r)" "sits data (pos + 6 + ?c) (ar_mask r)" "sits data (pos + 6 + ?c + ?m) (ar_issuer r)"
      "sits data ?q (enc_opt (ar_duration r))" "sits data (?q + ?d) (enc_opt (ar_expiry r))"
      "sits data (?q + ?d + ?e) (pack_little [8, 8] [ar_hlc r, ar_origin r])"
      using r by (simp_all add: enc_row_def sits_append add.assoc)
    have "?q + ?d + ?e + 16 \<le> length data" using sits_length [OF e(7) clock_pair] by simp
    then have "slice (pos + 6) (pos + 6 + ?c) data = ar_channel r"
      "slice (pos + 6 + ?c) (pos + 6 + ?c + ?m) data = ar_mask r"
      "slice (pos + 6 + ?c + ?m) ?q data = ar_issuer r"
      using e(2-4) by (simp_all add: sits_slice_iff [symmetric])
    moreover have "unpack_from [1, 1, 1, 1, 1, 1] data pos =
        Inr [?c, ?m, ?s, ar_level r, tag_of (ar_duration r), tag_of (ar_expiry r)]"
      using e(1) r by (simp add: unpack_sits row_ok_def tag_of_def)
    moreover have "unpack_from [8, 8] data (?q + ?d + ?e) = Inr [ar_hlc r, ar_origin r]"
      using e(7) r by (simp add: unpack_sits row_ok_def)
    moreover have "nullable data ?q (tag_of (ar_duration r)) = Inr (ar_duration r, ?q + ?d)"
      "nullable data (?q + ?d) (tag_of (ar_expiry r)) = Inr (ar_expiry r, ?q + ?d + ?e)"
      using e(5,6) r by (simp_all add: nullable_reads row_ok_def)
    ultimately show "read_row data pos = Inr (r, pos')"
      using r by (simp add: read_row_def bind_res_def Let_def enc_row_def)
  qed
qed

lemma slice_drop: "i \<le> j \<Longrightarrow> slice i j xs @ drop j xs = drop i xs"
  using append_take_drop_id [of "j - i" "drop i xs"] by (simp add: slice_def)

lemma head_iff:
  "access_head data = Inr h \<longleftrightarrow>
   (\<exists>padding rest. data = enc_head h padding @ rest \<and> length (ah_magic h) = 4 \<and> ah_version h < 256 \<and>
      length padding = 3 \<and> fields_fit [4, 2, 2, 2, 2, 8, 8, 8, 8] (head_values h))"
proof
  let ?W = "[4, 2, 2, 2, 2, 8, 8, 8, 8] :: nat list"
  assume a: "access_head data = Inr h"
  then have l: "52 \<le> length data" by (auto simp: access_head_def split: if_splits)
  let ?vs = "ints_little ?W (drop 8 data)"
  have p: "fields_fit ?W ?vs" "drop 8 data = pack_little ?W ?vs @ drop 44 (drop 8 data)"
    using pack_ints [of ?W "drop 8 data"] l by simp_all
  have "length ?vs = 9" using fields_fit_length [OF p(1)] by simp
  then have vs: "head_values h = ?vs"
    using a l by (auto simp: access_head_def head_values_def Let_def numeral_eq_Suc)
  have v: "ah_magic h = take 4 data" "ah_version h = from_bytes_little (slice 4 5 data)"
    using a l by (auto simp: access_head_def Let_def)
  have s1: "length (slice 4 5 data) = 1" using l by (simp add: length_slice)
  have "data = take 4 data @ slice 4 5 data @ slice 5 8 data @ drop 8 data"
    by (simp add: slice_drop)
  moreover have "to_bytes_little 1 (ah_version h) = slice 4 5 data"
    using to_from_bytes_little [of "slice 4 5 data"] s1 v(2) by simp
  moreover have "ah_version h < 256" using from_bytes_little_less [of "slice 4 5 data"] s1 v(2) by simp
  ultimately have "data = enc_head h (slice 5 8 data) @ drop 44 (drop 8 data)"
    using p(2) vs v(1) by (simp add: enc_head_def)
  moreover have "length (slice 5 8 data) = 3" "length (ah_magic h) = 4"
    using l v(1) by (simp_all add: length_slice)
  ultimately show "\<exists>padding rest. data = enc_head h padding @ rest \<and> length (ah_magic h) = 4 \<and> ah_version h < 256 \<and>
      length padding = 3 \<and> fields_fit ?W (head_values h)"
    using p(1) vs \<open>ah_version h < 256\<close> by metis
next
  let ?W = "[4, 2, 2, 2, 2, 8, 8, 8, 8] :: nat list"
  assume "\<exists>padding rest. data = enc_head h padding @ rest \<and> length (ah_magic h) = 4 \<and> ah_version h < 256 \<and>
      length padding = 3 \<and> fields_fit ?W (head_values h)"
  then obtain padding rest where d: "data = enc_head h padding @ rest" "length (ah_magic h) = 4" "ah_version h < 256"
    "length padding = 3" "fields_fit ?W (head_values h)" by blast
  have "length (pack_little ?W (head_values h)) = 44" using fields_fit_pack_length [OF d(5)] by simp
  then have l: "52 \<le> length data" using d by (simp add: enc_head_def)
  have "drop 8 data = pack_little ?W (head_values h) @ rest" using d by (simp add: enc_head_def)
  then have "ints_little ?W (drop 8 data) = head_values h" using d(5) by (simp only: ints_pack)
  moreover have "take 4 data = ah_magic h" using d by (simp add: enc_head_def)
  moreover have "slice 4 5 data = to_bytes_little 1 (ah_version h)" using d by (simp add: enc_head_def slice_def)
  ultimately show "access_head data = Inr h"
    using l d(3) by (simp add: access_head_def head_values_def from_to_bytes_little)
qed

lemma enc_head_length:
  "length (ah_magic h) = 4 \<Longrightarrow> length padding = 3 \<Longrightarrow> fields_fit [4, 2, 2, 2, 2, 8, 8, 8, 8] (head_values h) \<Longrightarrow>
   length (enc_head h padding) = 52"
  using fields_fit_pack_length [of "[4, 2, 2, 2, 2, 8, 8, 8, 8]" "head_values h"] by (simp add: enc_head_def)

lemma access_rows_steps:
  "access_rows data = Inr (h, rows, tombs) \<longleftrightarrow>
   access_head data = Inr h \<and> ah_magic h = ascii ''ACCS'' \<and> ah_version h = 1 \<and> length data = 52 + ah_body h + 32 \<and>
   length rows = ah_rows h \<and> (\<forall>r \<in> set rows. row_ok r) \<and> length tombs = ah_tombstones h \<and>
   (\<forall>t \<in> set tombs. tombstone_ok t) \<and> sits data 52 (enc_body rows tombs) \<and>
   52 + length (enc_body rows tombs) + 32 = length data"
  unfolding access_rows_def
  by (auto simp: ca_ok row_cursor.reads_many tombstone_cursor.reads_many enc_body_def sits_append
      simp del: length_concat map_append concat_append)

lemma access_rows_iff:
  "access_rows data = Inr (h, rows, tombs) \<longleftrightarrow>
   (\<exists>padding checksum. image_ok h padding rows tombs checksum \<and> data = access_image h padding rows tombs checksum)"
proof
  assume "access_rows data = Inr (h, rows, tombs)"
  note a = this [unfolded access_rows_steps head_iff]
  then obtain padding rest where d: "data = enc_head h padding @ rest" "length padding = 3"
    "fields_fit [4, 2, 2, 2, 2, 8, 8, 8, 8] (head_values h)" by blast
  have l: "length (enc_head h padding) = 52" using a d by (intro enc_head_length) simp_all
  then obtain checksum where r: "rest = enc_body rows tombs @ checksum"
    using a d(1) by (auto simp: sits_def)
  then have "length checksum = 32" using a d(1) l by simp
  then show "\<exists>padding checksum. image_ok h padding rows tombs checksum \<and> data = access_image h padding rows tombs checksum"
    using a d r by (intro exI [of _ padding] exI [of _ checksum]) (simp add: image_ok_def access_image_def)
next
  assume "\<exists>padding checksum. image_ok h padding rows tombs checksum \<and> data = access_image h padding rows tombs checksum"
  then obtain padding checksum where i: "image_ok h padding rows tombs checksum"
    "data = access_image h padding rows tombs checksum" by blast
  have m: "length (ah_magic h) = 4" "length (enc_head h padding) = 52" "length padding = 3"
    using i(1) by (auto simp: image_ok_def intro!: enc_head_length)
  then have "sits data 52 (enc_body rows tombs)" by (simp add: i(2) access_image_def sits_def)
  moreover have "access_head data = Inr h"
    unfolding head_iff using i m by (auto simp: image_ok_def access_image_def)
  ultimately show "access_rows data = Inr (h, rows, tombs)"
    unfolding access_rows_steps using i m by (simp add: image_ok_def access_image_def)
qed

text \<open>C5: The reader accepts exactly the images of checkpoints, and returns the checkpoint of the image: a
  header of 52 bytes whose counts and body length are those of the rows and tombstones that follow, each with
  its fields in range, and 32 bytes after them. Nothing is read past the end, left over or skipped but the three
  bytes of padding and the checksum.\<close>

theorem access_rows_exact:
  "access_rows data = Inr (h, rows, tombs) \<longleftrightarrow>
   (\<exists>padding checksum. image_ok h padding rows tombs checksum \<and> data = access_image h padding rows tombs checksum)"
  by (rule access_rows_iff)

section \<open>The comparison\<close>

definition with_masks :: "octets list \<Rightarrow> access_row list \<Rightarrow> access_row list" where
  "with_masks ms rows = map2 (\<lambda>r m. r\<lparr>ar_mask := m\<rparr>) (take (length ms) rows) ms @ drop (length ms) rows"

lemma check_pairs_kept:
  "length before = length after \<Longrightarrow> check_pairs i (zip before after) = Inr () \<Longrightarrow> 5 \<le> i \<Longrightarrow> before = after"
  by (induction before after arbitrary: i rule: list_induct2) (auto simp: ca_ok)

lemma mask_only: "r\<lparr>ar_mask := []\<rparr> = r'\<lparr>ar_mask := []\<rparr> \<Longrightarrow> r' = r\<lparr>ar_mask := ar_mask r'\<rparr>"
  by (cases r; cases r') simp

lemma check_pairs_masks:
  "length before = length after \<Longrightarrow> check_pairs i (zip before after) = Inr () \<Longrightarrow> i \<le> 5 \<Longrightarrow> 5 - i \<le> length before \<Longrightarrow>
   after = with_masks (map ar_mask (take (5 - i) after)) before \<and>
   (\<forall>j < 5 - i. ar_mask (after ! j) \<noteq> ar_mask (before ! j) \<and>
      user_part (ar_mask (after ! j)) = user_part (ar_mask (before ! j)))"
proof (induction before after arbitrary: i rule: list_induct2)
  case Nil
  then show ?case by (simp add: with_masks_def)
next
  case (Cons old b new a)
  show ?case
  proof (cases "i = 5")
    case True
    then show ?thesis using check_pairs_kept [of "old # b" "new # a" 5] Cons.prems Cons.hyps
      by (simp add: with_masks_def del: check_pairs.simps)
  next
    case False
    then have i: "i < 5" "5 - i = Suc (5 - Suc i)" using Cons.prems(2) by auto
    have c: "old\<lparr>ar_mask := []\<rparr> = new\<lparr>ar_mask := []\<rparr>" "ar_mask old \<noteq> ar_mask new"
      "user_part (ar_mask old) = user_part (ar_mask new)" "check_pairs (Suc i) (zip b a) = Inr ()"
      using Cons.prems(1) i(1) by (auto simp: ca_ok)
    note IH = Cons.IH [OF c(4)]
    have "Suc i \<le> 5" "5 - Suc i \<le> length b" using i Cons.prems(3) by simp_all
    note IH' = IH [OF this]
    have "new # a = with_masks (map ar_mask (take (5 - i) (new # a))) (old # b)"
      using conjunct1 [OF IH'] mask_only [OF c(1)] Cons.hyps by (simp add: i(2) with_masks_def)
    moreover have "\<forall>j < 5 - i. ar_mask ((new # a) ! j) \<noteq> ar_mask ((old # b) ! j) \<and>
        user_part (ar_mask ((new # a) ! j)) = user_part (ar_mask ((old # b) ! j))"
      using conjunct2 [OF IH'] c(2,3) by (simp add: i(2) All_less_Suc2)
    ultimately show ?thesis by blast
  qed
qed

text \<open>C11: A rewritten checkpoint that passes the comparison is the source with the masks of the first five rows
  replaced, each by another mask with the same user part, and with the body length that goes with them: the other
  rows, all other fields, the tombstones and the parameters are the source's.\<close>

theorem candidate_masks_only:
  assumes "access_rows source = Inr (h, rows, tombs)" "access_rows candidate = Inr c"
    and "check_candidate (h, rows, tombs) c = Inr ()"
  shows "\<exists>ms padding checksum.
    length ms = 5 \<and> c = (h\<lparr>ah_body := length (enc_body (with_masks ms rows) tombs)\<rparr>, with_masks ms rows, tombs) \<and>
    (\<forall>i < 5. ms ! i \<noteq> ar_mask (rows ! i) \<and> user_part (ms ! i) = user_part (ar_mask (rows ! i))) \<and>
    length padding = 3 \<and> length checksum = 32 \<and>
    candidate = access_image (fst c) padding (with_masks ms rows) tombs checksum"
proof -
  obtain h' rows' tombs' where c: "c = (h', rows', tombs')" by (cases c)
  have k: "h\<lparr>ah_body := 0\<rparr> = h'\<lparr>ah_body := 0\<rparr>" "tombs' = tombs" "length rows = length rows'" "length rows' = 12"
    "check_pairs 0 (zip rows rows') = Inr ()"
    using assms(3) by (auto simp: check_candidate_def c ca_ok)
  let ?ms = "map ar_mask (take 5 rows')"
  have m: "rows' = with_masks ?ms rows \<and> (\<forall>j < 5. ar_mask (rows' ! j) \<noteq> ar_mask (rows ! j) \<and>
      user_part (ar_mask (rows' ! j)) = user_part (ar_mask (rows ! j)))"
    using check_pairs_masks [OF k(3,5)] k(3,4) by simp
  obtain padding checksum where i: "image_ok h' padding rows' tombs' checksum"
    "candidate = access_image h' padding rows' tombs' checksum"
    using assms(2) unfolding c access_rows_iff by blast
  have "h' = h\<lparr>ah_body := ah_body h'\<rparr>" using k(1) by (cases h; cases h') simp
  moreover have "ah_body h' = length (enc_body rows' tombs')" using i(1) by (simp add: image_ok_def)
  ultimately have "h' = h\<lparr>ah_body := length (enc_body (with_masks ?ms rows) tombs)\<rparr>" using m k(2) by metis
  moreover have "length padding = 3" "length checksum = 32" using i(1) by (simp_all add: image_ok_def)
  ultimately show ?thesis
    using m i(2) k(2,4) c by (intro exI [of _ ?ms] exI [of _ padding] exI [of _ checksum]) (auto simp: nth_append)
qed

lemma contains_sub_inside:
  "contains_sub s t \<Longrightarrow> contains_sub (s @ z) t" "contains_sub s t \<Longrightarrow> contains_sub (z @ s) t"
  unfolding contains_sub_iff by (metis append.assoc)+

text \<open>A report that passes carries none of the secrets and neither does what the child was given.\<close>

lemma invoke_redacted:
  assumes "invoke tokens work defpath builder ff args expected expected_out child unchanged n = Inr (n', out)"
    and "t \<in> set tokens"
  shows "n' = n + 1 \<and> (\<exists>err. child = Exited expected out err \<and> \<not> contains_sub out t \<and> \<not> contains_sub err t) \<and>
    (\<forall>a \<in> set args. \<not> contains_sub a t)"
proof -
  have sub: "a \<in> set xs \<Longrightarrow> contains_sub a t \<Longrightarrow> contains_sub (join sep xs) t" for a sep xs
    by (induction sep xs rule: join.induct) (auto intro: contains_sub_inside)
  obtain err where "child = Exited expected out err" "\<not> contains_sub (out @ err) t" "n' = n + 1"
    "\<not> contains_sub (join [CHR 0x00] args) t"
    using assms by (cases child) (auto simp: invoke_def ca_ok)
  then show ?thesis using contains_sub_inside sub by metis
qed

section \<open>Examples\<close>

definition demo_row :: "nat \<Rightarrow> access_row" where
  "demo_row i = \<lparr>ar_channel = ascii (if i < 6 then ''#a'' else ''#b''), ar_mask = ascii ''u@old'', ar_issuer = ascii ''op'',
     ar_level = 1, ar_duration = [None, Some 0, Some 30] ! (i mod 3), ar_expiry = (if even i then None else Some 130),
     ar_hlc = i, ar_origin = 9\<rparr>"

definition demo_access_rows :: "access_row list" where
  "demo_access_rows = map demo_row [0..<12]"

definition demo_tombs :: "tombstone list" where
  "demo_tombs = [(ascii ''#a'', ascii ''x@y'', 2, [1, 2, 3])]"

definition demo_head :: "access_row list \<Rightarrow> access_header" where
  "demo_head rows = \<lparr>ah_magic = ascii ''ACCS'', ah_version = 1, ah_body = length (enc_body rows demo_tombs),
     ah_rows = 12, ah_tombstones = 1, ah_params = [31, 19, 271, 100, 9, 7]\<rparr>"

definition demo_image :: "access_row list \<Rightarrow> octets" where
  "demo_image rows = access_image (demo_head rows) [0, 0, 0] rows demo_tombs (replicate 32 0)"

definition demo_new :: "access_row list" where
  "demo_new = with_masks (replicate 5 (ascii ''u@newer'')) demo_access_rows"

lemma demo_read:
  "access_rows (demo_image demo_access_rows) = Inr (demo_head demo_access_rows, demo_access_rows, demo_tombs)"
  "access_rows (demo_image demo_new) = Inr (demo_head demo_new, demo_new, demo_tombs)"
proof -
  have "image_ok (demo_head demo_access_rows) [0, 0, 0] demo_access_rows demo_tombs (replicate 32 0)"
    "image_ok (demo_head demo_new) [0, 0, 0] demo_new demo_tombs (replicate 32 0)" by code_simp+
  then show "access_rows (demo_image demo_access_rows) = Inr (demo_head demo_access_rows, demo_access_rows, demo_tombs)"
    "access_rows (demo_image demo_new) = Inr (demo_head demo_new, demo_new, demo_tombs)"
    unfolding access_rows_iff demo_image_def by blast+
qed

theorem candidate_masks_only_witness:
  "\<exists>ms padding checksum. length ms = 5 \<and>
    (demo_head demo_new, demo_new, demo_tombs) =
      (demo_head demo_access_rows\<lparr>ah_body := length (enc_body (with_masks ms demo_access_rows) demo_tombs)\<rparr>, with_masks ms demo_access_rows, demo_tombs) \<and>
    (\<forall>i < 5. ms ! i \<noteq> ar_mask (demo_access_rows ! i) \<and> user_part (ms ! i) = user_part (ar_mask (demo_access_rows ! i))) \<and>
    length padding = 3 \<and> length checksum = 32 \<and>
    demo_image demo_new = access_image (demo_head demo_new) padding (with_masks ms demo_access_rows) demo_tombs checksum"
proof -
  have "check_candidate (demo_head demo_access_rows, demo_access_rows, demo_tombs) (demo_head demo_new, demo_new, demo_tombs) = Inr ()"
    by code_simp
  from candidate_masks_only [OF demo_read this] show ?thesis by simp
qed

end
