(* ===== verification/Media_Probe.thy ===== *)
theory Media_Probe
  imports Octets PyRegex Text_Codecs
begin

unbundle bit_operations_syntax

text \<open>
  The probes of the media pumps, \<open>src/tools/windows_media_smoke.py\<close>: the offer an IRC reply carries, the
  authenticated STUN binding request, and the native media frames with their directional keys. Lines are code
  points; datagrams are octets. The digests (\<open>hmac\<close> with SHA-1 or SHA-256, \<open>crc32\<close>), the random transaction
  and the digits above 127 are arguments; what the sockets return is given.
\<close>

datatype mp_error = MissingField pystr | NotLoopback | StreamChanged | KeyLength | BadValue | NoPack | NoReply | NoFanout | BadFanout

definition MEDIA_HOST :: pystr where
  "MEDIA_HOST = u ''127.0.0.1''"

section \<open>Offers\<close>

definition field_re :: "pystr \<Rightarrow> nat re" where
  "field_re name = seqs [alts [bol, lit [32]], lit name, lit (u ''=''), Cap 1 (plus (none_of [32]))]"

definition get_field :: "pystr \<Rightarrow> pystr \<Rightarrow> mp_error + pystr" where
  "get_field line name =
     (case re_search (field_re name) line of
        None \<Rightarrow> Inl (MissingField name)
      | Some g \<Rightarrow> Inr (grp g 1))"

definition media_int :: "(nat \<Rightarrow> nat option) \<Rightarrow> pystr \<Rightarrow> mp_error + int" where
  "media_int dv s =
     (case int_of (\<lambda>c. if c < 128 then udigit c else dv c) 95 43 45 uspace s of
        None \<Rightarrow> Inl BadValue | Some n \<Rightarrow> Inr n)"

definition str_ascii :: "pystr \<Rightarrow> octets option" where
  "str_ascii s = (if list_all (\<lambda>c. c < 128) s then Some (map of_nat s) else None)"

definition decode_key :: "pystr \<Rightarrow> mp_error + octets" where
  "decode_key s =
     (case str_ascii s of
        None \<Rightarrow> Inl BadValue
      | Some bs \<Rightarrow> (case b64_dec (chars bs) of None \<Rightarrow> Inl BadValue | Some ns \<Rightarrow> Inr (map of_nat ns)))"

definition loopback :: "pystr \<Rightarrow> bool" where
  "loopback candidate = (takeWhile (\<lambda>c. c \<noteq> 58) candidate = MEDIA_HOST)"

type_synonym media_offer = "pystr \<times> pystr \<times> int \<times> octets"

text \<open>\<open>offer\<close>, from the three replies on.\<close>

definition offer :: "(nat \<Rightarrow> nat option) \<Rightarrow> pystr \<Rightarrow> pystr \<Rightarrow> pystr \<Rightarrow> mp_error + media_offer" where
  "offer dv transport native mac =
     bind_res (get_field transport (u ''ufrag'')) (\<lambda>ufrag.
     bind_res (get_field transport (u ''pwd'')) (\<lambda>pwd.
     bind_res (get_field transport (u ''candidate'')) (\<lambda>candidate.
     bind_res (get_field native (u ''candidate'')) (\<lambda>native_candidate.
     bind_res (bind_res (get_field native (u ''stream'')) (media_int dv)) (\<lambda>stream.
     bind_res (require_res (loopback candidate \<and> loopback native_candidate) NotLoopback) (\<lambda>_.
     bind_res
       (if stream \<le> 0 then Inl StreamChanged
        else bind_res (bind_res (get_field mac (u ''stream'')) (media_int dv)) (\<lambda>again.
               require_res (stream = again) StreamChanged)) (\<lambda>_.
     bind_res (bind_res (get_field mac (u ''key'')) decode_key) (\<lambda>master.
     bind_res (require_res (length master = 32) KeyLength) (\<lambda>_.
     Inr (ufrag, pwd, stream, master))))))))))"

section \<open>STUN\<close>






definition check_stun :: "octets \<Rightarrow> octets \<Rightarrow> bool \<Rightarrow> mp_error + unit" where
  "check_stun transaction reply from_pump =
     require_res (from_pump \<and> 20 \<le> length reply \<and> take 2 reply = [1, 1] \<and> slice 8 20 reply = transaction) NoReply"

section \<open>Native frames\<close>

definition PAYLOAD :: octets where
  "PAYLOAD = [0xDE, 0xAD, 0xBE, 0xEF]"

definition pack_I :: "int \<Rightarrow> (nat \<Rightarrow> octets) \<Rightarrow> octets option" where
  "pack_I v enc = (if 0 \<le> v \<and> v < 2 ^ 32 then Some (enc (nat v)) else None)"

definition native_key :: "(octets \<Rightarrow> octets \<Rightarrow> octets) \<Rightarrow> octets \<Rightarrow> int \<Rightarrow> string \<Rightarrow> octets option" where
  "native_key hmac master stream direction =
     map_option (\<lambda>s. hmac master (ascii (''onyx native endpoint capability v1 '' @ direction @ '' frame'') @ [0] @ s))
       (pack_I stream (to_bytes_big 4))"

definition native_frame :: "(octets \<Rightarrow> octets \<Rightarrow> octets) \<Rightarrow> int \<Rightarrow> octets \<Rightarrow> int \<Rightarrow> octets option" where
  "native_frame hmac stream key sequence =
     Option.bind (pack_I stream (to_bytes_little 4)) (\<lambda>s.
     Option.bind (pack_I sequence (to_bytes_little 4)) (\<lambda>q.
     let frame = to_bytes_little 4 (length PAYLOAD) @ [64] @ s @ q @ to_bytes_little 8 0 @ [1, 1] @ PAYLOAD
     in Some (frame @ take 16 (hmac key frame))))"

text \<open>\<open>check_native\<close>: the two datagrams that are sent, and the judgement of the one that comes back.\<close>

definition native_sends :: "(octets \<Rightarrow> octets \<Rightarrow> octets) \<Rightarrow> media_offer \<Rightarrow> media_offer \<Rightarrow> (octets \<times> octets) option" where
  "native_sends hmac = (\<lambda>(_, _, a_stream, a_master) (_, _, b_stream, b_master).
     Option.bind (native_key hmac b_master b_stream ''c2s'') (\<lambda>kb.
     Option.bind (native_frame hmac b_stream kb 1) (\<lambda>fb.
     Option.bind (native_key hmac a_master a_stream ''c2s'') (\<lambda>ka.
     Option.bind (native_frame hmac a_stream ka 1) (\<lambda>fa. Some (fb, fa))))))"

definition check_fanout :: "(octets \<Rightarrow> octets \<Rightarrow> octets) \<Rightarrow> media_offer \<Rightarrow> octets \<Rightarrow> bool \<Rightarrow> mp_error + unit" where
  "check_fanout hmac = (\<lambda>(_, _, b_stream, b_master) wire from_pump.
     if \<not> from_pump \<or> length wire < 39 then Inl NoFanout
     else
       let frame = take (length wire - 16) wire; tag = drop (length wire - 16) wire
       in case native_key hmac b_master b_stream ''s2c'' of
            None \<Rightarrow> Inl NoPack
          | Some key \<Rightarrow>
              require_res (tag = take 16 (hmac key frame) \<and> drop 23 frame = PAYLOAD) BadFanout)"

section \<open>A verifier of binding requests\<close>




section \<open>Properties\<close>








text \<open>The datagram that comes back is accepted exactly if it comes from the pump and is a frame of 23 header bytes
  and the payload that was sent, sealed under the receiver's own server-to-client key for its stream.\<close>

theorem fanout_exact:
  assumes "native_key hmac master stream ''s2c'' = Some key" "\<And>k m. length (hmac k m) = 32"
  shows "check_fanout hmac (ufrag, pwd, stream, master) wire from_pump = Inr () \<longleftrightarrow>
    from_pump \<and> (\<exists>header. length header = 23 \<and>
      wire = header @ PAYLOAD @ take 16 (hmac key (header @ PAYLOAD)))"
proof
  let ?frame = "take (length wire - 16) wire" and ?tag = "drop (length wire - 16) wire"
  assume "check_fanout hmac (ufrag, pwd, stream, master) wire from_pump = Inr ()"
  then have c: "from_pump" "39 \<le> length wire" "?tag = take 16 (hmac key ?frame)" "drop 23 ?frame = PAYLOAD"
    using assms(1) by (auto simp: check_fanout_def Let_def require_res_def split: if_splits)
  have f: "?frame = take 23 ?frame @ PAYLOAD" using c(4) by (metis append_take_drop_id)
  moreover have "wire = ?frame @ ?tag" by simp
  moreover have "length (take 23 ?frame) = 23" using c(2) by simp
  ultimately show "from_pump \<and> (\<exists>header. length header = 23 \<and>
      wire = header @ PAYLOAD @ take 16 (hmac key (header @ PAYLOAD)))"
    using c(1,3) by (metis append.assoc)
next
  assume "from_pump \<and> (\<exists>header. length header = 23 \<and>
      wire = header @ PAYLOAD @ take 16 (hmac key (header @ PAYLOAD)))"
  then show "check_fanout hmac (ufrag, pwd, stream, master) wire from_pump = Inr ()"
    using assms by (auto simp: check_fanout_def Let_def require_res_def PAYLOAD_def)
qed

text \<open>An offer that is accepted: a positive stream that both native replies name, loopback candidates and a key of
  32 bytes.\<close>

lemma offer_sound:
  assumes "offer dv transport native mac = Inr (ufrag, pwd, stream, master)"
  shows "0 < stream \<and> length master = 32 \<and>
    bind_res (get_field native (u ''stream'')) (media_int dv) = Inr stream \<and>
    bind_res (get_field mac (u ''stream'')) (media_int dv) = Inr stream \<and>
    (\<exists>c. get_field transport (u ''candidate'') = Inr c \<and> loopback c) \<and>
    (\<exists>c. get_field native (u ''candidate'') = Inr c \<and> loopback c)"
  using assms by (auto simp: offer_def bind_res_def require_res_def split: sum.splits if_splits)

section \<open>Examples\<close>


theorem fanout_exact_witness:
  "check_fanout (\<lambda>k m. replicate 16 1 @ replicate 16 (of_nat (length m))) (u ''f'', u ''p'', 5, replicate 32 1)
     (replicate 23 9 @ PAYLOAD @ replicate 16 1) True = Inr ()"
proof -
  let ?h = "\<lambda>k m. replicate 16 1 @ replicate 16 (of_nat (length m) :: 8 word)"
  have k: "native_key ?h (replicate 32 1) 5 ''s2c'' = Some (replicate 16 1 @ replicate 16 49)"
    by (simp add: native_key_def pack_I_def)
  show ?thesis using fanout_exact [OF k, of "u ''f''" "u ''p''" "replicate 23 9 @ PAYLOAD @ replicate 16 1" True]
    by (auto simp: PAYLOAD_def intro!: exI [of _ "replicate 23 9"])
qed

end
