(* ===== verification/Spec2Isabelle.thy ===== *)
theory Spec2Isabelle
  imports Bot_Props Client_Contract Test_Profile_Props Ledger_Props Gate_Select Scram_Fixture
    Roadmap_Audit Toolkit Bench_Live Alpine_Driver Review_Stub Mesh_Chat_Props Mesh_Health
    Ocsp_Fixture Privacy_Corpus Sqpoll Kernel_Props Websocket_Props Image_Tools Cloak_Audit Media_Probe
begin

text \<open>
  A verification development for the Python programs of the onyx-server repository. The server
  is an IRC daemon written in Zig; the Python programs around it announce its commits on IRC,
  decide which of its tests run and whether their results may be reused, and accept or refuse
  contracts, checkpoints, agent definitions, benchmark runs and packages. The programs do not call
  each other, except that the gate ledger reads the report lines the sharded test runner prints.

  \<^bold>\<open>Parts and theories.\<close>

  \<^item> Shared: \<open>Prelude\<close> (results, the operations of \<open>str\<close> and \<open>bytes\<close>), \<open>Text_Codecs\<close>
    (UTF-8 with replacement, base64), \<open>PyJson\<close> (JSON values with Python's equality), \<open>PyText\<close>
    (number templates, doubles, paths, exceptions), \<open>PyRegex\<close> (Python's \<open>re\<close> as a backtracking
    matcher, with the languages of its patterns), \<open>Machines\<close> (three interfaces as locales: a step
    relation with an invariant, a machine driven by events, a framer of a byte stream), \<open>Octets\<close>
    (bytes as 8-bit words, integers in both byte orders, slices).
  \<^item> \<open>tools/announce_bot.py\<close>: \<open>Bot_Text\<close> (byte budgets, \<open>split_text\<close>, \<open>compact\<close>, topic guards),
    \<open>Bot_Project\<close> (project table, inventory readers, commit statistics), \<open>Bot_Inventory\<close> (the
    single-flight cache and its worker thread as a step relation), \<open>Bot_Core\<close> (\<open>Bot\<close>: queue,
    pacing, capability negotiation, SASL, commands, announcements), \<open>Bot_Safety\<close> and \<open>Bot_Props\<close>.
    The bot's state is one record; every method is a function from it to itself, with the lines
    written to the socket as part of the state.
  \<^item> \<open>tools/check-client-contract.py\<close>: \<open>Client_Contract\<close> (all checks of both contract versions; the
    shipped contract is a constant of the theory).
  \<^item> \<open>tools/parallel_tests.py\<close>: \<open>Parallel_Tests\<close> (profiles, balancing, shards, receipts, verdict) with
    \<open>Test_Plan_Props\<close> and \<open>Test_Profile_Props\<close>.
  \<^item> \<open>tools/gate_ledger.py\<close>: \<open>Gate_Ledger\<close> (context digests, test counts, reuse decisions) with
    \<open>Ledger_Props\<close>, where the two programs meet: the report line of a run parses to its counts.
  \<^item> \<open>select-gates.py\<close>: \<open>Gate_Select\<close>. \<open>tools/scram_fixture.py\<close>: \<open>Scram_Fixture\<close> (client and server
    of one SCRAM exchange; the hash functions are arguments).
  \<^item> \<open>tools/roadmap_checkpoint_audit.py\<close>: \<open>Roadmap_Audit\<close>. \<open>validate_toolkit.py\<close>: \<open>Toolkit\<close>.
    \<open>claude_review_stub.py\<close>: \<open>Review_Stub\<close>.
  \<^item> \<open>tools/bench_live.py\<close>: \<open>Bench_Live\<close> (line framer, delivery ledger, client, configurations, plan
    and exit codes). \<open>tools/alpine_package/driver.py\<close>: \<open>Alpine_Driver\<close> (the guest's receipts and the
    console loop).
  \<^item> \<open>tools/mesh_chat_smoke.py\<close>: \<open>Mesh_Chat\<close> (the IRC client, its select loop and \<open>main\<close>) with
    \<open>Mesh_Chat_Props\<close>. \<open>tools/mesh_health_smoke.py\<close>: \<open>Mesh_Health\<close> (gauges and exit codes).
    \<open>tools/windows_ocsp_live_smoke.py\<close>: \<open>Ocsp_Fixture\<close> (DER, certificates, request, responder).
    \<open>tools/privacy_corpus_smoke.py\<close>: \<open>Privacy_Corpus\<close> (redaction, transcript reader, report schema).
    \<open>tools/bench_sqpoll.py\<close>: \<open>Sqpoll\<close> (task statistics, snapshots, measurement checks, schedule).
  \<^item> \<open>tools/kernel_probe_startup_smoke.py\<close>: \<open>Kernel_Probe\<close> (trace rows, the cleanup check, the phases of
    the campaign; processes and files are the record \<open>campaign\<close>) with \<open>Kernel_Props\<close>.
  \<^item> The WebSocket clients of \<open>tools/upgrade_smoke.py\<close>, \<open>tools/openbsd_runtime_smoke.py\<close> and
    \<open>tools/windows_full_daemon_smoke.py\<close>: \<open>Websocket\<close> (frame writers, the three readers, upgrades) with
    \<open>Websocket_Props\<close>. The socket is the list of the results of \<open>recv\<close>.
  \<^item> \<open>qemu-verify/\<close>: \<open>Image_Tools\<close> (memory scan, archive writer, image converter, monitor client).
    \<open>tools/cloak_audit_smoke.py\<close>: \<open>Cloak_Audit\<close> (checkpoint reader, comparison, reports).
    \<open>tools/windows_media_smoke.py\<close>: \<open>Media_Probe\<close> (offers, STUN requests, native frames).

  \<^bold>\<open>Conventions.\<close> Where code points matter a \<open>str\<close> is a \<open>nat list\<close>, elsewhere it is its UTF-8
  bytes; \<open>bytes\<close> are strings, or lists of 8-bit words for binary formats. Code that raises returns a sum whose left side is the exception.
  Files, clocks, the environment, subprocess output, \<open>json.loads\<close>, \<open>tomllib.loads\<close>, hash functions
  and the Unicode database above 127 are arguments. Case folding is modelled towards the ASCII
  letters, which is all the programs compare with.

  \<^bold>\<open>What the theorems show.\<close>

  \<^item> The bot never changes a protected topic and answers a \<open>PING\<close> with its \<open>PONG\<close>; text is split
    within the byte budget without losing a character; capability negotiation ends once; only
    administrators can do more than make it speak; input framing does not depend on chunking; the
    inventory cache runs one computation at a time and its worker serves every request; the loop
    that shortens a message ends.
  \<^item> The contract validator accepts exactly the values described by a specification of the contract;
    a green test run executed every test exactly once; the balanced plan covers all tests within
    its load bound; saved profiles load again; reuse of a gate result needs the same context.
  \<^item> The roadmap audit, the toolkit validator, the Alpine driver and the review stub succeed only on
    complete evidence; the delivery ledger calls a phase complete exactly when every message
    arrived once and in order; transferred logs are stored byte for byte.
  \<^item> The chat smoke test exits with 0 only when both messages arrived in the bytes the servers sent,
    and its clients never end the negotiation twice or early; the health check only on pages that
    report a connected mesh; DER parses back what was encoded; redaction hides an address only in
    replies to its owner.
  \<^item> The kernel campaign exits with 0 only when every injected fault was met by a clean stop, as the
    trace shows it; frames written by the WebSocket clients are read back by a standard reader, and
    their readers return messages whole however the stream is cut; archives and images decode to
    what they were made of; the memory scan finds every signature once; the checkpoint reader
    accepts exactly the images of the format, and a candidate that passes changes five masks and
    nothing else; the binding request verifies at its receiver.
  \<^item> Where the code does not do what it says, a theorem shows it: a \<open>PING\<close> inside a prefix, the
    capped file list of a commit card, the shipped contract that the validator rejects, the
    conditions under which a profile that was saved is loaded again, message tags that are not
    stripped, a run with required SASL that passes without it, the exit status of a failed fetch, a
    benchmark order that is never reversed, a submission by another thread that the cleanup check
    does not see, frames that are lost with the upgrade response.

  \<^bold>\<open>Interfaces.\<close> \<open>invariant_machine\<close> is interpreted on the inventory steps, \<open>event_machine\<close> on the
  delivery ledger and the bot's session, \<open>stream_framer\<close> on the bot's receive loop (which the
  chat client shares), on the benchmark's framer and on the upgrade test's reader, \<open>text_measure\<close> on
  UTF-8 lengths, \<open>roster\<close> on the three loops of the toolkit validator, \<open>ws_sender\<close> on the three frame
  writers, \<open>cursor\<close> on the readers of rows and tombstones.

  \<^bold>\<open>Termination and bounds.\<close> All functions are total. Loops over input are recursions on the input;
  the other loops have a measure (the length of the text for splitting and truncation, the pair of
  remaining text and pattern size for the matcher). There is no fuel. Limits of the code (512-byte
  lines, 4 MiB files, 64 KiB buffers) are constants of the model.

  \<^bold>\<open>Not modelled.\<close> The Zig daemon; the other smoke tests, and the parts of the modelled ones that
  start the daemon and drive it over sockets, terminals, services and guests;
  \<open>tools/check_docs.py\<close>; process control, timing and rendered reports of the modelled tools; the wall-clock waits of \<open>asyncio\<close>
  code. Their logic is I/O, or rests on library code outside the repository.
\<close>

end
